(* ===== verification/BR_Prelude.thy ===== *)
theory BR_Prelude
  imports Complex_Main "HOL-Library.Sublist"
begin

text \<open>
  Shared vocabulary of the development.

  \<^item> The collections \<open>br_defs\<close> (definitions of operations, unfolded when a proof has to
    compute with an operation) and \<open>br_frame\<close> (which fields an operation leaves alone).
  \<^item> Promise outcomes: an \<open>async\<close> function of the sources either resolves with a value
    or rejects with a thrown value. Both are values of a sum type, \<open>Inl\<close> the rejection.
  \<^item> Thrown values: what the external library throws is opaque to the program (a type
    variable \<open>'e\<close>); what the program itself throws is \<open>new Error(message)\<close>.
  \<^item> Generic facts shared by the components: outcomes, and association lists with
    distinct keys (the browser's table of live object URLs is one).
\<close>

section \<open>Collections\<close>

named_theorems br_defs "definitions of the modelled operations"
named_theorems br_frame "fields an operation does not change"

section \<open>Promise outcomes and thrown values\<close>

type_synonym ('e, 'a) outcome = "'e + 'a"

abbreviation Rejected :: "'e \<Rightarrow> ('e, 'a) outcome" where
  "Rejected \<equiv> Inl"

abbreviation Resolved :: "'a \<Rightarrow> ('e, 'a) outcome" where
  "Resolved \<equiv> Inr"

text \<open>
  A value caught by a \<open>catch\<close> clause: either a value the library threw, or an \<open>Error\<close>
  object the program constructed, which carries the message it was constructed with.
\<close>

datatype ('e, 'm) thrown = LibThrown 'e | ErrorObj 'm

fun resolved :: "('e, 'a) outcome \<Rightarrow> bool" where
  "resolved (Inr _) = True"
| "resolved (Inl _) = False"

section \<open>Shared lemmas\<close>

lemma resolved_iff: "resolved r \<longleftrightarrow> (\<exists>v. r = Inr v)"
  by (cases r) auto

text \<open>
  Association lists with distinct keys: removing a key that is present shortens the list
  by one, removing two different keys that are present by two.
\<close>

lemma length_filter_fst_neq:
  "distinct (map fst xs) \<Longrightarrow> k \<in> fst ` set xs \<Longrightarrow>
   Suc (length (filter (\<lambda>e. fst e \<noteq> k) xs)) = length xs"
proof (induction xs)
  case (Cons x xs)
  show ?case
  proof (cases "fst x = k")
    case True
    with Cons.prems have "filter (\<lambda>e. fst e \<noteq> k) xs = xs"
      by (auto simp: filter_id_conv image_iff)
    with True show ?thesis by simp
  next
    case False
    with Cons show ?thesis by auto
  qed
qed simp

lemma length_filter_fst_neq2:
  assumes "distinct (map fst xs)" and "a \<in> fst ` set xs" and "b \<in> fst ` set xs" and "a \<noteq> b"
  shows "Suc (Suc (length (filter (\<lambda>e. fst e \<noteq> a \<and> fst e \<noteq> b) xs))) = length xs"
proof -
  from assms have "b \<in> fst ` set (filter (\<lambda>e. fst e \<noteq> a) xs)" by auto
  with assms(1) have
    "Suc (length (filter (\<lambda>e. fst e \<noteq> b) (filter (\<lambda>e. fst e \<noteq> a) xs))) =
     length (filter (\<lambda>e. fst e \<noteq> a) xs)"
    by (intro length_filter_fst_neq) (simp add: distinct_map_filter)
  with length_filter_fst_neq [OF assms(1,2)] show ?thesis by simp
qed

text \<open>Two entries appended under keys above all keys of the list are found under them.\<close>

lemma map_of_two_fresh:
  assumes "\<forall>u \<in> fst ` set xs. u < n"
  shows "map_of (xs @ [(n, a), (Suc n, b)]) n = Some a"
    and "map_of (xs @ [(n, a), (Suc n, b)]) (Suc n) = Some b"
proof -
  from assms have "n \<notin> fst ` set xs" and "Suc n \<notin> fst ` set xs" by auto
  then have "map_of xs n = None" and "map_of xs (Suc n) = None"
    by (simp_all add: map_of_eq_None_iff)
  then show "map_of (xs @ [(n, a), (Suc n, b)]) n = Some a"
    and "map_of (xs @ [(n, a), (Suc n, b)]) (Suc n) = Some b"
    by (simp_all add: map_of_append map_add_def)
qed

end
