(* ===== verification/Config.thy ===== *)
theory Config
  imports BR_Prelude
begin

text \<open>
  The configuration object (\<open>Config\<close> of the external library, as far as the program
  reads and writes it) and the program's default, \<open>defaultConfig\<close> of
  \<^verbatim>\<open>src/src/utils/backgroundRemoval.ts\<close>.

  The string-literal unions of the sources are datatypes: the devices offered by the
  panel (\<^verbatim>\<open>ConfigPanel.tsx\<close> lines 64 and 75), the model variants (lines 99-101), the
  output formats (lines 127-129) and the output types (lines 153-155). The functions
  \<open>device_value\<close>, \<open>model_value\<close>, \<open>format_value\<close> and \<open>type_value\<close> give the literal
  each constructor stands for; they are injective, so comparing constructors is
  comparing the literals with \<^verbatim>\<open>===\<close>. The four datatypes are instances of the class
  \<open>enum\<close>, with their members in the order of the panel.

  \<open>quality\<close> is a JavaScript number. It is modelled as a real: the program only stores
  it, compares nothing with it and shows it rounded to a percentage.
\<close>

section \<open>Definitions\<close>

datatype device = Cpu | Gpu

datatype model = Isnet | Isnet_fp16 | Isnet_quint8

datatype format = Image_png | Image_jpeg | Image_webp

datatype output_type = Foreground | Background | Mask

record output_config =
  format :: format
  quality :: real
  type :: output_type

record config =
  debug :: bool
  device :: device
  model :: model
  "output" :: output_config

definition defaultConfig :: config where
  "defaultConfig =
     \<lparr>debug = False,
      device = Cpu,
      model = Isnet_fp16,
      output = \<lparr>format = Image_png, quality = 0.8, type = Foreground\<rparr>\<rparr>"

fun device_value :: "device \<Rightarrow> string" where
  "device_value Cpu = ''cpu''"
| "device_value Gpu = ''gpu''"

fun model_value :: "model \<Rightarrow> string" where
  "model_value Isnet = ''isnet''"
| "model_value Isnet_fp16 = ''isnet_fp16''"
| "model_value Isnet_quint8 = ''isnet_quint8''"

fun format_value :: "format \<Rightarrow> string" where
  "format_value Image_png = ''image/png''"
| "format_value Image_jpeg = ''image/jpeg''"
| "format_value Image_webp = ''image/webp''"

fun type_value :: "output_type \<Rightarrow> string" where
  "type_value Foreground = ''foreground''"
| "type_value Background = ''background''"
| "type_value Mask = ''mask''"

text \<open>
  Each union has finitely many members, listed in the order of the panel: the datatypes
  are instances of the class \<open>enum\<close>, so that a statement about every member is a
  statement about a list.
\<close>

instantiation device :: enum
begin

definition "enum_device = [Cpu, Gpu]"

definition "enum_all_device P \<longleftrightarrow> P Cpu \<and> P Gpu"

definition "enum_ex_device P \<longleftrightarrow> P Cpu \<or> P Gpu"

instance
proof
  show "UNIV = set (enum_class.enum :: device list)"
    by (auto simp: enum_device_def intro: device.exhaust)
  show "distinct (enum_class.enum :: device list)"
    by (simp add: enum_device_def)
  show "enum_class.enum_all P = Ball UNIV P" for P :: "device \<Rightarrow> bool"
    by (auto simp: enum_all_device_def) (metis device.exhaust)
  show "enum_class.enum_ex P = Bex UNIV P" for P :: "device \<Rightarrow> bool"
    by (auto simp: enum_ex_device_def) (metis device.exhaust)
qed

end

instantiation model :: enum
begin

definition "enum_model = [Isnet, Isnet_fp16, Isnet_quint8]"

definition "enum_all_model P \<longleftrightarrow> P Isnet \<and> P Isnet_fp16 \<and> P Isnet_quint8"

definition "enum_ex_model P \<longleftrightarrow> P Isnet \<or> P Isnet_fp16 \<or> P Isnet_quint8"

instance
proof
  show "UNIV = set (enum_class.enum :: model list)"
    by (auto simp: enum_model_def intro: model.exhaust)
  show "distinct (enum_class.enum :: model list)"
    by (simp add: enum_model_def)
  show "enum_class.enum_all P = Ball UNIV P" for P :: "model \<Rightarrow> bool"
    by (auto simp: enum_all_model_def) (metis model.exhaust)
  show "enum_class.enum_ex P = Bex UNIV P" for P :: "model \<Rightarrow> bool"
    by (auto simp: enum_ex_model_def) (metis model.exhaust)
qed

end

instantiation format :: enum
begin

definition "enum_format = [Image_png, Image_jpeg, Image_webp]"

definition "enum_all_format P \<longleftrightarrow> P Image_png \<and> P Image_jpeg \<and> P Image_webp"

definition "enum_ex_format P \<longleftrightarrow> P Image_png \<or> P Image_jpeg \<or> P Image_webp"

instance
proof
  show "UNIV = set (enum_class.enum :: format list)"
    by (auto simp: enum_format_def intro: format.exhaust)
  show "distinct (enum_class.enum :: format list)"
    by (simp add: enum_format_def)
  show "enum_class.enum_all P = Ball UNIV P" for P :: "format \<Rightarrow> bool"
    by (auto simp: enum_all_format_def) (metis format.exhaust)
  show "enum_class.enum_ex P = Bex UNIV P" for P :: "format \<Rightarrow> bool"
    by (auto simp: enum_ex_format_def) (metis format.exhaust)
qed

end

instantiation output_type :: enum
begin

definition "enum_output_type = [Foreground, Background, Mask]"

definition "enum_all_output_type P \<longleftrightarrow> P Foreground \<and> P Background \<and> P Mask"

definition "enum_ex_output_type P \<longleftrightarrow> P Foreground \<or> P Background \<or> P Mask"

instance
proof
  show "UNIV = set (enum_class.enum :: output_type list)"
    by (auto simp: enum_output_type_def intro: output_type.exhaust)
  show "distinct (enum_class.enum :: output_type list)"
    by (simp add: enum_output_type_def)
  show "enum_class.enum_all P = Ball UNIV P" for P :: "output_type \<Rightarrow> bool"
    by (auto simp: enum_all_output_type_def) (metis output_type.exhaust)
  show "enum_class.enum_ex P = Bex UNIV P" for P :: "output_type \<Rightarrow> bool"
    by (auto simp: enum_ex_output_type_def) (metis output_type.exhaust)
qed

end

text \<open>
  The range the specification gives for \<open>quality\<close>: a real number in \<open>[0, 1]\<close>.
\<close>

definition valid_quality :: "real \<Rightarrow> bool" where
  "valid_quality q \<longleftrightarrow> 0 \<le> q \<and> q \<le> 1"

definition valid_config :: "config \<Rightarrow> bool" where
  "valid_config c \<longleftrightarrow> valid_quality (quality (output c))"

section \<open>Lemmas\<close>

lemma device_value_inj [simp]: "device_value a = device_value b \<longleftrightarrow> a = b"
  by (cases a; cases b) simp_all

lemma model_value_inj [simp]: "model_value a = model_value b \<longleftrightarrow> a = b"
  by (cases a; cases b) simp_all

lemma format_value_inj [simp]: "format_value a = format_value b \<longleftrightarrow> a = b"
  by (cases a; cases b) simp_all

lemma type_value_inj [simp]: "type_value a = type_value b \<longleftrightarrow> a = b"
  by (cases a; cases b) simp_all

lemma defaultConfig_simps [simp]:
  "debug defaultConfig = False"
  "device defaultConfig = Cpu"
  "model defaultConfig = Isnet_fp16"
  "format (output defaultConfig) = Image_png"
  "quality (output defaultConfig) = 0.8"
  "type (output defaultConfig) = Foreground"
  by (simp_all add: defaultConfig_def)

lemma valid_defaultConfig: "valid_config defaultConfig"
  by (simp add: valid_config_def valid_quality_def)

end
