(* ===== verification/Environment.thy ===== *)
theory Environment
  imports Config
begin

text \<open>
  What the program talks to: the external library, the console and the files the
  browser hands over. None of it is code of the repository; the definitions here fix the
  shape of each call site.

  \<^item> \<open>dom_file\<close>: the fields of a DOM \<open>File\<close> that the program reads (\<open>name\<close>, \<open>type\<close>,
    \<open>size\<close>).
  \<^item> \<open>preload_options\<close>: the object literal that \<open>loadModel\<close> passes to \<open>preload\<close>.
  \<^item> \<open>library\<close>: the two functions imported from the library. Each takes the effects
    so far and its arguments and answers with the outcome of the promise, so a library
    may answer differently on a second call. Theorems quantify over every library.
  \<^item> \<open>effect\<close>: one entry of the effect trace. A library call is recorded with its
    arguments and outcome, a \<open>console.error\<close> with its label and the value logged.
  \<^item> \<open>removal_message\<close>: the message of the one \<open>Error\<close> the wrapper constructs.
\<close>

section \<open>Definitions\<close>

record dom_file =
  file_name :: string
  file_type :: string
  file_size :: nat

record preload_options =
  po_model :: model
  po_debug :: bool
  po_device :: device

datatype removal_message = Background_removal_failed_retry

type_synonym 'e caught = "('e, removal_message) thrown"

datatype wrapper_log = Failed_to_preload_model | Background_removal_failed

datatype app_log = Model_load_failed | Model_reload_failed | Background_removal_error

datatype ('e, 'b) effect =
    PreloadCall preload_options "('e, unit) outcome"
  | RemoveBackgroundCall dom_file config "('e, 'b) outcome"
  | WrapperLog wrapper_log "'e caught"
  | AppLog app_log "'e caught"

record ('e, 'b) library =
  preload :: "('e, 'b) effect list \<Rightarrow> preload_options \<Rightarrow> ('e, unit) outcome"
  removeBackground :: "('e, 'b) effect list \<Rightarrow> dom_file \<Rightarrow> config \<Rightarrow> ('e, 'b) outcome"

text \<open>Observations on a trace.\<close>

fun is_preload :: "('e, 'b) effect \<Rightarrow> bool" where
  "is_preload (PreloadCall _ _) = True"
| "is_preload _ = False"

fun is_inference :: "('e, 'b) effect \<Rightarrow> bool" where
  "is_inference (RemoveBackgroundCall _ _ _) = True"
| "is_inference _ = False"

definition preload_count :: "('e, 'b) effect list \<Rightarrow> nat" where
  "preload_count tr = length (filter is_preload tr)"

definition inference_count :: "('e, 'b) effect list \<Rightarrow> nat" where
  "inference_count tr = length (filter is_inference tr)"

text \<open>
  The options a successful preload was called with, and the options of the last preload
  of a trace that succeeded: the model the library holds after the trace.
\<close>

fun loaded_options :: "('e, 'b) effect \<Rightarrow> preload_options option" where
  "loaded_options (PreloadCall opts r) = (if resolved r then Some opts else None)"
| "loaded_options _ = None"

fun last_preloaded :: "('e, 'b) effect list \<Rightarrow> preload_options option" where
  "last_preloaded [] = None"
| "last_preloaded (x # tr) =
     (case last_preloaded tr of Some opts \<Rightarrow> Some opts | None \<Rightarrow> loaded_options x)"

section \<open>Lemmas\<close>

lemma preload_count_simps [simp]:
  "preload_count [] = 0"
  "preload_count (x # tr) = (if is_preload x then 1 else 0) + preload_count tr"
  "preload_count (tr @ tr') = preload_count tr + preload_count tr'"
  by (simp_all add: preload_count_def)

lemma inference_count_simps [simp]:
  "inference_count [] = 0"
  "inference_count (x # tr) = (if is_inference x then 1 else 0) + inference_count tr"
  "inference_count (tr @ tr') = inference_count tr + inference_count tr'"
  by (simp_all add: inference_count_def)

lemma last_preloaded_append [simp]:
  "last_preloaded (tr @ tr') =
     (case last_preloaded tr' of Some opts \<Rightarrow> Some opts | None \<Rightarrow> last_preloaded tr)"
  by (induction tr) (auto split: option.splits)

lemma last_preloaded_None_iff:
  "last_preloaded tr = None \<longleftrightarrow> (\<forall>x \<in> set tr. loaded_options x = None)"
  by (induction tr) (auto split: option.splits)

lemma loaded_options_Some_iff:
  "loaded_options x = Some opts \<longleftrightarrow> (\<exists>u. x = PreloadCall opts (Resolved u))"
  by (cases x) (auto simp: resolved_iff)

lemma last_preloaded_Some_D:
  "last_preloaded tr = Some opts \<Longrightarrow> \<exists>u. PreloadCall opts (Resolved u) \<in> set tr"
  by (induction tr) (auto simp: loaded_options_Some_iff split: option.splits)

end
