(* ===== verification/BackgroundRemoval.thy ===== *)
theory BackgroundRemoval
  imports Environment
begin

text \<open>
  The model lifecycle wrapper and the inference call of
  \<^verbatim>\<open>src/src/utils/backgroundRemoval.ts\<close>.

  \<^item> State: the record \<open>world\<close> holds the module variable \<open>isModelLoaded\<close> and the trace
    of effects (library calls with their outcomes, console output), oldest first. The
    trace is what a test double of the library and of the console would record; the
    program never reads it.
  \<^item> Operations: \<open>loadModel\<close>, \<open>processImageBackgroundRemoval\<close>, \<open>isModelReady\<close> and
    \<open>resetModel\<close>, one definition each. An \<open>async\<close> function takes the library and the
    world and returns the outcome of its promise with the world it leaves. An \<open>await\<close>
    is the call of the library at that point: one operation runs from start to end,
    which is how the surrounding interface is meant to use the module. The parameter
    default \<open>config = defaultConfig\<close> is an optional argument closed by \<open>or_default\<close>.
  \<^item> \<open>removal_try\<close> and \<open>removal_catch\<close> are the two blocks of the \<open>try\<close> statement of
    \<open>processImageBackgroundRemoval\<close>.
  \<^item> \<open>op\<close>, \<open>exec_op\<close>, \<open>run\<close> and \<open>reachable\<close>: the module as a machine driven by its
    callers, for the invariants.
  \<^item> \<open>lifecycle\<close>, \<open>spec_load\<close>, \<open>spec_reset\<close>, \<open>spec_process\<close>: the two-state contract
    of the specification, which the operations refine along \<open>abs_state\<close>.
\<close>

section \<open>Definitions\<close>

subsection \<open>Module state\<close>

record ('e, 'b) world =
  isModelLoaded :: bool
  trace :: "('e, 'b) effect list"

definition initial_world :: "('e, 'b) world" where
  "initial_world = \<lparr>isModelLoaded = False, trace = []\<rparr>"

subsection \<open>Effects\<close>

definition call_preload ::
  "('e, 'b) library \<Rightarrow> preload_options \<Rightarrow> ('e, 'b) world \<Rightarrow>
     ('e, unit) outcome \<times> ('e, 'b) world" where
  "call_preload lib opts w =
     (let r = preload lib (trace w) opts
      in (r, w\<lparr>trace := trace w @ [PreloadCall opts r]\<rparr>))"

definition call_removeBackground ::
  "('e, 'b) library \<Rightarrow> dom_file \<Rightarrow> config \<Rightarrow> ('e, 'b) world \<Rightarrow>
     ('e, 'b) outcome \<times> ('e, 'b) world" where
  "call_removeBackground lib imageFile config w =
     (let r = removeBackground lib (trace w) imageFile config
      in (r, w\<lparr>trace := trace w @ [RemoveBackgroundCall imageFile config r]\<rparr>))"

definition console_error ::
  "wrapper_log \<Rightarrow> 'e caught \<Rightarrow> ('e, 'b) world \<Rightarrow> ('e, 'b) world" where
  "console_error label error w = w\<lparr>trace := trace w @ [WrapperLog label error]\<rparr>"

subsection \<open>Operations\<close>

definition or_default :: "config option \<Rightarrow> config" where
  "or_default config_arg = (case config_arg of None \<Rightarrow> defaultConfig | Some c \<Rightarrow> c)"

definition preload_options_of :: "config \<Rightarrow> preload_options" where
  "preload_options_of config =
     \<lparr>po_model = model config, po_debug = debug config, po_device = device config\<rparr>"

definition loadModel ::
  "('e, 'b) library \<Rightarrow> config option \<Rightarrow> ('e, 'b) world \<Rightarrow>
     ('e caught, unit) outcome \<times> ('e, 'b) world" where
  "loadModel lib config_arg w =
     (let config = or_default config_arg in
      if \<not> isModelLoaded w then
        (case call_preload lib (preload_options_of config) w of
           (Inr _, w1) \<Rightarrow> (Resolved (), w1\<lparr>isModelLoaded := True\<rparr>)
         | (Inl error, w1) \<Rightarrow>
             (Rejected (LibThrown error),
              console_error Failed_to_preload_model (LibThrown error) w1))
      else (Resolved (), w))"

definition removal_try ::
  "('e, 'b) library \<Rightarrow> dom_file \<Rightarrow> config \<Rightarrow> ('e, 'b) world \<Rightarrow>
     ('e caught, 'b) outcome \<times> ('e, 'b) world" where
  "removal_try lib imageFile config w =
     (case (if \<not> isModelLoaded w then loadModel lib (Some config) w else (Resolved (), w)) of
        (Inl error, w1) \<Rightarrow> (Rejected error, w1)
      | (Inr _, w1) \<Rightarrow>
          (case call_removeBackground lib imageFile config w1 of
             (Inr blob, w2) \<Rightarrow> (Resolved blob, w2)
           | (Inl error, w2) \<Rightarrow> (Rejected (LibThrown error), w2)))"

definition removal_catch ::
  "('e caught, 'b) outcome \<times> ('e, 'b) world \<Rightarrow> ('e caught, 'b) outcome \<times> ('e, 'b) world" where
  "removal_catch rw =
     (case rw of
        (Inr blob, w) \<Rightarrow> (Resolved blob, w)
      | (Inl error, w) \<Rightarrow>
          (Rejected (ErrorObj Background_removal_failed_retry),
           console_error Background_removal_failed error w))"

definition processImageBackgroundRemoval ::
  "('e, 'b) library \<Rightarrow> dom_file \<Rightarrow> config option \<Rightarrow> ('e, 'b) world \<Rightarrow>
     ('e caught, 'b) outcome \<times> ('e, 'b) world" where
  "processImageBackgroundRemoval lib imageFile config_arg w =
     removal_catch (removal_try lib imageFile (or_default config_arg) w)"

definition isModelReady :: "('e, 'b) world \<Rightarrow> bool" where
  "isModelReady w = isModelLoaded w"

definition resetModel :: "('e, 'b) world \<Rightarrow> ('e, 'b) world" where
  "resetModel w = w\<lparr>isModelLoaded := False\<rparr>"

subsection \<open>The module as a machine\<close>

datatype op =
    LoadModel "config option"
  | ProcessImage dom_file "config option"
  | IsModelReady
  | ResetModel

fun exec_op :: "('e, 'b) library \<Rightarrow> op \<Rightarrow> ('e, 'b) world \<Rightarrow> ('e, 'b) world" where
  "exec_op lib (LoadModel c) w = snd (loadModel lib c w)"
| "exec_op lib (ProcessImage f c) w = snd (processImageBackgroundRemoval lib f c w)"
| "exec_op lib IsModelReady w = w"
| "exec_op lib ResetModel w = resetModel w"

fun run :: "('e, 'b) library \<Rightarrow> op list \<Rightarrow> ('e, 'b) world \<Rightarrow> ('e, 'b) world" where
  "run lib [] w = w"
| "run lib (x # xs) w = run lib xs (exec_op lib x w)"

inductive reachable :: "('e, 'b) library \<Rightarrow> ('e, 'b) world \<Rightarrow> bool" for lib where
  start: "reachable lib initial_world"
| step: "reachable lib w \<Longrightarrow> reachable lib (exec_op lib x w)"

text \<open>
  Every inference call in a trace comes after a preload that succeeded: the module never
  asks for an inference before the library has told it that a model is there.
\<close>

fun loaded_before_inference :: "bool \<Rightarrow> ('e, 'b) effect list \<Rightarrow> bool" where
  "loaded_before_inference seen [] = True"
| "loaded_before_inference seen (PreloadCall opts r # tr) =
     loaded_before_inference (seen \<or> resolved r) tr"
| "loaded_before_inference seen (RemoveBackgroundCall f c r # tr) =
     (seen \<and> loaded_before_inference seen tr)"
| "loaded_before_inference seen (WrapperLog l v # tr) = loaded_before_inference seen tr"
| "loaded_before_inference seen (AppLog l v # tr) = loaded_before_inference seen tr"

definition world_inv :: "('e, 'b) world \<Rightarrow> bool" where
  "world_inv w \<longleftrightarrow>
     (isModelLoaded w \<longrightarrow> last_preloaded (trace w) \<noteq> None) \<and>
     loaded_before_inference False (trace w)"

subsection \<open>The contract of the specification\<close>

datatype lifecycle = NOT_READY | READY

definition abs_state :: "('e, 'b) world \<Rightarrow> lifecycle" where
  "abs_state w = (if isModelLoaded w then READY else NOT_READY)"

text \<open>
  \<open>spec_load s ok\<close>: the state after \<open>load\<close> and the number of preload calls it makes,
  where \<open>ok\<close> says whether the preload, if made, succeeds.
\<close>

fun spec_load :: "lifecycle \<Rightarrow> bool \<Rightarrow> lifecycle \<times> nat" where
  "spec_load READY ok = (READY, 0)"
| "spec_load NOT_READY ok = (if ok then READY else NOT_READY, 1)"

definition spec_reset :: "lifecycle \<Rightarrow> lifecycle" where
  "spec_reset s = NOT_READY"

text \<open>
  \<open>spec_process s ok\<close>: the state after \<open>processImage\<close>, the number of preload calls
  and the number of inference calls it makes.
\<close>

fun spec_process :: "lifecycle \<Rightarrow> bool \<Rightarrow> lifecycle \<times> nat \<times> nat" where
  "spec_process READY ok = (READY, 0, 1)"
| "spec_process NOT_READY ok = (if ok then (READY, 1, 1) else (NOT_READY, 1, 0))"

text \<open>
  One step of the contract: the state after the operation, the number of preload calls
  and the number of inference calls it makes.
\<close>

fun spec_step :: "lifecycle \<Rightarrow> op \<Rightarrow> bool \<Rightarrow> lifecycle \<times> nat \<times> nat" where
  "spec_step s (LoadModel c) ok = (fst (spec_load s ok), snd (spec_load s ok), 0)"
| "spec_step s (ProcessImage f c) ok = spec_process s ok"
| "spec_step s IsModelReady ok = (s, 0, 0)"
| "spec_step s ResetModel ok = (spec_reset s, 0, 0)"

text \<open>Whether the library would answer a preload for the operation's configuration now.\<close>

fun preload_succeeds :: "('e, 'b) library \<Rightarrow> op \<Rightarrow> ('e, 'b) world \<Rightarrow> bool" where
  "preload_succeeds lib (LoadModel c) w =
     resolved (preload lib (trace w) (preload_options_of (or_default c)))"
| "preload_succeeds lib (ProcessImage f c) w =
     resolved (preload lib (trace w) (preload_options_of (or_default c)))"
| "preload_succeeds lib _ w = True"

subsection \<open>Sample libraries and inputs\<close>

text \<open>
  Concrete libraries for the instances of the theorems below. A result blob is
  represented by its media type. \<open>lib_ok\<close> always succeeds; \<open>lib_offline\<close> fails every
  call; \<open>lib_bad_image\<close> loads but fails every inference; \<open>lib_flaky\<close> fails the first
  preload and succeeds from then on.
\<close>

definition sample_file :: dom_file where
  "sample_file = \<lparr>file_name = ''cat.png'', file_type = ''image/png'', file_size = 2048\<rparr>"

definition gpu_config :: config where
  "gpu_config = defaultConfig\<lparr>device := Gpu, model := Isnet\<rparr>"

definition lib_ok :: "(string, format) library" where
  "lib_ok =
     \<lparr>preload = (\<lambda>tr opts. Resolved ()),
      removeBackground = (\<lambda>tr f c. Resolved (format (output c)))\<rparr>"

definition lib_offline :: "(string, format) library" where
  "lib_offline =
     \<lparr>preload = (\<lambda>tr opts. Rejected ''fetch failed''),
      removeBackground = (\<lambda>tr f c. Rejected ''fetch failed'')\<rparr>"

definition lib_bad_image :: "(string, format) library" where
  "lib_bad_image =
     \<lparr>preload = (\<lambda>tr opts. Resolved ()),
      removeBackground = (\<lambda>tr f c. Rejected ''decode error'')\<rparr>"

definition lib_flaky :: "(string, format) library" where
  "lib_flaky =
     \<lparr>preload = (\<lambda>tr opts. if preload_count tr = 0 then Rejected ''timeout'' else Resolved ()),
      removeBackground = (\<lambda>tr f c. Resolved (format (output c)))\<rparr>"

section \<open>Lemmas\<close>

lemmas effect_defs = call_preload_def call_removeBackground_def console_error_def Let_def

declare call_preload_def [br_defs] call_removeBackground_def [br_defs] console_error_def [br_defs]
  loadModel_def [br_defs] removal_try_def [br_defs] removal_catch_def [br_defs]
  processImageBackgroundRemoval_def [br_defs] isModelReady_def [br_defs] resetModel_def [br_defs]
  initial_world_def [br_defs]

lemma or_default_simps [simp]:
  "or_default None = defaultConfig"
  "or_default (Some c) = c"
  by (simp_all add: or_default_def)

lemma loadModel_ready:
  "isModelLoaded w \<Longrightarrow> loadModel lib c w = (Resolved (), w)"
  by (simp add: loadModel_def)

lemma loadModel_preload_ok:
  assumes "\<not> isModelLoaded w"
    and "preload lib (trace w) (preload_options_of (or_default c)) = Resolved u"
  shows "loadModel lib c w =
    (Resolved (),
     w\<lparr>isModelLoaded := True,
           trace := trace w @ [PreloadCall (preload_options_of (or_default c)) (Resolved u)]\<rparr>)"
  using assms by (simp add: loadModel_def effect_defs)

lemma loadModel_preload_fail:
  assumes "\<not> isModelLoaded w"
    and "preload lib (trace w) (preload_options_of (or_default c)) = Rejected e"
  shows "loadModel lib c w =
    (Rejected (LibThrown e),
     w\<lparr>trace := trace w @
        [PreloadCall (preload_options_of (or_default c)) (Rejected e),
         WrapperLog Failed_to_preload_model (LibThrown e)]\<rparr>)"
  using assms by (simp add: loadModel_def effect_defs)

lemmas loadModel_eqs = loadModel_ready loadModel_preload_ok loadModel_preload_fail

lemma loadModel_cases [case_names ready ok fail]:
  assumes "isModelLoaded w \<Longrightarrow> P"
    and "\<And>u. \<not> isModelLoaded w \<Longrightarrow>
          preload lib (trace w) (preload_options_of (or_default c)) = Resolved u \<Longrightarrow> P"
    and "\<And>e. \<not> isModelLoaded w \<Longrightarrow>
          preload lib (trace w) (preload_options_of (or_default c)) = Rejected e \<Longrightarrow> P"
  shows P
  using assms by (cases "preload lib (trace w) (preload_options_of (or_default c))") auto

lemma removal_guard_redundant:
  "(if \<not> isModelLoaded w then loadModel lib c w else (Resolved (), w)) = loadModel lib c w"
  by (simp add: loadModel_ready)

lemma processImage_unfold:
  "processImageBackgroundRemoval lib f c w =
     (case loadModel lib (Some (or_default c)) w of
        (Inl err, w1) \<Rightarrow>
          (Rejected (ErrorObj Background_removal_failed_retry),
           w1\<lparr>trace := trace w1 @ [WrapperLog Background_removal_failed err]\<rparr>)
      | (Inr _, w1) \<Rightarrow>
          (case removeBackground lib (trace w1) f (or_default c) of
             Inr blob \<Rightarrow>
               (Resolved blob,
                w1\<lparr>trace := trace w1 @
                   [RemoveBackgroundCall f (or_default c) (Resolved blob)]\<rparr>)
           | Inl e \<Rightarrow>
               (Rejected (ErrorObj Background_removal_failed_retry),
                w1\<lparr>trace := trace w1 @
                   [RemoveBackgroundCall f (or_default c) (Rejected e),
                    WrapperLog Background_removal_failed (LibThrown e)]\<rparr>)))"
  by (simp add: processImageBackgroundRemoval_def removal_try_def removal_catch_def
      removal_guard_redundant effect_defs split: prod.splits sum.splits)

lemma processImage_cases [case_names ready_ok ready_fail load_fail load_ok load_ok_fail]:
  assumes "\<And>b. isModelLoaded w \<Longrightarrow>
      removeBackground lib (trace w) f (or_default c) = Resolved b \<Longrightarrow>
      processImageBackgroundRemoval lib f c w =
        (Resolved b,
         w\<lparr>trace := trace w @ [RemoveBackgroundCall f (or_default c) (Resolved b)]\<rparr>) \<Longrightarrow> P"
    and "\<And>e. isModelLoaded w \<Longrightarrow>
      removeBackground lib (trace w) f (or_default c) = Rejected e \<Longrightarrow>
      processImageBackgroundRemoval lib f c w =
        (Rejected (ErrorObj Background_removal_failed_retry),
         w\<lparr>trace := trace w @
            [RemoveBackgroundCall f (or_default c) (Rejected e),
             WrapperLog Background_removal_failed (LibThrown e)]\<rparr>) \<Longrightarrow> P"
    and "\<And>e. \<not> isModelLoaded w \<Longrightarrow>
      preload lib (trace w) (preload_options_of (or_default c)) = Rejected e \<Longrightarrow>
      processImageBackgroundRemoval lib f c w =
        (Rejected (ErrorObj Background_removal_failed_retry),
         w\<lparr>trace := trace w @
            [PreloadCall (preload_options_of (or_default c)) (Rejected e),
             WrapperLog Failed_to_preload_model (LibThrown e),
             WrapperLog Background_removal_failed (LibThrown e)]\<rparr>) \<Longrightarrow> P"
    and "\<And>u b. \<not> isModelLoaded w \<Longrightarrow>
      preload lib (trace w) (preload_options_of (or_default c)) = Resolved u \<Longrightarrow>
      removeBackground lib
        (trace w @ [PreloadCall (preload_options_of (or_default c)) (Resolved u)])
        f (or_default c) = Resolved b \<Longrightarrow>
      processImageBackgroundRemoval lib f c w =
        (Resolved b,
         w\<lparr>isModelLoaded := True,
           trace := trace w @
            [PreloadCall (preload_options_of (or_default c)) (Resolved u),
             RemoveBackgroundCall f (or_default c) (Resolved b)]\<rparr>) \<Longrightarrow> P"
    and "\<And>u e. \<not> isModelLoaded w \<Longrightarrow>
      preload lib (trace w) (preload_options_of (or_default c)) = Resolved u \<Longrightarrow>
      removeBackground lib
        (trace w @ [PreloadCall (preload_options_of (or_default c)) (Resolved u)])
        f (or_default c) = Rejected e \<Longrightarrow>
      processImageBackgroundRemoval lib f c w =
        (Rejected (ErrorObj Background_removal_failed_retry),
         w\<lparr>isModelLoaded := True,
           trace := trace w @
            [PreloadCall (preload_options_of (or_default c)) (Resolved u),
             RemoveBackgroundCall f (or_default c) (Rejected e),
             WrapperLog Background_removal_failed (LibThrown e)]\<rparr>) \<Longrightarrow> P"
  shows P
proof (cases rule: loadModel_cases [of w P lib "Some (or_default c)"])
  case ready
  then show ?thesis
    using assms(1,2)
    by (cases "removeBackground lib (trace w) f (or_default c)")
       (simp_all add: processImage_unfold loadModel_ready)
next
  case (ok u)
  let ?w1 = "w\<lparr>isModelLoaded := True,
       trace := trace w @ [PreloadCall (preload_options_of (or_default c)) (Resolved u)]\<rparr>"
  from ok have "loadModel lib (Some (or_default c)) w = (Resolved (), ?w1)"
    by (simp add: loadModel_preload_ok)
  with ok show ?thesis
    using assms(4,5)
    by (cases "removeBackground lib (trace ?w1) f (or_default c)")
       (simp_all add: processImage_unfold)
next
  case (fail e)
  then show ?thesis
    using assms(3) by (simp add: processImage_unfold loadModel_preload_fail)
qed

lemma processImage_ready:
  assumes "isModelLoaded w"
  shows "processImageBackgroundRemoval lib f c w =
     (case removeBackground lib (trace w) f (or_default c) of
        Inr blob \<Rightarrow>
          (Resolved blob,
           w\<lparr>trace := trace w @ [RemoveBackgroundCall f (or_default c) (Resolved blob)]\<rparr>)
      | Inl e \<Rightarrow>
          (Rejected (ErrorObj Background_removal_failed_retry),
           w\<lparr>trace := trace w @
              [RemoveBackgroundCall f (or_default c) (Rejected e),
               WrapperLog Background_removal_failed (LibThrown e)]\<rparr>))"
  using assms by (simp add: processImage_unfold loadModel_ready)

lemma isModelReady_simps [simp]:
  "isModelReady w = isModelLoaded w"
  by (simp add: isModelReady_def)

lemma resetModel_simps [simp]:
  "isModelLoaded (resetModel w) = False"
  "trace (resetModel w) = trace w"
  by (simp_all add: resetModel_def)

lemma has_loaded_iff:
  "last_preloaded tr \<noteq> None \<longleftrightarrow> (\<exists>x \<in> set tr. loaded_options x \<noteq> None)"
  by (simp add: last_preloaded_None_iff)

lemma loaded_before_inference_append:
  "loaded_before_inference seen (tr @ tr') \<longleftrightarrow>
     loaded_before_inference seen tr \<and>
     loaded_before_inference (seen \<or> last_preloaded tr \<noteq> None) tr'"
  unfolding has_loaded_iff
  by (induction seen tr rule: loaded_before_inference.induct)
     simp_all

lemma world_inv_initial: "world_inv initial_world"
  by (simp add: world_inv_def initial_world_def)

lemma world_inv_loadModel: "world_inv w \<Longrightarrow> world_inv (snd (loadModel lib c w))"
  by (cases rule: loadModel_cases [of w _ lib c])
     (simp_all add: loadModel_eqs world_inv_def loaded_before_inference_append)

lemma world_inv_processImage:
  "world_inv w \<Longrightarrow> world_inv (snd (processImageBackgroundRemoval lib f c w))"
  by (cases rule: processImage_cases [of w lib f c])
     (simp_all add: world_inv_def loaded_before_inference_append)

lemma world_inv_resetModel: "world_inv w \<Longrightarrow> world_inv (resetModel w)"
  by (simp add: world_inv_def)

lemma world_inv_exec_op: "world_inv w \<Longrightarrow> world_inv (exec_op lib x w)"
  by (cases x) (simp_all add: world_inv_loadModel world_inv_processImage world_inv_resetModel)

lemma world_inv_run: "world_inv w \<Longrightarrow> world_inv (run lib xs w)"
  by (induction xs arbitrary: w) (simp_all add: world_inv_exec_op)

lemma run_append [simp]: "run lib (xs @ ys) w = run lib ys (run lib xs w)"
  by (induction xs arbitrary: w) simp_all

lemma reachable_run: "reachable lib w \<Longrightarrow> reachable lib (run lib xs w)"
  by (induction xs arbitrary: w) (auto intro: reachable.step)

lemma reachable_iff_run: "reachable lib w \<longleftrightarrow> (\<exists>xs. w = run lib xs initial_world)"
proof
  assume "reachable lib w"
  then show "\<exists>xs. w = run lib xs initial_world"
  proof (induction rule: reachable.induct)
    case start
    have "initial_world = run lib [] initial_world" by simp
    then show ?case by blast
  next
    case (step w x)
    then obtain xs where "w = run lib xs initial_world" by blast
    then have "exec_op lib x w = run lib (xs @ [x]) initial_world" by simp
    then show ?case by blast
  qed
next
  assume "\<exists>xs. w = run lib xs initial_world"
  then show "reachable lib w"
    by (auto intro: reachable_run reachable.start)
qed

lemmas sample_defs =
  sample_file_def gpu_config_def lib_ok_def lib_offline_def lib_bad_image_def lib_flaky_def
  initial_world_def

text \<open>
  \<^bold>\<open>C1\<close> (functional). The promise of \<open>loadModel\<close> resolves exactly when the module reports
  ready afterwards: a successful load sets the flag, a failed preload leaves it false, and
  a call on a loaded module resolves at once.
\<close>

theorem loadModel_resolves_iff_ready:
  "resolved (fst (loadModel lib c w)) \<longleftrightarrow> isModelReady (snd (loadModel lib c w))"
  by (cases rule: loadModel_cases [of w _ lib c]) (simp_all add: loadModel_eqs)

theorem loadModel_resolves_iff_ready_witness:
  "resolved (fst (loadModel lib_ok None initial_world)) \<and>
   isModelReady (snd (loadModel lib_ok None initial_world)) \<and>
   \<not> resolved (fst (loadModel lib_offline None initial_world)) \<and>
   \<not> isModelReady (snd (loadModel lib_offline None initial_world))"
  using loadModel_resolves_iff_ready [of lib_ok None initial_world]
    loadModel_resolves_iff_ready [of lib_offline None initial_world]
  by (simp add: loadModel_def effect_defs sample_defs)

text \<open>
  \<open>loadModel\<close> is idempotent: when the module is ready the call
  resolves and leaves the world as it was, whatever the configuration and whatever the
  library would answer. In particular no preload call is made.
\<close>

theorem loadModel_noop_when_ready:
  "isModelReady w \<Longrightarrow> loadModel lib c w = (Resolved (), w)"
  by (simp add: loadModel_ready)

theorem loadModel_noop_when_ready_witness:
  "isModelReady (snd (loadModel lib_ok None initial_world)) \<and>
   loadModel lib_offline (Some gpu_config) (snd (loadModel lib_ok None initial_world)) =
     (Resolved (), snd (loadModel lib_ok None initial_world))"
proof -
  have r: "isModelReady (snd (loadModel lib_ok None initial_world))"
    by (simp add: loadModel_def effect_defs sample_defs)
  from r loadModel_noop_when_ready [OF r] show ?thesis by simp
qed

text \<open>
  \<^bold>\<open>C5\<close> (error). When the preload fails, \<open>loadModel\<close> rejects with the value the
  library threw, unchanged; the module stays not ready; exactly one preload call and one
  console line \<^verbatim>\<open>Failed to preload model:\<close> with that value are added to the trace.
\<close>

theorem loadModel_failure_propagates:
  assumes "\<not> isModelReady w"
    and "preload lib (trace w) (preload_options_of (or_default c)) = Rejected e"
  shows "fst (loadModel lib c w) = Rejected (LibThrown e) \<and>
         \<not> isModelReady (snd (loadModel lib c w)) \<and>
         trace (snd (loadModel lib c w)) = trace w @
           [PreloadCall (preload_options_of (or_default c)) (Rejected e),
            WrapperLog Failed_to_preload_model (LibThrown e)]"
  using assms by (simp add: loadModel_preload_fail)

theorem loadModel_failure_propagates_witness:
  "\<not> isModelReady (initial_world :: (string, format) world) \<and>
   fst (loadModel lib_offline (Some gpu_config) initial_world) =
     Rejected (LibThrown ''fetch failed'') \<and>
   \<not> isModelReady (snd (loadModel lib_offline (Some gpu_config) initial_world)) \<and>
   trace (snd (loadModel lib_offline (Some gpu_config) initial_world)) =
     [PreloadCall \<lparr>po_model = Isnet, po_debug = False, po_device = Gpu\<rparr>
        (Rejected ''fetch failed''),
      WrapperLog Failed_to_preload_model (LibThrown ''fetch failed'')]"
  using loadModel_failure_propagates
    [of initial_world lib_offline "Some gpu_config" "''fetch failed''"]
  by (simp add: sample_defs preload_options_of_def)

text \<open>
  \<^bold>\<open>C2\<close> (error). Whenever \<open>processImageBackgroundRemoval\<close> rejects, the value the caller
  gets is the \<open>Error\<close> with the fixed retry message and never what the library threw. The
  library's value is the last thing written to the console, under
  \<^verbatim>\<open>Background removal failed:\<close>, and it is the value a library call of this operation
  was rejected with.
\<close>

theorem processImage_rejection_is_generic:
  assumes "fst (processImageBackgroundRemoval lib f c w) = Rejected err"
  shows "err = ErrorObj Background_removal_failed_retry \<and>
    (\<exists>e. last (trace (snd (processImageBackgroundRemoval lib f c w))) =
            WrapperLog Background_removal_failed (LibThrown e) \<and>
         (PreloadCall (preload_options_of (or_default c)) (Rejected e)
            \<in> set (trace (snd (processImageBackgroundRemoval lib f c w))) \<or>
          RemoveBackgroundCall f (or_default c) (Rejected e)
            \<in> set (trace (snd (processImageBackgroundRemoval lib f c w)))))"
  using assms by (cases rule: processImage_cases [of w lib f c]) auto

theorem processImage_rejection_is_generic_witness:
  "fst (processImageBackgroundRemoval lib_bad_image sample_file None initial_world) =
     Rejected (ErrorObj Background_removal_failed_retry) \<and>
   last (trace (snd (processImageBackgroundRemoval lib_bad_image sample_file None initial_world))) =
     WrapperLog Background_removal_failed (LibThrown ''decode error'')"
proof -
  have r: "fst (processImageBackgroundRemoval lib_bad_image sample_file None initial_world) =
     Rejected (ErrorObj Background_removal_failed_retry)"
    by (simp add: processImage_unfold loadModel_def effect_defs sample_defs)
  from processImage_rejection_is_generic [OF r] r show ?thesis
    by (simp add: processImage_unfold loadModel_def effect_defs sample_defs)
qed

text \<open>
  \<^bold>\<open>C6\<close> (safety). On a module that is not ready, \<open>processImageBackgroundRemoval\<close> first
  calls preload with the model options of its configuration, exactly once, and calls
  the inference after it exactly when that preload succeeded.
\<close>

theorem processImage_loads_once_before_inference:
  assumes "\<not> isModelReady w"
  shows "\<exists>r rest.
    trace (snd (processImageBackgroundRemoval lib f c w)) =
      trace w @ PreloadCall (preload_options_of (or_default c)) r # rest \<and>
    preload_count rest = 0 \<and>
    inference_count rest = (if resolved r then 1 else 0)"
  using assms by (cases rule: processImage_cases [of w lib f c]) auto

theorem processImage_loads_once_before_inference_witness:
  "\<not> isModelReady (initial_world :: (string, format) world) \<and>
   trace (snd (processImageBackgroundRemoval lib_ok sample_file None initial_world)) =
     [PreloadCall \<lparr>po_model = Isnet_fp16, po_debug = False, po_device = Cpu\<rparr> (Resolved ()),
      RemoveBackgroundCall sample_file defaultConfig (Resolved Image_png)]"
  using processImage_loads_once_before_inference [of initial_world lib_ok sample_file None]
  by (simp add: processImage_unfold loadModel_def effect_defs sample_defs preload_options_of_def)

text \<open>
  On a ready module \<open>processImageBackgroundRemoval\<close> goes straight
  to the inference: the first effect it adds is the call of \<open>removeBackground\<close> with the
  file and the whole configuration, and it makes no preload call and no second
  inference call.
\<close>

theorem processImage_ready_skips_preload:
  assumes "isModelReady w"
  shows "\<exists>r rest.
    trace (snd (processImageBackgroundRemoval lib f c w)) =
      trace w @ RemoveBackgroundCall f (or_default c) r # rest \<and>
    r = removeBackground lib (trace w) f (or_default c) \<and>
    preload_count rest = 0 \<and> inference_count rest = 0"
  using assms by (simp add: processImage_unfold loadModel_ready split: sum.splits)

theorem processImage_ready_skips_preload_witness:
  "isModelReady (snd (loadModel lib_ok None initial_world)) \<and>
   trace (snd (processImageBackgroundRemoval lib_ok sample_file (Some gpu_config)
      (snd (loadModel lib_ok None initial_world)))) =
     [PreloadCall \<lparr>po_model = Isnet_fp16, po_debug = False, po_device = Cpu\<rparr> (Resolved ()),
      RemoveBackgroundCall sample_file gpu_config (Resolved Image_png)]"
  using processImage_ready_skips_preload
    [of "snd (loadModel lib_ok None initial_world)" lib_ok sample_file "Some gpu_config"]
  by (simp add: processImage_unfold loadModel_def effect_defs sample_defs preload_options_of_def)

text \<open>
  When \<open>processImageBackgroundRemoval\<close> resolves, its value is the blob
  the library returned for this file and this configuration in the last call of the
  trace, and the module is ready afterwards.
\<close>

theorem processImage_returns_library_blob:
  assumes "fst (processImageBackgroundRemoval lib f c w) = Resolved blob"
  shows "last (trace (snd (processImageBackgroundRemoval lib f c w))) =
           RemoveBackgroundCall f (or_default c) (Resolved blob) \<and>
         removeBackground lib (butlast (trace (snd (processImageBackgroundRemoval lib f c w))))
           f (or_default c) = Resolved blob \<and>
         isModelReady (snd (processImageBackgroundRemoval lib f c w))"
  using assms
  by (cases rule: processImage_cases [of w lib f c]) (simp_all add: butlast_append)

theorem processImage_returns_library_blob_witness:
  "fst (processImageBackgroundRemoval lib_ok sample_file None initial_world) = Resolved Image_png \<and>
   last (trace (snd (processImageBackgroundRemoval lib_ok sample_file None initial_world))) =
     RemoveBackgroundCall sample_file defaultConfig (Resolved Image_png) \<and>
   isModelReady (snd (processImageBackgroundRemoval lib_ok sample_file None initial_world))"
proof -
  have r: "fst (processImageBackgroundRemoval lib_ok sample_file None initial_world) =
      Resolved Image_png"
    by (simp add: processImage_unfold loadModel_def effect_defs sample_defs)
  from processImage_returns_library_blob [OF r] r show ?thesis by simp
qed

text \<open>
  \<^bold>\<open>C10\<close> (error). A preload failure inside \<open>processImageBackgroundRemoval\<close> does not
  reach the caller as the library's error: the lazy load runs inside the \<open>try\<close> block, so
  the failure is logged twice (by \<open>loadModel\<close> and by the \<open>catch\<close> clause), no inference
  is attempted, and the caller gets the fixed retry message.
\<close>

theorem processImage_translates_load_failure:
  assumes "\<not> isModelReady w"
    and "preload lib (trace w) (preload_options_of (or_default c)) = Rejected e"
  shows "processImageBackgroundRemoval lib f c w =
    (Rejected (ErrorObj Background_removal_failed_retry),
     w\<lparr>trace := trace w @
        [PreloadCall (preload_options_of (or_default c)) (Rejected e),
         WrapperLog Failed_to_preload_model (LibThrown e),
         WrapperLog Background_removal_failed (LibThrown e)]\<rparr>)"
  using assms by (simp add: processImage_unfold loadModel_preload_fail)

theorem processImage_translates_load_failure_witness:
  "\<not> isModelReady (initial_world :: (string, format) world) \<and>
   processImageBackgroundRemoval lib_offline sample_file None initial_world =
    (Rejected (ErrorObj Background_removal_failed_retry),
     \<lparr>isModelLoaded = False,
      trace =
        [PreloadCall \<lparr>po_model = Isnet_fp16, po_debug = False, po_device = Cpu\<rparr>
           (Rejected ''fetch failed''),
         WrapperLog Failed_to_preload_model (LibThrown ''fetch failed''),
         WrapperLog Background_removal_failed (LibThrown ''fetch failed'')]\<rparr>)"
  using processImage_translates_load_failure
    [of initial_world lib_offline None "''fetch failed''" sample_file]
  by (simp add: sample_defs preload_options_of_def)

text \<open>
  After \<open>resetModel\<close> the next \<open>loadModel\<close> really reloads: if it
  resolves, it made one preload call, the model the library holds is the one of the
  configuration just passed, and the module is ready.
\<close>

theorem reset_forces_reload:
  assumes "resolved (fst (loadModel lib c (resetModel w)))"
  shows "preload_count (trace (snd (loadModel lib c (resetModel w)))) = preload_count (trace w) + 1 \<and>
         last_preloaded (trace (snd (loadModel lib c (resetModel w)))) =
           Some (preload_options_of (or_default c)) \<and>
         isModelReady (snd (loadModel lib c (resetModel w)))"
  using assms
  by (cases rule: loadModel_cases [of "resetModel w" _ lib c]) (simp_all add: loadModel_eqs)

theorem reset_forces_reload_witness:
  "resolved (fst (loadModel lib_ok (Some gpu_config)
      (resetModel (snd (loadModel lib_ok None initial_world))))) \<and>
   last_preloaded (trace (snd (loadModel lib_ok (Some gpu_config)
      (resetModel (snd (loadModel lib_ok None initial_world)))))) =
     Some \<lparr>po_model = Isnet, po_debug = False, po_device = Gpu\<rparr>"
proof -
  have r: "resolved (fst (loadModel lib_ok (Some gpu_config)
      (resetModel (snd (loadModel lib_ok None initial_world)))))"
    by (simp add: loadModel_def effect_defs sample_defs resetModel_def)
  from reset_forces_reload [OF r] r show ?thesis
    by (simp add: preload_options_of_def gpu_config_def)
qed

text \<open>
  Two calls of \<open>loadModel\<close> in succession with no reset in between, the
  first of which succeeds, call preload exactly once.
\<close>

theorem load_twice_preloads_once:
  assumes "\<not> isModelReady w" and "resolved (fst (loadModel lib c w))"
  shows "preload_count (trace (run lib [LoadModel c, LoadModel c'] w)) =
           preload_count (trace w) + 1"
  using assms
  by (cases rule: loadModel_cases [of w _ lib c]) (simp_all add: loadModel_eqs)

theorem load_twice_preloads_once_witness:
  "\<not> isModelReady (initial_world :: (string, format) world) \<and>
   resolved (fst (loadModel lib_ok None initial_world)) \<and>
   preload_count (trace (run lib_ok [LoadModel None, LoadModel None] initial_world)) = 1"
proof -
  have n: "\<not> isModelReady (initial_world :: (string, format) world)"
    by (simp add: initial_world_def)
  have r: "resolved (fst (loadModel lib_ok None initial_world))"
    by (simp add: loadModel_def effect_defs sample_defs)
  from load_twice_preloads_once [OF n r, of None] n r show ?thesis
    by (simp add: initial_world_def)
qed

text \<open>
  \<^bold>\<open>C9\<close> (safety). The guard of \<open>loadModel\<close> does not look at the configuration: after a
  successful load for \<open>c1\<close>, a load for \<open>c2\<close> without a reset in between resolves,
  the module reports ready, and the model the library holds is still the one of \<open>c1\<close>.
  The readiness flag is only right for callers that reset on every change of the model
  options.
\<close>

theorem loadModel_keeps_stale_model:
  assumes "\<not> isModelReady w" and "resolved (fst (loadModel lib (Some c1) w))"
  shows "isModelReady (run lib [LoadModel (Some c1), LoadModel (Some c2)] w) \<and>
         last_preloaded (trace (run lib [LoadModel (Some c1), LoadModel (Some c2)] w)) =
           Some (preload_options_of c1)"
  using assms
  by (cases rule: loadModel_cases [of w _ lib "Some c1"]) (simp_all add: loadModel_eqs)

theorem loadModel_keeps_stale_model_witness:
  "isModelReady (run lib_ok [LoadModel (Some defaultConfig), LoadModel (Some gpu_config)]
      initial_world) \<and>
   last_preloaded (trace (run lib_ok [LoadModel (Some defaultConfig), LoadModel (Some gpu_config)]
      initial_world)) = Some (preload_options_of defaultConfig) \<and>
   preload_options_of defaultConfig \<noteq> preload_options_of gpu_config"
proof -
  have n: "\<not> isModelReady (initial_world :: (string, format) world)"
    by (simp add: initial_world_def)
  have r: "resolved (fst (loadModel lib_ok (Some defaultConfig) initial_world))"
    by (simp add: loadModel_def effect_defs sample_defs)
  from loadModel_keeps_stale_model [OF n r, of gpu_config] show ?thesis
    by (simp add: preload_options_of_def gpu_config_def)
qed

text \<open>
  \<^bold>\<open>C3\<close> (invariant). In every world the module can reach from its initial state by any
  sequence of its operations, under any library: if the flag is set then some preload
  has succeeded, and every inference call in the trace comes after a preload that
  succeeded.
\<close>

theorem reachable_world_inv:
  "reachable lib w \<Longrightarrow> world_inv w"
  by (induction rule: reachable.induct) (simp_all add: world_inv_initial world_inv_exec_op)

theorem reachable_world_inv_witness:
  "reachable lib_flaky
     (run lib_flaky [ProcessImage sample_file None, ResetModel, ProcessImage sample_file None]
        initial_world) \<and>
   world_inv
     (run lib_flaky [ProcessImage sample_file None, ResetModel, ProcessImage sample_file None]
        initial_world)"
proof -
  have r: "reachable lib_flaky
     (run lib_flaky [ProcessImage sample_file None, ResetModel, ProcessImage sample_file None]
        initial_world)"
    by (rule reachable_run) (rule reachable.start)
  from reachable_world_inv [OF r] r show ?thesis by simp
qed

lemma abs_state_simps [simp]:
  "abs_state w = READY \<longleftrightarrow> isModelLoaded w"
  "abs_state w = NOT_READY \<longleftrightarrow> \<not> isModelLoaded w"
  by (simp_all add: abs_state_def)

text \<open>
  \<^bold>\<open>C7\<close> (refinement). Each operation of the module implements the two-state contract
  \<open>NOT_READY\<close>/\<open>READY\<close>: along \<open>abs_state\<close> the flag moves as \<open>spec_step\<close> says, and the
  operation makes exactly the number of preload and inference calls the contract
  allows.
\<close>

theorem exec_op_refines_contract:
  "(case spec_step (abs_state w) x (preload_succeeds lib x w) of
      (s', preloads, inferences) \<Rightarrow>
        abs_state (exec_op lib x w) = s' \<and>
        preload_count (trace (exec_op lib x w)) = preload_count (trace w) + preloads \<and>
        inference_count (trace (exec_op lib x w)) = inference_count (trace w) + inferences)"
proof (cases x)
  case (LoadModel c)
  then show ?thesis
    by (cases rule: loadModel_cases [of w _ lib c])
       (simp_all add: loadModel_eqs abs_state_def)
next
  case (ProcessImage f c)
  then show ?thesis
    by (cases rule: processImage_cases [of w lib f c])
       (simp_all add: abs_state_def)
next
  case IsModelReady
  then show ?thesis by simp
next
  case ResetModel
  then show ?thesis by (simp add: spec_reset_def abs_state_def)
qed

theorem exec_op_refines_contract_witness:
  "abs_state (exec_op lib_flaky (ProcessImage sample_file None) initial_world) = NOT_READY \<and>
   preload_count (trace (exec_op lib_flaky (ProcessImage sample_file None) initial_world)) = 1 \<and>
   inference_count (trace (exec_op lib_flaky (ProcessImage sample_file None) initial_world)) = 0"
  using exec_op_refines_contract
    [where w = initial_world and x = "ProcessImage sample_file None" and lib = lib_flaky]
  by (simp add: sample_defs abs_state_def)

lemma sample_library_simps [simp]:
  "preload lib_ok tr opts = Resolved ()"
  "removeBackground lib_ok tr f c = Resolved (format (output c))"
  "preload lib_offline tr opts = Rejected ''fetch failed''"
  "removeBackground lib_offline tr f c = Rejected ''fetch failed''"
  "preload lib_bad_image tr opts = Resolved ()"
  "removeBackground lib_bad_image tr f c = Rejected ''decode error''"
  "preload lib_flaky tr opts = (if preload_count tr = 0 then Rejected ''timeout'' else Resolved ())"
  "removeBackground lib_flaky tr f c = Resolved (format (output c))"
  by (simp_all add: lib_ok_def lib_offline_def lib_bad_image_def lib_flaky_def)

end
