(* ===== verification/ConfigPanel.thy ===== *)
theory ConfigPanel
  imports Config
begin

text \<open>
  The settings panel of \<^verbatim>\<open>src/src/components/ConfigPanel.tsx\<close>.

  The panel keeps no state of its own: it is given the configuration, whether it is open,
  and two callbacks. What it does is turn a click into a call of a callback, and show
  which value of each group is the current one.

  \<^item> \<open>config_partial\<close> and \<open>output_partial\<close> are \<open>Partial<Config>\<close> and
    \<open>Partial<Config['output']>\<close>: a field that is \<open>None\<close> is absent from the object.
    \<open>spread_config\<close> and \<open>spread_output\<close> are the object spreads
    \<open>{...config, ...updates}\<close> and \<open>{...config.output, ...updates}\<close>.
  \<^item> \<open>updateConfig\<close> and \<open>updateOutputConfig\<close> return the call of \<open>onConfigChange\<close> they
    make, as a value of \<open>panel_callback\<close>.
  \<^item> \<open>panel_event\<close> names the controls of the panel; \<open>panel_click\<close> is the \<open>onClick\<close> or
    \<open>onChange\<close> handler of each. The slider event carries the number that
    \<open>parseFloat(e.target.value)\<close> yields; \<open>slider_values\<close> are the positions a range input
    with \<open>min 0.1\<close>, \<open>max 1\<close>, \<open>step 0.1\<close> can take.
  \<^item> \<open>device_buttons\<close>, \<open>model_buttons\<close>, \<open>format_buttons\<close>, \<open>type_buttons\<close>: the buttons
    of a group in the order they are rendered, each with the value it sets and whether it
    is highlighted. \<open>quality_percent\<close> is the number in the slider's label.
  \<^item> \<open>overlay_shown\<close> and \<open>panel_enabled\<close>: the overlay is rendered only while the panel
    is open; every other control is always rendered.
  \<^item> \<open>panel_view\<close> and \<open>ConfigPanel\<close>: the component as a function of its props, with what
    it renders that depends on them; \<open>offered\<close>: the events a rendered panel can raise.
  \<^item> \<open>panel_session\<close>: the panel under a parent that stores what it is handed.

  The lemmas give the configuration each click hands over (\<open>panel_click_simps\<close>,
  \<open>panel_click_eq\<close>, \<open>panel_click_cases\<close>) and from them: a click changes one field, the
  quality stays in \<open>[0, 1]\<close>, the clicked button is the highlighted one, and every value
  of the four unions has a button (\<open>all_values_shown\<close>, \<open>ConfigPanel_offers\<close>).
\<close>

section \<open>Definitions\<close>

subsection \<open>Partial configurations and object spread\<close>

record config_partial =
  p_debug :: "bool option"
  p_device :: "device option"
  p_model :: "model option"
  p_output :: "output_config option"

record output_partial =
  p_format :: "format option"
  p_quality :: "real option"
  p_type :: "output_type option"

definition no_updates :: config_partial where
  "no_updates = \<lparr>p_debug = None, p_device = None, p_model = None, p_output = None\<rparr>"

definition no_output_updates :: output_partial where
  "no_output_updates = \<lparr>p_format = None, p_quality = None, p_type = None\<rparr>"

definition overriding :: "'a \<Rightarrow> 'a option \<Rightarrow> 'a" where
  "overriding old new = (case new of None \<Rightarrow> old | Some v \<Rightarrow> v)"

definition spread_config :: "config \<Rightarrow> config_partial \<Rightarrow> config" where
  "spread_config c updates =
     \<lparr>debug = overriding (debug c) (p_debug updates),
      device = overriding (device c) (p_device updates),
      model = overriding (model c) (p_model updates),
      output = overriding (output c) (p_output updates)\<rparr>"

definition spread_output :: "output_config \<Rightarrow> output_partial \<Rightarrow> output_config" where
  "spread_output out updates =
     \<lparr>format = overriding (format out) (p_format updates),
      quality = overriding (quality out) (p_quality updates),
      type = overriding (type out) (p_type updates)\<rparr>"

subsection \<open>Callbacks and handlers\<close>

datatype panel_callback = OnConfigChange config | OnToggle

definition updateConfig :: "config \<Rightarrow> config_partial \<Rightarrow> panel_callback" where
  "updateConfig c updates = OnConfigChange (spread_config c updates)"

definition updateOutputConfig :: "config \<Rightarrow> output_partial \<Rightarrow> panel_callback" where
  "updateOutputConfig c updates =
     OnConfigChange (spread_config c (no_updates\<lparr>p_output := Some (spread_output (output c) updates)\<rparr>))"

datatype panel_event =
    ToggleButton
  | CloseButton
  | DeviceButton device
  | ModelButton model
  | FormatButton format
  | TypeButton output_type
  | QualitySlider real
  | DebugSwitch
  | Overlay

fun panel_click :: "config \<Rightarrow> panel_event \<Rightarrow> panel_callback" where
  "panel_click c ToggleButton = OnToggle"
| "panel_click c CloseButton = OnToggle"
| "panel_click c (DeviceButton d) = updateConfig c (no_updates\<lparr>p_device := Some d\<rparr>)"
| "panel_click c (ModelButton m) = updateConfig c (no_updates\<lparr>p_model := Some m\<rparr>)"
| "panel_click c (FormatButton f) = updateOutputConfig c (no_output_updates\<lparr>p_format := Some f\<rparr>)"
| "panel_click c (TypeButton t) = updateOutputConfig c (no_output_updates\<lparr>p_type := Some t\<rparr>)"
| "panel_click c (QualitySlider q) = updateOutputConfig c (no_output_updates\<lparr>p_quality := Some q\<rparr>)"
| "panel_click c DebugSwitch = updateConfig c (no_updates\<lparr>p_debug := Some (\<not> debug c)\<rparr>)"
| "panel_click c Overlay = OnToggle"

subsection \<open>What the panel shows\<close>

definition device_buttons :: "config \<Rightarrow> (device \<times> bool) list" where
  "device_buttons c = [(Cpu, device c = Cpu), (Gpu, device c = Gpu)]"

definition model_buttons :: "config \<Rightarrow> (model \<times> bool) list" where
  "model_buttons c = map (\<lambda>m. (m, model c = m)) [Isnet, Isnet_fp16, Isnet_quint8]"

definition format_buttons :: "config \<Rightarrow> (format \<times> bool) list" where
  "format_buttons c = map (\<lambda>f. (f, format (output c) = f)) [Image_png, Image_jpeg, Image_webp]"

definition type_buttons :: "config \<Rightarrow> (output_type \<times> bool) list" where
  "type_buttons c = map (\<lambda>t. (t, type (output c) = t)) [Foreground, Background, Mask]"

definition quality_percent :: "config \<Rightarrow> int" where
  "quality_percent c = round (quality (output c) * 100)"

definition slider_values :: "real list" where
  "slider_values = map (\<lambda>k. real k / 10) [1..<11]"

definition debug_switch_on :: "config \<Rightarrow> bool" where
  "debug_switch_on c = debug c"

definition overlay_shown :: "bool \<Rightarrow> bool" where
  "overlay_shown isOpen = isOpen"

fun panel_enabled :: "bool \<Rightarrow> panel_event \<Rightarrow> bool" where
  "panel_enabled isOpen Overlay = overlay_shown isOpen"
| "panel_enabled isOpen (QualitySlider q) = (q \<in> set slider_values)"
| "panel_enabled isOpen _ = True"

text \<open>
  The component as a function of its props \<open>config\<close> and \<open>isOpen\<close>: what it renders
  that depends on them. \<open>slid_in\<close> is the choice between the classes
  \<^verbatim>\<open>translate-x-0\<close> and \<^verbatim>\<open>translate-x-full\<close>. \<open>offered\<close> reads off a rendered panel which
  events it can raise: a button that is rendered, the overlay if it is rendered, the
  positions of the range input.
\<close>

record panel_view =
  slid_in :: bool
  devices_shown :: "(device \<times> bool) list"
  models_shown :: "(model \<times> bool) list"
  formats_shown :: "(format \<times> bool) list"
  quality_shown :: int
  types_shown :: "(output_type \<times> bool) list"
  debug_shown :: bool
  overlay :: bool

definition ConfigPanel :: "config \<Rightarrow> bool \<Rightarrow> panel_view" where
  "ConfigPanel c isOpen =
     \<lparr>slid_in = isOpen,
      devices_shown = device_buttons c,
      models_shown = model_buttons c,
      formats_shown = format_buttons c,
      quality_shown = quality_percent c,
      types_shown = type_buttons c,
      debug_shown = debug_switch_on c,
      overlay = overlay_shown isOpen\<rparr>"

fun offered :: "panel_view \<Rightarrow> panel_event \<Rightarrow> bool" where
  "offered v (DeviceButton d) = (d \<in> fst ` set (devices_shown v))"
| "offered v (ModelButton m) = (m \<in> fst ` set (models_shown v))"
| "offered v (FormatButton f) = (f \<in> fst ` set (formats_shown v))"
| "offered v (TypeButton t) = (t \<in> fst ` set (types_shown v))"
| "offered v (QualitySlider q) = (q \<in> set slider_values)"
| "offered v Overlay = overlay v"
| "offered v _ = True"

text \<open>The configuration a click hands to \<open>onConfigChange\<close>, if it hands one.\<close>

fun changed_config :: "panel_callback \<Rightarrow> config option" where
  "changed_config (OnConfigChange c) = Some c"
| "changed_config OnToggle = None"

text \<open>
  The panel under a parent that stores the configuration it is handed and flips
  \<open>isOpen\<close> on \<open>onToggle\<close>, as \<open>App\<close> does: the state after a sequence of events, each
  delivered to the panel as rendered with the state the previous one left. An event
  the rendered panel cannot deliver is skipped.
\<close>

fun panel_session :: "config \<times> bool \<Rightarrow> panel_event list \<Rightarrow> config \<times> bool" where
  "panel_session st [] = st"
| "panel_session st (ev # evs) =
     (if panel_enabled (snd st) ev
      then panel_session
             (case panel_click (fst st) ev of
                OnConfigChange c' \<Rightarrow> (c', snd st)
              | OnToggle \<Rightarrow> (fst st, \<not> snd st)) evs
      else panel_session st evs)"

section \<open>Lemmas\<close>

lemma overriding_simps [simp]:
  "overriding old None = old"
  "overriding old (Some v) = v"
  by (simp_all add: overriding_def)

lemmas panel_defs =
  updateConfig_def updateOutputConfig_def spread_config_def spread_output_def
  no_updates_def no_output_updates_def

lemma spread_config_nothing [simp]: "spread_config c no_updates = c"
  by (simp add: spread_config_def no_updates_def)

lemma spread_output_nothing [simp]: "spread_output out no_output_updates = out"
  by (simp add: spread_output_def no_output_updates_def)

lemma panel_click_eq:
  "changed_config (panel_click c ev) =
     (case ev of
        DeviceButton d \<Rightarrow> Some (c\<lparr>device := d\<rparr>)
      | ModelButton m \<Rightarrow> Some (c\<lparr>model := m\<rparr>)
      | FormatButton f \<Rightarrow> Some (c\<lparr>output := (output c)\<lparr>format := f\<rparr>\<rparr>)
      | TypeButton t \<Rightarrow> Some (c\<lparr>output := (output c)\<lparr>type := t\<rparr>\<rparr>)
      | QualitySlider q \<Rightarrow> Some (c\<lparr>output := (output c)\<lparr>quality := q\<rparr>\<rparr>)
      | DebugSwitch \<Rightarrow> Some (c\<lparr>debug := \<not> debug c\<rparr>)
      | _ \<Rightarrow> None)"
  by (cases ev) (simp_all add: panel_defs)

lemma panel_click_simps:
  "panel_click c (DeviceButton d) = OnConfigChange (c\<lparr>device := d\<rparr>)"
  "panel_click c (ModelButton m) = OnConfigChange (c\<lparr>model := m\<rparr>)"
  "panel_click c (FormatButton f) = OnConfigChange (c\<lparr>output := (output c)\<lparr>format := f\<rparr>\<rparr>)"
  "panel_click c (TypeButton t) = OnConfigChange (c\<lparr>output := (output c)\<lparr>type := t\<rparr>\<rparr>)"
  "panel_click c (QualitySlider q) = OnConfigChange (c\<lparr>output := (output c)\<lparr>quality := q\<rparr>\<rparr>)"
  "panel_click c DebugSwitch = OnConfigChange (c\<lparr>debug := \<not> debug c\<rparr>)"
  by (simp_all add: panel_defs)

lemma panel_click_quality:
  assumes "changed_config (panel_click c ev) = Some c'"
  shows "quality (output c') = (case ev of QualitySlider q \<Rightarrow> q | _ \<Rightarrow> quality (output c))"
  using assms unfolding panel_click_eq by (cases ev) auto

lemma slider_values_iff: "q \<in> set slider_values \<longleftrightarrow> (\<exists>k \<in> {1..10::nat}. q = real k / 10)"
  by (auto simp: slider_values_def)

lemma slider_values_eq:
  "slider_values = [0.1, 0.2, 0.3, 0.4, 0.5, 0.6, 0.7, 0.8, 0.9, 1]"
  by (simp add: slider_values_def upt_rec)

lemma slider_values_valid: "q \<in> set slider_values \<Longrightarrow> valid_quality q"
  by (auto simp: slider_values_iff valid_quality_def)

lemma panel_click_valid:
  assumes "valid_config c" and "panel_enabled isOpen ev"
    and "changed_config (panel_click c ev) = Some c'"
  shows "valid_config c'"
  using assms(1,2) panel_click_quality [OF assms(3)]
  by (cases ev) (auto simp: valid_config_def slider_values_valid)

lemma panel_click_cases [case_names change toggle]:
  assumes "\<And>c'. panel_click c ev = OnConfigChange c' \<Longrightarrow>
             changed_config (panel_click c ev) = Some c' \<Longrightarrow> P"
    and "panel_click c ev = OnToggle \<Longrightarrow> ev \<in> {ToggleButton, CloseButton, Overlay} \<Longrightarrow> P"
  shows P
  using assms by (cases ev) (simp_all add: panel_defs)

text \<open>
  Every control of the panel keeps the configuration well formed:
  whatever sequence of clicks, slider moves and toggles the panel receives, starting
  from a configuration whose quality is in \<open>[0, 1]\<close>, the configuration its parent holds
  afterwards has its quality in \<open>[0, 1]\<close>.
\<close>

theorem panel_session_preserves_valid:
  assumes "valid_config (fst st)"
  shows "valid_config (fst (panel_session st evs))"
  using assms
proof (induction evs arbitrary: st)
  case (Cons ev evs)
  show ?case
  proof (cases rule: panel_click_cases [of "fst st" ev])
    case (change c')
    with Cons.prems panel_click_valid [of "fst st" "snd st" ev c'] show ?thesis
      by (auto intro: Cons.IH)
  next
    case toggle
    with Cons.prems show ?thesis by (auto intro: Cons.IH)
  qed
qed simp

theorem panel_session_preserves_valid_witness:
  "panel_session (defaultConfig, False)
      [ToggleButton, QualitySlider 0.3, QualitySlider 7, Overlay, Overlay,
       FormatButton Image_jpeg] =
     (defaultConfig\<lparr>output := \<lparr>format = Image_jpeg, quality = 0.3, type = Foreground\<rparr>\<rparr>,
      False) \<and>
   valid_config
     (defaultConfig\<lparr>output := \<lparr>format = Image_jpeg, quality = 0.3, type = Foreground\<rparr>\<rparr>)"
proof -
  have "panel_session (defaultConfig, False)
      [ToggleButton, QualitySlider 0.3, QualitySlider 7, Overlay, Overlay,
       FormatButton Image_jpeg] =
     (defaultConfig\<lparr>output := \<lparr>format = Image_jpeg, quality = 0.3, type = Foreground\<rparr>\<rparr>,
      False)"
    by (simp add: panel_defs slider_values_eq overlay_shown_def defaultConfig_def)
  with panel_session_preserves_valid [of "(defaultConfig, False)"
      "[ToggleButton, QualitySlider 0.3, QualitySlider 7, Overlay, Overlay,
        FormatButton Image_jpeg]"]
  show ?thesis by (simp add: valid_defaultConfig)
qed

lemma buttons_highlight:
  "map fst (filter snd (device_buttons c)) = [device c] \<and>
   map fst (filter snd (model_buttons c)) = [model c] \<and>
   map fst (filter snd (format_buttons c)) = [format (output c)] \<and>
   map fst (filter snd (type_buttons c)) = [type (output c)]"
proof (intro conjI)
  show "map fst (filter snd (device_buttons c)) = [device c]"
    by (cases "device c") (simp_all add: device_buttons_def)
  show "map fst (filter snd (model_buttons c)) = [model c]"
    by (cases "model c") (simp_all add: model_buttons_def)
  show "map fst (filter snd (format_buttons c)) = [format (output c)]"
    by (cases "format (output c)") (simp_all add: format_buttons_def)
  show "map fst (filter snd (type_buttons c)) = [type (output c)]"
    by (cases "type (output c)") (simp_all add: type_buttons_def)
qed

lemma ConfigPanel_highlights:
  "map fst (filter snd (devices_shown (ConfigPanel c isOpen))) = [device c] \<and>
   map fst (filter snd (models_shown (ConfigPanel c isOpen))) = [model c] \<and>
   map fst (filter snd (formats_shown (ConfigPanel c isOpen))) = [format (output c)] \<and>
   map fst (filter snd (types_shown (ConfigPanel c isOpen))) = [type (output c)]"
  by (simp add: ConfigPanel_def buttons_highlight)

lemma all_values_shown:
  "fst ` set (device_buttons c) = UNIV" "fst ` set (model_buttons c) = UNIV"
  "fst ` set (format_buttons c) = UNIV" "fst ` set (type_buttons c) = UNIV"
  by (auto simp: device_buttons_def model_buttons_def format_buttons_def type_buttons_def
      image_iff intro: device.exhaust model.exhaust format.exhaust output_type.exhaust)

text \<open>
  Every value of the four union types has a button, so the events the rendered panel
  can raise are those of \<open>panel_enabled\<close>: all of them but the overlay while the panel
  is closed and a slider position outside the range.
\<close>

lemma ConfigPanel_offers: "offered (ConfigPanel c isOpen) ev \<longleftrightarrow> panel_enabled isOpen ev"
  by (cases ev) (simp_all add: ConfigPanel_def all_values_shown)

text \<open>
  A click changes at most the field of its own control: whichever
  field of the configuration handed to \<open>onConfigChange\<close> differs from the old one, the
  click was on the control of that field and carried the new value. The object spreads
  \<open>{...config, ...updates}\<close> and \<open>{...config.output, ...updates}\<close> lose no field.
\<close>

theorem panel_click_updates_one_field:
  assumes "changed_config (panel_click c ev) = Some c'"
  shows "(device c' \<noteq> device c \<longrightarrow> ev = DeviceButton (device c')) \<and>
         (model c' \<noteq> model c \<longrightarrow> ev = ModelButton (model c')) \<and>
         (debug c' \<noteq> debug c \<longrightarrow> ev = DebugSwitch) \<and>
         (format (output c') \<noteq> format (output c) \<longrightarrow> ev = FormatButton (format (output c'))) \<and>
         (type (output c') \<noteq> type (output c) \<longrightarrow> ev = TypeButton (type (output c'))) \<and>
         (quality (output c') \<noteq> quality (output c) \<longrightarrow> ev = QualitySlider (quality (output c')))"
  using assms unfolding panel_click_eq by (cases ev) auto

theorem panel_click_updates_one_field_witness:
  "changed_config (panel_click defaultConfig (ModelButton Isnet_quint8)) =
     Some (defaultConfig\<lparr>model := Isnet_quint8\<rparr>) \<and>
   model (defaultConfig\<lparr>model := Isnet_quint8\<rparr>) \<noteq> model defaultConfig \<and>
   device (defaultConfig\<lparr>model := Isnet_quint8\<rparr>) = device defaultConfig \<and>
   output (defaultConfig\<lparr>model := Isnet_quint8\<rparr>) = output defaultConfig"
proof -
  have c: "changed_config (panel_click defaultConfig (ModelButton Isnet_quint8)) =
     Some (defaultConfig\<lparr>model := Isnet_quint8\<rparr>)"
    by (simp only: panel_click_eq) simp
  from panel_click_updates_one_field [OF c] c show ?thesis by simp
qed

text \<open>
  After a click that changes the configuration, the panel rendered
  with the new configuration highlights exactly the button that was clicked, shows the
  percentage of the slider position, and shows the debug switch flipped. The toggle, the
  close button and the overlay change no configuration.
\<close>

theorem click_highlights_clicked_button:
  assumes "changed_config (panel_click c ev) = Some c'"
  shows "case ev of
      DeviceButton d \<Rightarrow> map fst (filter snd (device_buttons c')) = [d]
    | ModelButton m \<Rightarrow> map fst (filter snd (model_buttons c')) = [m]
    | FormatButton f \<Rightarrow> map fst (filter snd (format_buttons c')) = [f]
    | TypeButton t \<Rightarrow> map fst (filter snd (type_buttons c')) = [t]
    | QualitySlider q \<Rightarrow> quality_percent c' = round (q * 100)
    | DebugSwitch \<Rightarrow> debug_switch_on c' = (\<not> debug_switch_on c)
    | _ \<Rightarrow> False"
  using assms unfolding panel_click_eq
  by (cases ev) (auto simp: buttons_highlight debug_switch_on_def quality_percent_def)

theorem click_highlights_clicked_button_witness:
  "changed_config (panel_click defaultConfig (DeviceButton Gpu)) =
     Some (defaultConfig\<lparr>device := Gpu\<rparr>) \<and>
   device_buttons (defaultConfig\<lparr>device := Gpu\<rparr>) = [(Cpu, False), (Gpu, True)]"
proof -
  have c: "changed_config (panel_click defaultConfig (DeviceButton Gpu)) =
     Some (defaultConfig\<lparr>device := Gpu\<rparr>)"
    by (simp only: panel_click_eq) simp
  from click_highlights_clicked_button [OF c] c show ?thesis
    by (simp add: device_buttons_def)
qed

text \<open>
  For every position of the quality slider the label shows a multiple of
  ten between 10 and 100 percent: \<open>Math.round(quality * 100)\<close> never shows a fraction for
  a value the slider can deliver.
\<close>

theorem quality_percent_on_slider:
  assumes "q \<in> set slider_values"
  shows "\<exists>k \<in> {1..10}. quality_percent (c\<lparr>output := (output c)\<lparr>quality := q\<rparr>\<rparr>) = 10 * k"
proof -
  from assms obtain k :: nat where k: "k \<in> {1..10}" "q = real k / 10"
    by (auto simp: slider_values_iff)
  from k(2) have "q * 100 = real_of_int (10 * int k)" by simp
  then have "round (q * 100) = 10 * int k" by (simp only: round_of_int)
  then have "quality_percent (c\<lparr>output := (output c)\<lparr>quality := q\<rparr>\<rparr>) = 10 * int k"
    by (simp add: quality_percent_def)
  with k(1) show ?thesis by auto
qed

theorem quality_percent_on_slider_witness:
  "(0.8::real) \<in> set slider_values \<and> quality_percent defaultConfig = 80"
proof -
  have m: "(0.8::real) \<in> set slider_values" by (simp add: slider_values_iff)
  from quality_percent_on_slider [OF m, of defaultConfig] m show ?thesis
    by (simp add: quality_percent_def)
qed

end
