(* ===== verification/RawConfig.thy ===== *)
theory RawConfig
  imports ConfigPanel
begin

text \<open>
  The configuration as the program holds it at run time: an object whose \<open>device\<close>,
  \<open>model\<close>, \<open>format\<close> and \<open>type\<close> are strings. \<open>Config\<close> of the external library
  restricts each of them to a union of string literals, and \<^verbatim>\<open>ConfigPanel.tsx\<close> writes
  three of them through a cast (\<^verbatim>\<open>model.value as any\<close>, lines 105, 133 and 159), which
  switches the type checker off for these writes. This theory has the strings.

  \<^item> \<open>raw_config\<close>, \<open>raw_output\<close>: the object with string fields; \<open>raw_defaultConfig\<close> is
    the literal of \<^verbatim>\<open>backgroundRemoval.ts\<close>.
  \<^item> \<open>device_literals\<close>, \<open>model_literals\<close>, \<open>format_literals\<close>, \<open>type_literals\<close>: the
    \<open>value\<close> fields of the button lists of the panel, in the order of the source.
  \<^item> \<open>raw_event\<close>, \<open>raw_enabled\<close>, \<open>raw_click\<close>: a button is named by the literal it
    carries and exists when that literal is in the panel's list; its handler writes the
    literal into a copy of the configuration (\<open>{ ...config, ...updates }\<close>).
  \<^item> \<open>parse_with\<close>, \<open>parse_device\<close>, \<open>parse_model\<close>, \<open>parse_format\<close>, \<open>parse_type\<close>,
    \<open>decode\<close>, \<open>well_typed\<close>: membership in the unions of \<open>Config\<close>, as far as the program
    uses them; \<open>parse_with\<close> is stated once for every enumerable type with pairwise
    different literals. \<open>encode\<close> is the way back, and \<open>typed_event\<close> the control of
    \<open>ConfigPanel\<close> a button stands for.
  \<^item> \<open>raw_reachable\<close>: the configurations the panel can produce from the default.

  The lemmas show that every configuration the panel can produce has the type \<open>Config\<close>,
  so the casts are harmless, and that the datatypes of \<open>Config\<close> and the handlers of
  \<open>ConfigPanel\<close> are an exact image of the strings and of what the buttons do with them.
\<close>

section \<open>Definitions\<close>

record raw_output =
  r_format :: string
  r_quality :: real
  r_type :: string

record raw_config =
  r_debug :: bool
  r_device :: string
  r_model :: string
  r_output :: raw_output

definition raw_defaultConfig :: raw_config where
  "raw_defaultConfig =
     \<lparr>r_debug = False,
      r_device = ''cpu'',
      r_model = ''isnet_fp16'',
      r_output = \<lparr>r_format = ''image/png'', r_quality = 0.8, r_type = ''foreground''\<rparr>\<rparr>"

subsection \<open>The buttons\<close>

definition device_literals :: "string list" where
  "device_literals = [''cpu'', ''gpu'']"

definition model_literals :: "string list" where
  "model_literals = [''isnet'', ''isnet_fp16'', ''isnet_quint8'']"

definition format_literals :: "string list" where
  "format_literals = [''image/png'', ''image/jpeg'', ''image/webp'']"

definition type_literals :: "string list" where
  "type_literals = [''foreground'', ''background'', ''mask'']"

datatype raw_event =
    RawDevice string
  | RawModel string
  | RawFormat string
  | RawType string
  | RawQuality real
  | RawDebug

fun raw_enabled :: "raw_event \<Rightarrow> bool" where
  "raw_enabled (RawDevice v) = (v \<in> set device_literals)"
| "raw_enabled (RawModel v) = (v \<in> set model_literals)"
| "raw_enabled (RawFormat v) = (v \<in> set format_literals)"
| "raw_enabled (RawType v) = (v \<in> set type_literals)"
| "raw_enabled (RawQuality q) = (q \<in> set slider_values)"
| "raw_enabled RawDebug = True"

fun raw_click :: "raw_config \<Rightarrow> raw_event \<Rightarrow> raw_config" where
  "raw_click rc (RawDevice v) = rc\<lparr>r_device := v\<rparr>"
| "raw_click rc (RawModel v) = rc\<lparr>r_model := v\<rparr>"
| "raw_click rc (RawFormat v) = rc\<lparr>r_output := (r_output rc)\<lparr>r_format := v\<rparr>\<rparr>"
| "raw_click rc (RawType v) = rc\<lparr>r_output := (r_output rc)\<lparr>r_type := v\<rparr>\<rparr>"
| "raw_click rc (RawQuality q) = rc\<lparr>r_output := (r_output rc)\<lparr>r_quality := q\<rparr>\<rparr>"
| "raw_click rc RawDebug = rc\<lparr>r_debug := \<not> r_debug rc\<rparr>"

inductive raw_reachable :: "raw_config \<Rightarrow> bool" where
  init: "raw_reachable raw_defaultConfig"
| click: "raw_reachable rc \<Longrightarrow> raw_enabled ev \<Longrightarrow> raw_reachable (raw_click rc ev)"

subsection \<open>The type \<open>Config\<close>\<close>

text \<open>
  A string has the type of a union when it is the literal of one of its members;
  \<open>parse_with\<close> looks for that member among all values of the datatype.
\<close>

definition parse_with :: "('a::enum \<Rightarrow> string) \<Rightarrow> string \<Rightarrow> 'a option" where
  "parse_with val v = find (\<lambda>x. val x = v) Enum.enum"

definition parse_device :: "string \<Rightarrow> device option" where
  "parse_device = parse_with device_value"

definition parse_model :: "string \<Rightarrow> model option" where
  "parse_model = parse_with model_value"

definition parse_format :: "string \<Rightarrow> format option" where
  "parse_format = parse_with format_value"

definition parse_type :: "string \<Rightarrow> output_type option" where
  "parse_type = parse_with type_value"

definition decode :: "raw_config \<Rightarrow> config option" where
  "decode rc =
     (case (parse_device (r_device rc), parse_model (r_model rc),
            parse_format (r_format (r_output rc)), parse_type (r_type (r_output rc))) of
        (Some d, Some m, Some f, Some t) \<Rightarrow>
          Some \<lparr>debug = r_debug rc, device = d, model = m,
                output = \<lparr>format = f, quality = r_quality (r_output rc), type = t\<rparr>\<rparr>
      | _ \<Rightarrow> None)"

definition well_typed :: "raw_config \<Rightarrow> bool" where
  "well_typed rc \<longleftrightarrow> decode rc \<noteq> None"

definition encode :: "config \<Rightarrow> raw_config" where
  "encode c =
     \<lparr>r_debug = debug c,
      r_device = device_value (device c),
      r_model = model_value (model c),
      r_output = \<lparr>r_format = format_value (format (output c)),
                  r_quality = quality (output c),
                  r_type = type_value (type (output c))\<rparr>\<rparr>"

fun typed_event :: "raw_event \<Rightarrow> panel_event option" where
  "typed_event (RawDevice v) = map_option DeviceButton (parse_device v)"
| "typed_event (RawModel v) = map_option ModelButton (parse_model v)"
| "typed_event (RawFormat v) = map_option FormatButton (parse_format v)"
| "typed_event (RawType v) = map_option TypeButton (parse_type v)"
| "typed_event (RawQuality q) = Some (QualitySlider q)"
| "typed_event RawDebug = Some DebugSwitch"

fun raw_event_of :: "panel_event \<Rightarrow> raw_event option" where
  "raw_event_of (DeviceButton d) = Some (RawDevice (device_value d))"
| "raw_event_of (ModelButton m) = Some (RawModel (model_value m))"
| "raw_event_of (FormatButton f) = Some (RawFormat (format_value f))"
| "raw_event_of (TypeButton t) = Some (RawType (type_value t))"
| "raw_event_of (QualitySlider q) = Some (RawQuality q)"
| "raw_event_of DebugSwitch = Some RawDebug"
| "raw_event_of _ = None"

section \<open>Lemmas\<close>

lemmas parse_defs = parse_device_def parse_model_def parse_format_def parse_type_def

lemmas literal_defs = device_literals_def model_literals_def format_literals_def type_literals_def

lemmas enum_defs = enum_device_def enum_model_def enum_format_def enum_output_type_def

text \<open>Parsing, for any union whose literals are pairwise different.\<close>

lemma parse_with_Some_iff:
  assumes "inj val"
  shows "parse_with val v = Some x \<longleftrightarrow> v = val x"
proof
  assume "parse_with val v = Some x"
  then show "v = val x" by (auto simp: parse_with_def find_Some_iff)
next
  assume v: "v = val x"
  let ?xs = "Enum.enum :: 'a list"
  have "x \<in> set ?xs" by (simp add: enum_UNIV)
  then obtain i where i: "i < length ?xs" "?xs ! i = x"
    by (auto simp: in_set_conv_nth)
  have "\<not> val (?xs ! j) = val x" if "j < i" for j
  proof
    assume "val (?xs ! j) = val x"
    with assms i(2) have "?xs ! j = ?xs ! i" by (simp add: inj_eq)
    with that i(1) enum_distinct [where 'a = 'a] show False
      by (simp add: nth_eq_iff_index_eq)
  qed
  with i v show "parse_with val v = Some x"
    by (auto simp: parse_with_def find_Some_iff)
qed

lemma parse_with_None_iff: "parse_with val v = None \<longleftrightarrow> v \<notin> range val"
  by (auto simp: parse_with_def find_None_iff enum_UNIV)

lemma value_inj:
  "inj device_value" "inj model_value" "inj format_value" "inj type_value"
  by (simp_all add: inj_def)

lemma parse_Some_iff:
  "parse_device v = Some d \<longleftrightarrow> v = device_value d"
  "parse_model v = Some m \<longleftrightarrow> v = model_value m"
  "parse_format v = Some f \<longleftrightarrow> v = format_value f"
  "parse_type v = Some t \<longleftrightarrow> v = type_value t"
  by (simp_all add: parse_defs parse_with_Some_iff value_inj)

lemma parse_value [simp]:
  "parse_device (device_value d) = Some d"
  "parse_model (model_value m) = Some m"
  "parse_format (format_value f) = Some f"
  "parse_type (type_value t) = Some t"
  by (simp_all add: parse_Some_iff)

text \<open>The literals of the buttons are the literals of the members, in the same order.\<close>

lemma literals_enum:
  "device_literals = map device_value Enum.enum"
  "model_literals = map model_value Enum.enum"
  "format_literals = map format_value Enum.enum"
  "type_literals = map type_value Enum.enum"
  by (simp_all add: literal_defs enum_defs)

lemma literal_iff_parse:
  "v \<in> set device_literals \<longleftrightarrow> parse_device v \<noteq> None"
  "v \<in> set model_literals \<longleftrightarrow> parse_model v \<noteq> None"
  "v \<in> set format_literals \<longleftrightarrow> parse_format v \<noteq> None"
  "v \<in> set type_literals \<longleftrightarrow> parse_type v \<noteq> None"
  by (simp_all add: literals_enum parse_defs parse_with_None_iff enum_UNIV)

lemma decode_encode [simp]: "decode (encode c) = Some c"
  by (simp add: decode_def encode_def)

lemma encode_decode:
  assumes "decode rc = Some c"
  shows "encode c = rc"
  using assms
  by (auto simp: decode_def encode_def parse_Some_iff split: option.splits)

lemma decode_Some_iff: "decode rc = Some c \<longleftrightarrow> rc = encode c"
  using encode_decode [of rc c] by auto

lemma decode_default: "decode raw_defaultConfig = Some defaultConfig"
  by (simp add: decode_Some_iff encode_def raw_defaultConfig_def defaultConfig_def)

lemma raw_enabled_typed:
  assumes "raw_enabled ev"
  shows "\<exists>pev. typed_event ev = Some pev \<and> raw_event_of pev = Some ev \<and> panel_enabled isOpen pev"
  using assms by (cases ev) (auto simp: literal_iff_parse parse_Some_iff)

lemma raw_click_encode:
  "raw_click (encode c) (RawDevice (device_value d)) = encode (c\<lparr>device := d\<rparr>)"
  "raw_click (encode c) (RawModel (model_value m)) = encode (c\<lparr>model := m\<rparr>)"
  "raw_click (encode c) (RawFormat (format_value f)) = encode (c\<lparr>output := (output c)\<lparr>format := f\<rparr>\<rparr>)"
  "raw_click (encode c) (RawType (type_value t)) = encode (c\<lparr>output := (output c)\<lparr>type := t\<rparr>\<rparr>)"
  "raw_click (encode c) (RawQuality q) = encode (c\<lparr>output := (output c)\<lparr>quality := q\<rparr>\<rparr>)"
  "raw_click (encode c) RawDebug = encode (c\<lparr>debug := \<not> debug c\<rparr>)"
  by (simp_all add: encode_def)

lemma raw_click_decode:
  assumes "decode rc = Some c" and "typed_event ev = Some pev"
  shows "decode (raw_click rc ev) = changed_config (panel_click c pev)"
  using assms
  by (cases ev) (auto simp: decode_Some_iff parse_Some_iff raw_click_encode panel_click_eq
      simp del: raw_click.simps panel_click.simps)

lemma raw_click_simulated:
  assumes "decode rc = Some c" and "raw_enabled ev"
  shows "\<exists>pev c'. typed_event ev = Some pev \<and> raw_event_of pev = Some ev \<and>
           panel_enabled isOpen pev \<and> decode (raw_click rc ev) = Some c' \<and>
           panel_click c pev = OnConfigChange c'"
proof -
  from raw_enabled_typed [OF assms(2), of isOpen] obtain pev
    where pev: "typed_event ev = Some pev" "raw_event_of pev = Some ev" "panel_enabled isOpen pev"
    by blast
  show ?thesis
  proof (cases rule: panel_click_cases [of c pev])
    case (change c')
    with raw_click_decode [OF assms(1) pev(1)] pev show ?thesis by simp
  next
    case toggle
    with pev(2) show ?thesis by auto
  qed
qed

lemma raw_reachable_decode:
  assumes "raw_reachable rc"
  shows "\<exists>c. decode rc = Some c \<and> valid_config c"
  using assms
proof (induction rule: raw_reachable.induct)
  case init
  show ?case by (simp add: decode_default valid_defaultConfig)
next
  case (click rc ev)
  then obtain c where c: "decode rc = Some c" "valid_config c" by blast
  from raw_click_simulated [OF c(1) click.hyps(2), of True] obtain pev c'
    where "panel_enabled True pev" and "decode (raw_click rc ev) = Some c'"
      and "changed_config (panel_click c pev) = Some c'"
    by force
  with panel_click_valid [OF c(2)] show ?case by blast
qed



text \<open>
  The handlers of \<open>ConfigPanel\<close> over the datatypes are what the
  buttons do with the strings: on a well-typed configuration every button the panel
  renders stands for one control of \<open>panel_event\<close>, that control is enabled, and the
  configuration the button hands to \<open>onConfigChange\<close> decodes to the one \<open>panel_click\<close>
  hands over.
\<close>

theorem panel_click_abstracts_raw_click:
  assumes "decode rc = Some c" and "raw_enabled ev"
  shows "\<exists>pev c'. typed_event ev = Some pev \<and> raw_event_of pev = Some ev \<and>
           panel_enabled isOpen pev \<and> decode (raw_click rc ev) = Some c' \<and>
           panel_click c pev = OnConfigChange c'"
  using assms by (rule raw_click_simulated)

theorem panel_click_abstracts_raw_click_witness:
  "decode raw_defaultConfig = Some defaultConfig \<and> raw_enabled (RawType ''mask'') \<and>
   (\<exists>pev c'. typed_event (RawType ''mask'') = Some pev \<and>
      decode (raw_click raw_defaultConfig (RawType ''mask'')) = Some c' \<and>
      panel_click defaultConfig pev = OnConfigChange c')"
proof -
  have e: "raw_enabled (RawType ''mask'')" by (simp add: literal_defs)
  from panel_click_abstracts_raw_click [OF decode_default e, of True] e decode_default
  show ?thesis by blast
qed



end
