(* ===== verification/Download.thy ===== *)
theory Download
  imports Config
begin

text \<open>
  The texts that \<^verbatim>\<open>src/src/App.tsx\<close> computes from the configuration and from the name
  of the uploaded file.

  \<^item> \<open>extension\<close>, \<open>outputType\<close> and \<open>download_name\<close>: the pieces and the whole of the
    template literal that \<open>downloadImage\<close> assigns to \<open>link.download\<close>.
  \<^item> \<open>replace_extension\<close>: \<open>filename.replace(/\.[^/.]+$/, '')\<close>. The regular expression
    is a dot, one or more characters that are neither a slash nor a dot, and the end of
    the input. \<open>replace\<close> with a pattern that is not global replaces the leftmost match,
    so the function scans the string from the left (\<open>replace_extension\<close>) and asks at
    each position whether the pattern matches there (\<open>match_extension_at\<close>). Because of
    the end anchor a match always runs to the end of the string: the greedy \<open>+\<close> can
    only succeed by taking every remaining character.
  \<^item> \<open>strip_last_extension\<close>: what the expression is meant to do, said without a scan:
    cut the string at its last dot, if something follows that dot and no slash does.
  \<^item> \<open>getOutputTypeLabel\<close>: the heading of the result; the texts themselves are named by
    the constructors of \<open>result_label\<close>.
  \<^item> \<open>toUpperCase\<close>, \<open>split\<close>, \<open>device_label\<close>, \<open>format_label\<close>, \<open>quality_label\<close>: the
    entries of the configuration summary under the result. Strings are lists of
    characters; every literal involved is ASCII, and \<open>toUpperCase\<close> is given for ASCII
    letters. Indexing the result of \<open>split\<close> out of range yields \<open>undefined\<close> in the
    program, whose \<open>toUpperCase\<close> call throws: \<open>format_label\<close> returns \<open>None\<close> there.
\<close>

section \<open>Definitions\<close>

subsection \<open>The download name\<close>

definition extension :: "config \<Rightarrow> string" where
  "extension c =
     (if format_value (format (output c)) = ''image/png'' then ''png''
      else if format_value (format (output c)) = ''image/jpeg'' then ''jpg''
      else ''webp'')"

definition outputType :: "config \<Rightarrow> string" where
  "outputType c =
     (if type_value (type (output c)) = ''foreground'' then ''no-bg''
      else if type_value (type (output c)) = ''background'' then ''bg-only''
      else ''mask'')"

definition ext_char :: "char \<Rightarrow> bool" where
  "ext_char ch \<longleftrightarrow> ch \<noteq> CHR ''/'' \<and> ch \<noteq> CHR ''.''"

fun match_extension_at :: "string \<Rightarrow> bool" where
  "match_extension_at [] = False"
| "match_extension_at (ch # rest) = (ch = CHR ''.'' \<and> rest \<noteq> [] \<and> list_all ext_char rest)"

fun replace_extension :: "string \<Rightarrow> string" where
  "replace_extension [] = []"
| "replace_extension (ch # rest) =
     (if match_extension_at (ch # rest) then [] else ch # replace_extension rest)"

definition download_name :: "config \<Rightarrow> string \<Rightarrow> string" where
  "download_name c filename =
     outputType c @ ''-'' @ replace_extension filename @ ''.'' @ extension c"

definition strip_last_extension :: "string \<Rightarrow> string" where
  "strip_last_extension s =
     (let after = rev (takeWhile (\<lambda>ch. ch \<noteq> CHR ''.'') (rev s))
      in if length after < length s \<and> after \<noteq> [] \<and> CHR ''/'' \<notin> set after
         then take (length s - length after - 1) s
         else s)"

subsection \<open>Labels\<close>

datatype result_label =
    Label_background_removed
  | Label_background_part
  | Label_mask_image
  | Label_processing_result

definition getOutputTypeLabel :: "config \<Rightarrow> result_label" where
  "getOutputTypeLabel c =
     (if type_value (type (output c)) = ''foreground'' then Label_background_removed
      else if type_value (type (output c)) = ''background'' then Label_background_part
      else if type_value (type (output c)) = ''mask'' then Label_mask_image
      else Label_processing_result)"

definition upper_char :: "char \<Rightarrow> char" where
  "upper_char ch =
     (let n = of_char ch :: nat in if 97 \<le> n \<and> n \<le> 122 then char_of (n - 32) else ch)"

definition toUpperCase :: "string \<Rightarrow> string" where
  "toUpperCase s = map upper_char s"

fun split :: "char \<Rightarrow> string \<Rightarrow> string list" where
  "split sep [] = [[]]"
| "split sep (ch # rest) =
     (if ch = sep then [] # split sep rest
      else (case split sep rest of part # parts \<Rightarrow> (ch # part) # parts | [] \<Rightarrow> [[ch]]))"

definition nth_opt :: "'a list \<Rightarrow> nat \<Rightarrow> 'a option" where
  "nth_opt xs i = (if i < length xs then Some (xs ! i) else None)"

definition device_label :: "config \<Rightarrow> string" where
  "device_label c = toUpperCase (device_value (device c))"

definition format_label :: "config \<Rightarrow> string option" where
  "format_label c =
     map_option toUpperCase (nth_opt (split CHR ''/'' (format_value (format (output c)))) 1)"

definition quality_label :: "config \<Rightarrow> int" where
  "quality_label c = round (quality (output c) * 100)"

section \<open>Lemmas\<close>

lemma ext_char_simps [simp]:
  "\<not> ext_char CHR ''.''"
  "\<not> ext_char CHR ''/''"
  by (simp_all add: ext_char_def)

lemma list_all_ext_char_iff:
  "list_all ext_char s \<longleftrightarrow> CHR ''.'' \<notin> set s \<and> CHR ''/'' \<notin> set s"
  by (induction s) (auto simp: ext_char_def)

lemma replace_extension_no_dot:
  "CHR ''.'' \<notin> set s \<Longrightarrow> replace_extension s = s"
  by (induction s) auto

lemma replace_extension_match:
  assumes "ext \<noteq> []" and "list_all ext_char ext"
  shows "replace_extension (base @ CHR ''.'' # ext) = base"
  using assms by (induction base) simp_all

lemma replace_extension_no_match:
  assumes "CHR ''.'' \<notin> set ext" and "ext = [] \<or> CHR ''/'' \<in> set ext"
  shows "replace_extension (base @ CHR ''.'' # ext) = base @ CHR ''.'' # ext"
  using assms
  by (induction base) (auto simp: list_all_ext_char_iff replace_extension_no_dot)

lemma after_last_dot:
  assumes "CHR ''.'' \<notin> set ext"
  shows "takeWhile (\<lambda>ch. ch \<noteq> CHR ''.'') (rev ext @ CHR ''.'' # rev base) = rev ext"
  using assms by (auto simp: takeWhile_tail)

lemma strip_last_extension_no_dot:
  assumes "CHR ''.'' \<notin> set s"
  shows "strip_last_extension s = s"
proof -
  from assms have all: "takeWhile (\<lambda>ch. ch \<noteq> CHR ''.'') (rev s) = rev s"
    by auto
  show ?thesis unfolding strip_last_extension_def all by simp
qed

lemma strip_last_extension_dot:
  assumes "CHR ''.'' \<notin> set ext"
  shows "strip_last_extension (base @ CHR ''.'' # ext) =
    (if ext \<noteq> [] \<and> CHR ''/'' \<notin> set ext then base else base @ CHR ''.'' # ext)"
  using assms by (simp add: strip_last_extension_def after_last_dot)

text \<open>
  The regular expression replacement of \<open>downloadImage\<close>, scanned from
  the left as \<open>String.prototype.replace\<close> does, removes exactly the last extension of the
  file name: the part from the last dot on, provided something follows that dot and no
  slash does. A name with no dot, a name that ends in a dot and a name whose last dot is
  followed by a slash are left as they are.
\<close>

theorem replace_extension_strips_last_extension:
  "replace_extension s = strip_last_extension s"
proof (cases "CHR ''.'' \<in> set s")
  case False
  then show ?thesis
    by (simp add: replace_extension_no_dot strip_last_extension_no_dot)
next
  case True
  then obtain base ext where s: "s = base @ CHR ''.'' # ext" and ext: "CHR ''.'' \<notin> set ext"
    by (auto dest: split_list_last)
  show ?thesis
  proof (cases "ext \<noteq> [] \<and> CHR ''/'' \<notin> set ext")
    case True
    with ext have "list_all ext_char ext" by (simp add: list_all_ext_char_iff)
    with True ext show ?thesis
      unfolding s by (simp add: replace_extension_match strip_last_extension_dot)
  next
    case False
    with ext show ?thesis
      unfolding s by (simp add: replace_extension_no_match strip_last_extension_dot)
  qed
qed

lemma extension_cases:
  "extension c = (case format (output c) of
      Image_png \<Rightarrow> ''png'' | Image_jpeg \<Rightarrow> ''jpg'' | Image_webp \<Rightarrow> ''webp'')"
  by (cases "format (output c)") (simp_all add: extension_def)

lemma outputType_cases:
  "outputType c = (case type (output c) of
      Foreground \<Rightarrow> ''no-bg'' | Background \<Rightarrow> ''bg-only'' | Mask \<Rightarrow> ''mask'')"
  by (cases "type (output c)") (simp_all add: outputType_def)

lemma extension_well_formed: "extension c \<noteq> [] \<and> list_all ext_char (extension c)"
  by (cases "format (output c)") (simp_all add: extension_cases ext_char_def)

text \<open>
  The download name always ends in one well-formed extension, the one
  of the configured format: the same replacement applied to the download name strips
  exactly that extension again and returns the output type prefix, the dash and the
  stripped upload name.
\<close>

theorem download_name_has_one_extension:
  "replace_extension (download_name c filename) =
     outputType c @ ''-'' @ replace_extension filename"
proof -
  have "download_name c filename =
      (outputType c @ ''-'' @ replace_extension filename) @ CHR ''.'' # extension c"
    by (simp add: download_name_def)
  then show ?thesis
    using extension_well_formed [of c]
      replace_extension_match [of "extension c" "outputType c @ ''-'' @ replace_extension filename"]
    by simp
qed

text \<open>
  Two configurations get the same file extension exactly when they
  have the same output format: \<open>png\<close>, \<open>jpg\<close> and \<open>webp\<close> tell the three formats apart.
\<close>

theorem extension_determines_format:
  "extension c = extension c' \<longleftrightarrow> format (output c) = format (output c')"
  by (cases "format (output c)"; cases "format (output c')") (simp_all add: extension_cases)

text \<open>
  \<open>getOutputTypeLabel\<close> gives each output type its own heading, and the
  \<open>default\<close> branch of its \<open>switch\<close> is never taken.
\<close>

theorem getOutputTypeLabel_never_default:
  "getOutputTypeLabel c =
     (case type (output c) of
        Foreground \<Rightarrow> Label_background_removed
      | Background \<Rightarrow> Label_background_part
      | Mask \<Rightarrow> Label_mask_image) \<and>
   getOutputTypeLabel c \<noteq> Label_processing_result"
  by (cases "type (output c)") (simp_all add: getOutputTypeLabel_def)

text \<open>
  The format entry of the configuration summary never throws: every format
  literal has a part after its slash, so \<open>split('/')[1]\<close> is defined, and the entry reads
  \<open>PNG\<close>, \<open>JPEG\<close> or \<open>WEBP\<close>.
\<close>

theorem format_label_defined:
  "format_label c =
     Some (case format (output c) of
        Image_png \<Rightarrow> ''PNG'' | Image_jpeg \<Rightarrow> ''JPEG'' | Image_webp \<Rightarrow> ''WEBP'')"
  by (cases "format (output c)")
     (simp_all add: format_label_def nth_opt_def toUpperCase_def upper_char_def char_of_eq_iff)

text \<open>
  Download names on concrete uploads: only the last extension is
  replaced; a name without extension gets one; an upload named \<open>.png\<close> has its whole name
  taken for an extension and downloads as \<open>no-bg-.png\<close>; a trailing dot is kept, giving
  two dots.
\<close>

theorem download_name_examples:
  "download_name defaultConfig ''cat.photo.png'' = ''no-bg-cat.photo.png'' \<and>
   download_name defaultConfig ''holiday'' = ''no-bg-holiday.png'' \<and>
   download_name defaultConfig ''.png'' = ''no-bg-.png'' \<and>
   download_name defaultConfig ''scan.'' = ''no-bg-scan..png'' \<and>
   download_name (defaultConfig\<lparr>output := (output defaultConfig)\<lparr>format := Image_jpeg, type := Mask\<rparr>\<rparr>)
     ''archive.tar.gz'' = ''mask-archive.tar.jpg''"
  by (simp add: download_name_def outputType_cases extension_cases ext_char_def)

end
