(* ===== verification/Regex.thy ===== *)
theory Regex
  imports Download
begin

text \<open>
  The regular expression of \<open>downloadImage\<close> under the semantics of the language, next
  to the scan of \<open>Download\<close> that was written for this one expression.

  \<^item> \<open>rx\<close> is the syntax of the expressions needed: a character, a negated class
    \<open>[^\<dots>]\<close>, sequence, alternative, the greedy \<open>*\<close> and \<open>+\<close>, and the anchor \<open>$\<close> (without
    the multiline flag: the end of the input). \<open>extension_rx\<close> is the literal
    \<open>/\.[^/.]+$/\<close> of \<^verbatim>\<open>src/src/App.tsx\<close>.
  \<^item> \<open>rx_match r w rest\<close> says what an expression matches: \<open>r\<close> matches the word \<open>w\<close> when
    \<open>rest\<close> is what follows \<open>w\<close> in the input.
  \<^item> \<open>ends r s\<close> is the backtracking matcher: what is left of \<open>s\<close> after each way in
    which \<open>r\<close> matches a prefix of it, in the order in which a backtracking engine tries
    them (longest first under \<open>*\<close> and \<open>+\<close>). An iteration of \<open>*\<close> or \<open>+\<close> after which
    nothing has been consumed is not repeated; this is the check that makes the matcher
    of the language terminate, and it is what the termination proof of \<open>ends\<close> uses.
  \<^item> \<open>exec_from r s i\<close> is the search loop of \<open>RegExp.prototype.exec\<close> for an expression
    without the global and sticky flags: try the matcher at index \<open>i\<close>, and at the next
    index if it fails, until the index is beyond the end. It is a loop, so its result is
    an \<open>option\<close>: \<open>None\<close> is "does not return", \<open>Some None\<close> is the \<open>null\<close> of "no
    match", \<open>Some (Some (i, e))\<close> a match from index \<open>i\<close> up to index \<open>e\<close>.
  \<^item> \<open>replace_first r s\<close> is \<open>s.replace(r, '')\<close>.
\<close>

section \<open>Definitions\<close>

datatype rx =
    Lit char
  | NoneOf "char list"
  | Cat rx rx
  | Alt rx rx
  | Star rx
  | Plus rx
  | End

definition extension_rx :: rx where
  "extension_rx = Cat (Lit CHR ''.'') (Cat (Plus (NoneOf ''/.'')) End)"

inductive rx_match :: "rx \<Rightarrow> string \<Rightarrow> string \<Rightarrow> bool" where
  lit: "rx_match (Lit c) [c] rest"
| none_of: "c \<notin> set cs \<Longrightarrow> rx_match (NoneOf cs) [c] rest"
| cat: "rx_match r1 w1 (w2 @ rest) \<Longrightarrow> rx_match r2 w2 rest \<Longrightarrow> rx_match (Cat r1 r2) (w1 @ w2) rest"
| alt1: "rx_match r1 w rest \<Longrightarrow> rx_match (Alt r1 r2) w rest"
| alt2: "rx_match r2 w rest \<Longrightarrow> rx_match (Alt r1 r2) w rest"
| star_stop: "rx_match (Star r) [] rest"
| star_step: "rx_match r w1 (w2 @ rest) \<Longrightarrow> rx_match (Star r) w2 rest \<Longrightarrow>
     rx_match (Star r) (w1 @ w2) rest"
| plus: "rx_match r w1 (w2 @ rest) \<Longrightarrow> rx_match (Star r) w2 rest \<Longrightarrow>
     rx_match (Plus r) (w1 @ w2) rest"
| end_of_input: "rx_match End [] []"

text \<open>
  The weight of an expression, for the termination of the matcher: \<open>r+\<close> is \<open>r\<close> followed
  by \<open>r*\<close>, so it weighs more than \<open>r*\<close>.
\<close>

primrec weight :: "rx \<Rightarrow> nat" where
  "weight (Lit c) = 0"
| "weight (NoneOf cs) = 0"
| "weight (Cat r1 r2) = Suc (weight r1 + weight r2)"
| "weight (Alt r1 r2) = Suc (weight r1 + weight r2)"
| "weight (Star r) = Suc (weight r)"
| "weight (Plus r) = Suc (Suc (weight r))"
| "weight End = 0"

function ends :: "rx \<Rightarrow> string \<Rightarrow> string list" where
  "ends (Lit c) s = (case s of x # xs \<Rightarrow> if x = c then [xs] else [] | [] \<Rightarrow> [])"
| "ends (NoneOf cs) s = (case s of x # xs \<Rightarrow> if x \<notin> set cs then [xs] else [] | [] \<Rightarrow> [])"
| "ends (Cat r1 r2) s = concat (map (ends r2) (ends r1 s))"
| "ends (Alt r1 r2) s = ends r1 s @ ends r2 s"
| "ends (Star r) s =
     concat (map (\<lambda>s'. if length s' < length s then ends (Star r) s' else []) (ends r s)) @ [s]"
| "ends (Plus r) s = concat (map (ends (Star r)) (ends r s))"
| "ends End s = (if s = [] then [s] else [])"
  by pat_completeness auto
termination
  by (relation "measures [\<lambda>(r, s). weight r, \<lambda>(r, s). length s]") auto

partial_function (option) exec_from :: "rx \<Rightarrow> string \<Rightarrow> nat \<Rightarrow> (nat \<times> nat) option option" where
  "exec_from r s i =
     (if length s < i then Some None
      else if ends r (drop i s) = [] then exec_from r s (Suc i)
      else Some (Some (i, length s - length (hd (ends r (drop i s))))))"

definition apply_match :: "string \<Rightarrow> (nat \<times> nat) option \<Rightarrow> string" where
  "apply_match s m = (case m of None \<Rightarrow> s | Some (i, e) \<Rightarrow> take i s @ drop e s)"

definition replace_first :: "rx \<Rightarrow> string \<Rightarrow> string option" where
  "replace_first r s = map_option (apply_match s) (exec_from r s 0)"

section \<open>Lemmas\<close>

subsection \<open>Laws of the declarative meaning\<close>

inductive_simps rx_match_Lit: "rx_match (Lit c) w rest"
  and rx_match_NoneOf: "rx_match (NoneOf cs) w rest"
  and rx_match_Cat: "rx_match (Cat r1 r2) w rest"
  and rx_match_Alt: "rx_match (Alt r1 r2) w rest"
  and rx_match_Plus: "rx_match (Plus r) w rest"
  and rx_match_End: "rx_match End w rest"

inductive_cases rx_match_StarE: "rx_match (Star r) w rest"

lemmas rx_match_simps =
  rx_match_Lit rx_match_NoneOf rx_match_Cat rx_match_Alt rx_match_Plus rx_match_End

text \<open>\<open>r+\<close> is \<open>r\<close> followed by \<open>r*\<close>, and \<open>r*\<close> is nothing or \<open>r+\<close>.\<close>

lemma rx_match_Plus_Cat_Star: "rx_match (Plus r) w rest \<longleftrightarrow> rx_match (Cat r (Star r)) w rest"
  by (simp add: rx_match_Plus rx_match_Cat)

lemma rx_match_Star_unfold:
  "rx_match (Star r) w rest \<longleftrightarrow> w = [] \<or> rx_match (Plus r) w rest"
  by (auto simp: rx_match_Plus elim: rx_match_StarE intro: rx_match.intros)

text \<open>A pattern that ends in \<open>$\<close> matches only in front of the end of the input.\<close>

lemma rx_match_anchored:
  assumes "rx_match (Cat r End) w rest"
  shows "rest = [] \<and> rx_match r w []"
  using assms by (auto simp: rx_match_Cat rx_match_End)

subsection \<open>The matcher finds exactly the matches\<close>

declare ends.simps(5) [simp del]

lemma ends_sound:
  "s' \<in> set (ends r s) \<Longrightarrow> \<exists>w. s = w @ s' \<and> rx_match r w s'"
proof (induction r s arbitrary: s' rule: ends.induct)
  case (1 c s)
  then show ?case by (auto split: list.splits if_splits intro: rx_match.lit)
next
  case (2 cs s)
  then show ?case by (auto split: list.splits if_splits intro: rx_match.none_of)
next
  case (3 r1 r2 s)
  from "3.prems" obtain m where m: "m \<in> set (ends r1 s)" and s': "s' \<in> set (ends r2 m)"
    by auto
  from "3.IH"(2) [OF m s'] obtain w2 where w2: "m = w2 @ s'" "rx_match r2 w2 s'" by blast
  from "3.IH"(1) [OF m] obtain w1 where w1: "s = w1 @ m" "rx_match r1 w1 m" by blast
  from w1 w2 have "s = (w1 @ w2) @ s'" and "rx_match (Cat r1 r2) (w1 @ w2) s'"
    by (auto intro: rx_match.cat)
  then show ?case by blast
next
  case (4 r1 r2 s)
  from "4.prems" consider "s' \<in> set (ends r1 s)" | "s' \<in> set (ends r2 s)" by auto
  then show ?case
  proof cases
    case 1
    from "4.IH"(1) [OF 1] show ?thesis by (blast intro: rx_match.alt1)
  next
    case 2
    from "4.IH"(2) [OF 2] show ?thesis by (blast intro: rx_match.alt2)
  qed
next
  case (5 r s)
  from "5.prems" consider "s' = s"
    | m where "m \<in> set (ends r s)" "length m < length s" "s' \<in> set (ends (Star r) m)"
    by (subst (asm) ends.simps(5)) (auto split: if_splits)
  then show ?case
  proof cases
    case 1
    then show ?thesis by (auto intro: rx_match.star_stop)
  next
    case (2 m)
    from "5.IH"(2) [OF 2(1,2,3)] obtain w2 where w2: "m = w2 @ s'" "rx_match (Star r) w2 s'"
      by blast
    from "5.IH"(1) [OF 2(1)] obtain w1 where w1: "s = w1 @ m" "rx_match r w1 m" by blast
    from w1 w2 have "s = (w1 @ w2) @ s'" and "rx_match (Star r) (w1 @ w2) s'"
      by (auto intro: rx_match.star_step)
    then show ?thesis by blast
  qed
next
  case (6 r s)
  from "6.prems" obtain m where m: "m \<in> set (ends r s)" and s': "s' \<in> set (ends (Star r) m)"
    by auto
  from "6.IH"(2) [OF m s'] obtain w2 where w2: "m = w2 @ s'" "rx_match (Star r) w2 s'" by blast
  from "6.IH"(1) [OF m] obtain w1 where w1: "s = w1 @ m" "rx_match r w1 m" by blast
  from w1 w2 have "s = (w1 @ w2) @ s'" and "rx_match (Plus r) (w1 @ w2) s'"
    by (auto intro: rx_match.plus)
  then show ?case by blast
next
  case (7 s)
  then show ?case by (auto split: if_splits intro: rx_match.end_of_input)
qed

lemma ends_suffix: "s' \<in> set (ends r s) \<Longrightarrow> suffix s' s"
  by (auto dest: ends_sound intro: suffixI)

lemma ends_Star_self: "s \<in> set (ends (Star r) s)"
  by (subst ends.simps(5)) simp

lemma ends_Star_step:
  assumes "m \<in> set (ends r s)" and "rest \<in> set (ends (Star r) m)"
  shows "rest \<in> set (ends (Star r) s)"
proof (cases "length m < length s")
  case True
  with assms show ?thesis by (subst ends.simps(5)) auto
next
  case False
  with ends_suffix [OF assms(1)] have "m = s"
    by (auto simp: suffix_def)
  with assms(2) show ?thesis by simp
qed

lemma ends_complete:
  "rx_match r w rest \<Longrightarrow> rest \<in> set (ends r (w @ rest))"
proof (induction rule: rx_match.induct)
  case (cat r1 w1 w2 rest r2)
  then show ?case by auto
next
  case (star_step r w1 w2 rest)
  then show ?case by (auto intro: ends_Star_step)
next
  case (plus r w1 w2 rest)
  then show ?case by auto
qed (auto simp: ends_Star_self)

subsection \<open>The search loop returns\<close>

lemma exec_from_beyond: "length s < i \<Longrightarrow> exec_from r s i = Some None"
  by (subst exec_from.simps) simp

lemma exec_from_returns_aux:
  "Suc (length s) - i = n \<Longrightarrow> \<exists>m. exec_from r s i = Some m"
proof (induction n arbitrary: i)
  case 0
  then show ?case by (simp add: exec_from_beyond)
next
  case (Suc n)
  then have "Suc (length s) - Suc i = n" by simp
  from Suc.IH [OF this] show ?case
    by (subst exec_from.simps) auto
qed

subsection \<open>The expression of \<open>downloadImage\<close>\<close>

lemma concat_ends_End: "concat (map (ends End) xs) = filter (\<lambda>a. a = []) xs"
  by (induction xs) simp_all

lemma ends_Star_class:
  "ends (Star (NoneOf cs)) s =
     (case s of [] \<Rightarrow> [] | x # xs \<Rightarrow> if x \<notin> set cs then ends (Star (NoneOf cs)) xs else []) @ [s]"
  by (subst ends.simps(5)) (simp split: list.splits)

lemma ends_Star_class_at_end:
  "filter (\<lambda>a. a = []) (ends (Star (NoneOf cs)) s) =
     (if list_all (\<lambda>c. c \<notin> set cs) s then [[]] else [])"
proof (induction s)
  case Nil
  show ?case by (subst ends_Star_class) simp
next
  case (Cons x xs)
  then show ?case by (subst ends_Star_class) simp
qed

lemma ends_extension_rx:
  "ends extension_rx s = (if match_extension_at s then [[]] else [])"
proof (cases s)
  case Nil
  then show ?thesis by (simp add: extension_rx_def)
next
  case s: (Cons ch rest)
  show ?thesis
  proof (cases rest)
    case Nil
    with s show ?thesis by (simp add: extension_rx_def)
  next
    case (Cons x xs)
    have e: "c \<notin> set ''/.'' \<longleftrightarrow> ext_char c" for c by (auto simp: ext_char_def)
    from s Cons ends_Star_class_at_end [of "''/.''" xs] show ?thesis
      unfolding e by (simp add: extension_rx_def concat_ends_End e del: set_simps)
  qed
qed

lemma exec_from_extension_rx:
  "map_option (apply_match (pre @ s)) (exec_from extension_rx (pre @ s) (length pre)) =
     Some (pre @ replace_extension s)"
proof (induction s arbitrary: pre)
  case Nil
  show ?case
    by (subst exec_from.simps)
       (simp add: ends_extension_rx exec_from_beyond apply_match_def)
next
  case (Cons ch rest)
  from Cons.IH [of "pre @ [ch]"] show ?case
    by (subst exec_from.simps) (simp add: ends_extension_rx apply_match_def)
qed

text \<open>
  \<^bold>\<open>C31\<close> (equivalence). The scan \<open>replace_extension\<close> of \<open>Download\<close> is the regular expression
  of the source: for every file name, \<open>filename.replace(/\.[^/.]+$/, '')\<close> under the
  backtracking semantics of the language (search from index 0, first match of the
  leftmost start, replaced by the empty string) returns, and returns what the scan
  computes.
\<close>

theorem replace_first_is_scan:
  "replace_first extension_rx filename = Some (replace_extension filename)"
  using exec_from_extension_rx [of "[]" filename] by (simp add: replace_first_def)

theorem replace_first_is_scan_witness:
  "replace_first extension_rx ''archive.tar.gz'' = Some ''archive.tar'' \<and>
   replace_first extension_rx ''.png'' = Some [] \<and>
   replace_first extension_rx ''a.b/c'' = Some ''a.b/c''"
  using replace_first_is_scan [of "''archive.tar.gz''"] replace_first_is_scan [of "''.png''"]
    replace_first_is_scan [of "''a.b/c''"]
  by (simp add: ext_char_def)



text \<open>
  The backtracking matcher finds exactly the matches: \<open>s'\<close> is left
  over by some way of matching \<open>r\<close> at the start of \<open>s\<close> if and only if \<open>s\<close> is a word
  that \<open>r\<close> matches followed by \<open>s'\<close>. Not repeating iterations that consume nothing loses
  no match.
\<close>

lemma ends_iff_rx_match:
  "s' \<in> set (ends r s) \<longleftrightarrow> (\<exists>w. s = w @ s' \<and> rx_match r w s')"
  by (auto dest: ends_sound ends_complete)

lemma ends_iff_rx_match_example:
  "ends extension_rx ''.png'' = [[]] \<and> rx_match extension_rx ''.png'' []"
  using ends_iff_rx_match [of "[]" extension_rx "''.png''"]
  by (simp add: ends_extension_rx ext_char_def)

text \<open>
  What the pattern of \<open>downloadImage\<close> matches, by the declarative
  meaning of patterns: a word in front of the remaining input \<open>rest\<close> matches
  \<open>/\.[^/.]+$/\<close> exactly when nothing remains and the word is a dot followed by one or more
  characters that are neither a slash nor a dot. This is the test \<open>match_extension_at\<close>
  of the scan in \<open>Download\<close>; the proof goes through the backtracking matcher, which is
  sound and complete for the declarative meaning.
\<close>

theorem extension_rx_matches:
  "rx_match extension_rx w rest \<longleftrightarrow> rest = [] \<and> match_extension_at w"
proof
  assume "rx_match extension_rx w rest"
  from ends_complete [OF this] show "rest = [] \<and> match_extension_at w"
    by (auto simp: ends_extension_rx split: if_splits)
next
  assume "rest = [] \<and> match_extension_at w"
  then have "[] \<in> set (ends extension_rx w)" and "rest = []"
    by (simp_all add: ends_extension_rx)
  with ends_sound [of "[]" extension_rx w] show "rx_match extension_rx w rest" by auto
qed

theorem extension_rx_matches_witness:
  "rx_match extension_rx ''.png'' [] \<and> \<not> rx_match extension_rx ''.tar.gz'' [] \<and>
   \<not> rx_match extension_rx ''.'' []"
  using extension_rx_matches [of "''.png''" "[]"] extension_rx_matches [of "''.tar.gz''" "[]"]
    extension_rx_matches [of "''.''" "[]"]
  by (simp add: ext_char_def)

end
