(* ===== verification/App.thy ===== *)
theory App
  imports BackgroundRemoval ConfigPanel Download
begin

text \<open>
  The application component of \<^verbatim>\<open>src/src/App.tsx\<close>: its state, its handlers and the
  conditions under which it renders its sections.

  \<^item> \<open>app_state\<close> holds the values of the \<open>useState\<close> hooks; \<open>set\<dots>\<close> are their setters.
    \<open>system\<close> puts the component state (\<open>ui\<close>) beside the state of the wrapper module
    (\<open>wrapper\<close>) and the part of the browser the handlers act on (\<open>dom\<close>: the live object
    URLs with what they point to, the downloads started, and the value of the file input
    while that input is mounted).
  \<^item> A handler is a function from \<open>system\<close> to \<open>system\<close>. It reads the state it was
    rendered with (\<open>config (ui s)\<close> is the \<open>config\<close> of its closure) and runs to its
    end: an \<open>await\<close> is the call it waits for. This is the behaviour when no other
    handler starts before a pending call settles.
  \<^item> User-facing texts are named by the constructors of \<open>app_message\<close>; \<open>Error_message\<close>
    is the \<open>message\<close> of a caught \<open>Error\<close>.
  \<^item> \<open>app_event\<close>, \<open>enabled\<close>, \<open>handle\<close>: what the user and React can do to the component.
    An event is enabled when the control that raises it is rendered. \<open>Mount\<close> is the
    effect that runs once after the first render. \<open>app_reachable\<close> are the states after
    the mount and any sequence of enabled events.
  \<^item> \<open>app_inv\<close> is the invariant of those states, in three parts: \<open>model_inv\<close> (the
    component, the module and the library agree on the model), \<open>urls_inv\<close> (which object
    URLs are live) and \<open>input_inv\<close> (the file input exists with the upload area).
  \<^item> \<open>sample_done\<close> and \<open>sample_failed\<close> are two short sessions the theorems are applied to.

  The lemmas: one equation per branch of \<open>handleFileSelect\<close>, \<open>handleConfigChange\<close> and
  \<open>initModel\<close>, with case rules; preservation of each part of the invariant by each
  handler; the invariant of all reachable states; and the properties that follow.
\<close>

section \<open>Definitions\<close>

subsection \<open>State\<close>

type_synonym url = nat

record processed_image =
  original :: url
  processed :: url
  filename :: string

datatype app_message =
    Model_load_failed_refresh
  | Model_reload_failed_check_config
  | Invalid_image_file
  | File_too_large
  | Model_not_ready_yet
  | Processing_error_retry
  | Error_message removal_message

record app_state =
  isProcessing :: bool
  processedImage :: "processed_image option"
  error :: "app_message option"
  dragOver :: bool
  modelLoaded :: bool
  loadingProgress :: nat
  config :: config
  configPanelOpen :: bool

datatype 'b url_object = File_object dom_file | Blob_object 'b

record 'b browser =
  object_urls :: "(url \<times> 'b url_object) list"
  next_url :: url
  downloads :: "(url \<times> string) list"
  fileInput :: "string option"

record ('e, 'b) system =
  ui :: app_state
  wrapper :: "('e, 'b) world"
  dom :: "'b browser"

definition initial_app_state :: app_state where
  "initial_app_state =
     \<lparr>isProcessing = False, processedImage = None, error = None, dragOver = False,
      modelLoaded = False, loadingProgress = 0, config = defaultConfig,
      configPanelOpen = False\<rparr>"

definition initial_system :: "('e, 'b) system" where
  "initial_system =
     \<lparr>ui = initial_app_state,
      wrapper = initial_world,
      dom = \<lparr>object_urls = [], next_url = 0, downloads = [], fileInput = None\<rparr>\<rparr>"

subsection \<open>Setters and browser calls\<close>

definition setIsProcessing :: "bool \<Rightarrow> ('e, 'b) system \<Rightarrow> ('e, 'b) system" where
  "setIsProcessing v s = s\<lparr>ui := (ui s)\<lparr>isProcessing := v\<rparr>\<rparr>"

definition setProcessedImage ::
  "processed_image option \<Rightarrow> ('e, 'b) system \<Rightarrow> ('e, 'b) system" where
  "setProcessedImage v s = s\<lparr>ui := (ui s)\<lparr>processedImage := v\<rparr>\<rparr>"

definition setError :: "app_message option \<Rightarrow> ('e, 'b) system \<Rightarrow> ('e, 'b) system" where
  "setError v s = s\<lparr>ui := (ui s)\<lparr>error := v\<rparr>\<rparr>"

definition setDragOver :: "bool \<Rightarrow> ('e, 'b) system \<Rightarrow> ('e, 'b) system" where
  "setDragOver v s = s\<lparr>ui := (ui s)\<lparr>dragOver := v\<rparr>\<rparr>"

definition setModelLoaded :: "bool \<Rightarrow> ('e, 'b) system \<Rightarrow> ('e, 'b) system" where
  "setModelLoaded v s = s\<lparr>ui := (ui s)\<lparr>modelLoaded := v\<rparr>\<rparr>"

definition setLoadingProgress :: "nat \<Rightarrow> ('e, 'b) system \<Rightarrow> ('e, 'b) system" where
  "setLoadingProgress v s = s\<lparr>ui := (ui s)\<lparr>loadingProgress := v\<rparr>\<rparr>"

definition setConfig :: "config \<Rightarrow> ('e, 'b) system \<Rightarrow> ('e, 'b) system" where
  "setConfig v s = s\<lparr>ui := (ui s)\<lparr>config := v\<rparr>\<rparr>"

definition setConfigPanelOpen :: "bool \<Rightarrow> ('e, 'b) system \<Rightarrow> ('e, 'b) system" where
  "setConfigPanelOpen v s = s\<lparr>ui := (ui s)\<lparr>configPanelOpen := v\<rparr>\<rparr>"

definition app_console_error ::
  "app_log \<Rightarrow> 'e caught \<Rightarrow> ('e, 'b) system \<Rightarrow> ('e, 'b) system" where
  "app_console_error label err s =
     s\<lparr>wrapper := (wrapper s)\<lparr>trace := trace (wrapper s) @ [AppLog label err]\<rparr>\<rparr>"

definition createObjectURL ::
  "'b url_object \<Rightarrow> ('e, 'b) system \<Rightarrow> url \<times> ('e, 'b) system" where
  "createObjectURL obj s =
     (next_url (dom s),
      s\<lparr>dom := (dom s)\<lparr>object_urls := object_urls (dom s) @ [(next_url (dom s), obj)],
                       next_url := Suc (next_url (dom s))\<rparr>\<rparr>)"

definition revokeObjectURL :: "url \<Rightarrow> ('e, 'b) system \<Rightarrow> ('e, 'b) system" where
  "revokeObjectURL u s =
     s\<lparr>dom := (dom s)\<lparr>object_urls := filter (\<lambda>entry. fst entry \<noteq> u) (object_urls (dom s))\<rparr>\<rparr>"

subsection \<open>Handlers\<close>

definition initModel :: "('e, 'b) library \<Rightarrow> ('e, 'b) system \<Rightarrow> ('e, 'b) system" where
  "initModel lib s =
     (let s1 = setLoadingProgress 20 s;
          (r, w) = loadModel lib (Some (config (ui s))) (wrapper s1);
          s2 = s1\<lparr>wrapper := w\<rparr>
      in case r of
           Inr _ \<Rightarrow> setModelLoaded True (setLoadingProgress 100 s2)
         | Inl err \<Rightarrow>
             setModelLoaded False
               (setError (Some Model_load_failed_refresh)
                  (app_console_error Model_load_failed err s2)))"

definition model_options_changed :: "config \<Rightarrow> config \<Rightarrow> bool" where
  "model_options_changed newConfig oldConfig \<longleftrightarrow>
     model newConfig \<noteq> model oldConfig \<or>
     device newConfig \<noteq> device oldConfig \<or>
     debug newConfig \<noteq> debug oldConfig"

definition handleConfigChange ::
  "('e, 'b) library \<Rightarrow> config \<Rightarrow> ('e, 'b) system \<Rightarrow> ('e, 'b) system" where
  "handleConfigChange lib newConfig s =
     (let s1 = setConfig newConfig s in
      if model_options_changed newConfig (config (ui s)) then
        (let s2 = setLoadingProgress 0 (setModelLoaded False s1);
             s3 = s2\<lparr>wrapper := resetModel (wrapper s2)\<rparr>;
             s4 = setLoadingProgress 20 s3;
             (r, w) = loadModel lib (Some newConfig) (wrapper s4);
             s5 = s4\<lparr>wrapper := w\<rparr>
         in case r of
              Inr _ \<Rightarrow> setError None (setModelLoaded True (setLoadingProgress 100 s5))
            | Inl err \<Rightarrow>
                setModelLoaded False
                  (setError (Some Model_reload_failed_check_config)
                     (app_console_error Model_reload_failed err s5)))
      else s1)"

definition max_file_size :: nat where
  "max_file_size = 10 * 1024 * 1024"

definition accepted :: "dom_file \<Rightarrow> bool" where
  "accepted file \<longleftrightarrow> prefix ''image/'' (file_type file) \<and> \<not> file_size file > max_file_size"

definition message_of :: "'e caught \<Rightarrow> app_message" where
  "message_of err =
     (case err of ErrorObj m \<Rightarrow> Error_message m | LibThrown _ \<Rightarrow> Processing_error_retry)"

definition handleFileSelect ::
  "('e, 'b) library \<Rightarrow> dom_file \<Rightarrow> ('e, 'b) system \<Rightarrow> ('e, 'b) system" where
  "handleFileSelect lib file s =
     (if \<not> prefix ''image/'' (file_type file) then setError (Some Invalid_image_file) s
      else if file_size file > max_file_size then setError (Some File_too_large) s
      else if \<not> isModelReady (wrapper s) then setError (Some Model_not_ready_yet) s
      else
        (let s1 = setIsProcessing True (setError None s);
             (originalUrl, s2) = createObjectURL (File_object file) s1;
             (r, w) = processImageBackgroundRemoval lib file (Some (config (ui s))) (wrapper s2);
             s3 = s2\<lparr>wrapper := w\<rparr>;
             s4 = (case r of
                     Inr processedBlob \<Rightarrow>
                       (let (processedUrl, s') = createObjectURL (Blob_object processedBlob) s3
                        in setProcessedImage
                             (Some \<lparr>original = originalUrl, processed = processedUrl,
                                    filename = file_name file\<rparr>) s')
                   | Inl err \<Rightarrow>
                       app_console_error Background_removal_error err
                         (setError (Some (message_of err)) s3))
         in setIsProcessing False s4))"

definition handleDrop ::
  "('e, 'b) library \<Rightarrow> dom_file list \<Rightarrow> ('e, 'b) system \<Rightarrow> ('e, 'b) system" where
  "handleDrop lib files s =
     (let s1 = setDragOver False s
      in case files of file # _ \<Rightarrow> handleFileSelect lib file s1 | [] \<Rightarrow> s1)"

definition handleDragOver :: "('e, 'b) system \<Rightarrow> ('e, 'b) system" where
  "handleDragOver s = setDragOver True s"

definition handleDragLeave :: "('e, 'b) system \<Rightarrow> ('e, 'b) system" where
  "handleDragLeave s = setDragOver False s"

definition handleFileChange ::
  "('e, 'b) library \<Rightarrow> dom_file list \<Rightarrow> ('e, 'b) system \<Rightarrow> ('e, 'b) system" where
  "handleFileChange lib files s =
     (case files of file # _ \<Rightarrow> handleFileSelect lib file s | [] \<Rightarrow> s)"

definition downloadImage :: "('e, 'b) system \<Rightarrow> ('e, 'b) system" where
  "downloadImage s =
     (case processedImage (ui s) of
        None \<Rightarrow> s
      | Some img \<Rightarrow>
          s\<lparr>dom := (dom s)\<lparr>downloads := downloads (dom s) @
             [(processed img, download_name (config (ui s)) (filename img))]\<rparr>\<rparr>)"

definition reset :: "('e, 'b) system \<Rightarrow> ('e, 'b) system" where
  "reset s =
     (let s1 = (case processedImage (ui s) of
                  Some img \<Rightarrow> revokeObjectURL (processed img) (revokeObjectURL (original img) s)
                | None \<Rightarrow> s);
          s2 = setError None (setProcessedImage None s1)
      in case fileInput (dom s2) of
           Some _ \<Rightarrow> s2\<lparr>dom := (dom s2)\<lparr>fileInput := Some []\<rparr>\<rparr>
         | None \<Rightarrow> s2)"

definition onToggle :: "('e, 'b) system \<Rightarrow> ('e, 'b) system" where
  "onToggle s = setConfigPanelOpen (\<not> configPanelOpen (ui s)) s"

subsection \<open>What is rendered\<close>

definition show_loading :: "('e, 'b) system \<Rightarrow> bool" where
  "show_loading s \<longleftrightarrow> \<not> modelLoaded (ui s)"

definition show_upload :: "('e, 'b) system \<Rightarrow> bool" where
  "show_upload s \<longleftrightarrow>
     processedImage (ui s) = None \<and> \<not> isProcessing (ui s) \<and> modelLoaded (ui s)"

definition show_processing :: "('e, 'b) system \<Rightarrow> bool" where
  "show_processing s \<longleftrightarrow> isProcessing (ui s)"

definition show_error :: "('e, 'b) system \<Rightarrow> bool" where
  "show_error s \<longleftrightarrow> error (ui s) \<noteq> None"

definition show_results :: "('e, 'b) system \<Rightarrow> bool" where
  "show_results s \<longleftrightarrow> processedImage (ui s) \<noteq> None"

text \<open>
  The file input is part of the upload area: React mounts it, with an empty value, when
  the area appears and unmounts it when the area goes.
\<close>

definition render :: "('e, 'b) system \<Rightarrow> ('e, 'b) system" where
  "render s =
     s\<lparr>dom := (dom s)\<lparr>fileInput :=
        (if show_upload s
         then (case fileInput (dom s) of None \<Rightarrow> Some [] | Some v \<Rightarrow> Some v)
         else None)\<rparr>\<rparr>"

subsection \<open>Events\<close>

datatype app_event =
    Mount
  | Panel panel_event
  | Drop "dom_file list"
  | DragOver
  | DragLeave
  | FileChange "dom_file list"
  | DownloadClick
  | ResetClick

fun enabled :: "('e, 'b) system \<Rightarrow> app_event \<Rightarrow> bool" where
  "enabled s Mount = False"
| "enabled s (Panel ev) = panel_enabled (configPanelOpen (ui s)) ev"
| "enabled s (Drop files) = show_upload s"
| "enabled s DragOver = show_upload s"
| "enabled s DragLeave = show_upload s"
| "enabled s (FileChange files) = show_upload s"
| "enabled s DownloadClick = show_results s"
| "enabled s ResetClick = show_results s"

fun handler :: "('e, 'b) library \<Rightarrow> app_event \<Rightarrow> ('e, 'b) system \<Rightarrow> ('e, 'b) system" where
  "handler lib Mount s = initModel lib s"
| "handler lib (Panel ev) s =
     (case panel_click (config (ui s)) ev of
        OnConfigChange c \<Rightarrow> handleConfigChange lib c s
      | OnToggle \<Rightarrow> onToggle s)"
| "handler lib (Drop files) s = handleDrop lib files s"
| "handler lib DragOver s = handleDragOver s"
| "handler lib DragLeave s = handleDragLeave s"
| "handler lib (FileChange files) s = handleFileChange lib files s"
| "handler lib DownloadClick s = downloadImage s"
| "handler lib ResetClick s = reset s"

definition handle :: "('e, 'b) library \<Rightarrow> app_event \<Rightarrow> ('e, 'b) system \<Rightarrow> ('e, 'b) system" where
  "handle lib ev s = render (handler lib ev s)"

text \<open>
  A sequence of events, one after the other. An event whose control is not rendered in
  the state it arrives in cannot be raised, and is skipped.
\<close>

fun handle_all ::
  "('e, 'b) library \<Rightarrow> app_event list \<Rightarrow> ('e, 'b) system \<Rightarrow> ('e, 'b) system" where
  "handle_all lib [] s = s"
| "handle_all lib (ev # evs) s =
     handle_all lib evs (if enabled s ev then handle lib ev s else s)"

definition mounted :: "('e, 'b) library \<Rightarrow> ('e, 'b) system" where
  "mounted lib = handle lib Mount (render initial_system)"

inductive app_reachable :: "('e, 'b) library \<Rightarrow> ('e, 'b) system \<Rightarrow> bool" for lib where
  mount: "app_reachable lib (mounted lib)"
| event: "app_reachable lib s \<Longrightarrow> enabled s ev \<Longrightarrow> app_reachable lib (handle lib ev s)"

subsection \<open>Invariant\<close>

text \<open>The number of failed removals the component has logged.\<close>

fun is_removal_error :: "('e, 'b) effect \<Rightarrow> bool" where
  "is_removal_error (AppLog Background_removal_error _) = True"
| "is_removal_error _ = False"

definition failed_removals :: "('e, 'b) effect list \<Rightarrow> nat" where
  "failed_removals tr = length (filter is_removal_error tr)"

definition urls_of :: "processed_image option \<Rightarrow> url list" where
  "urls_of img = (case img of None \<Rightarrow> [] | Some i \<Rightarrow> [original i, processed i])"

text \<open>
  \<open>model_inv\<close>: the component's \<open>modelLoaded\<close> mirrors the module's flag; when the flag
  is set, the model the library holds is the one of the current configuration; no
  processing is under way between events; the wrapper's own invariant holds; the
  configuration is well formed.
\<close>

definition model_inv :: "('e, 'b) system \<Rightarrow> bool" where
  "model_inv s \<longleftrightarrow>
     modelLoaded (ui s) = isModelLoaded (wrapper s) \<and>
     (isModelLoaded (wrapper s) \<longrightarrow>
        last_preloaded (trace (wrapper s)) = Some (preload_options_of (config (ui s)))) \<and>
     \<not> isProcessing (ui s) \<and>
     world_inv (wrapper s) \<and>
     valid_config (config (ui s))"

text \<open>
  \<open>urls_inv\<close>: object URLs are handed out once each, in increasing order; the two URLs of
  the result shown are different and live; and the live URLs are those of the result
  shown plus one for every removal that failed.
\<close>

definition urls_inv :: "('e, 'b) system \<Rightarrow> bool" where
  "urls_inv s \<longleftrightarrow>
     distinct (map fst (object_urls (dom s))) \<and>
     (\<forall>u \<in> fst ` set (object_urls (dom s)). u < next_url (dom s)) \<and>
     distinct (urls_of (processedImage (ui s))) \<and>
     set (urls_of (processedImage (ui s))) \<subseteq> fst ` set (object_urls (dom s)) \<and>
     length (object_urls (dom s)) =
       length (urls_of (processedImage (ui s))) + failed_removals (trace (wrapper s))"

definition input_inv :: "('e, 'b) system \<Rightarrow> bool" where
  "input_inv s \<longleftrightarrow> (fileInput (dom s) \<noteq> None \<longleftrightarrow> show_upload s)"

definition app_inv :: "('e, 'b) system \<Rightarrow> bool" where
  "app_inv s \<longleftrightarrow> model_inv s \<and> urls_inv s \<and> input_inv s"

subsection \<open>Sample sessions\<close>

text \<open>
  The states the theorems are applied to: one file processed by a library that works,
  and one file refused by a library that loads its model and then fails on the image.
\<close>

definition sample_done :: "(string, format) system" where
  "sample_done = handle_all lib_ok [FileChange [sample_file]] (mounted lib_ok)"

definition sample_failed :: "(string, format) system" where
  "sample_failed = handle_all lib_bad_image [FileChange [sample_file]] (mounted lib_bad_image)"

text \<open>A library that loads the first model it is asked for and fails every later preload.\<close>

definition lib_once :: "(string, format) library" where
  "lib_once =
     \<lparr>preload = (\<lambda>tr opts. if preload_count tr = 0 then Resolved () else Rejected ''timeout''),
      removeBackground = (\<lambda>tr f c. Resolved (format (output c)))\<rparr>"

section \<open>Lemmas\<close>

lemmas setter_defs =
  setIsProcessing_def setProcessedImage_def setError_def setDragOver_def setModelLoaded_def
  setLoadingProgress_def setConfig_def setConfigPanelOpen_def app_console_error_def
  createObjectURL_def revokeObjectURL_def

declare setIsProcessing_def [br_defs] setProcessedImage_def [br_defs] setError_def [br_defs]
  setDragOver_def [br_defs] setModelLoaded_def [br_defs] setLoadingProgress_def [br_defs]
  setConfig_def [br_defs] setConfigPanelOpen_def [br_defs] app_console_error_def [br_defs]
  createObjectURL_def [br_defs] revokeObjectURL_def [br_defs] initModel_def [br_defs]
  handleConfigChange_def [br_defs] handleFileSelect_def [br_defs] handleDrop_def [br_defs]
  handleDragOver_def [br_defs] handleDragLeave_def [br_defs] handleFileChange_def [br_defs]
  downloadImage_def [br_defs] reset_def [br_defs] onToggle_def [br_defs] render_def [br_defs]
  handle_def [br_defs] mounted_def [br_defs] show_upload_def [br_defs] show_results_def [br_defs]
  initial_system_def [br_defs] initial_app_state_def [br_defs]

lemma model_options_changed_iff:
  "model_options_changed c c' \<longleftrightarrow> preload_options_of c \<noteq> preload_options_of c'"
  by (auto simp: model_options_changed_def preload_options_of_def)

lemma handleFileSelect_rejected:
  assumes "\<not> accepted file \<or> \<not> isModelLoaded (wrapper s)"
  shows "handleFileSelect lib file s =
     setError (Some (if \<not> prefix ''image/'' (file_type file) then Invalid_image_file
                     else if file_size file > max_file_size then File_too_large
                     else Model_not_ready_yet)) s"
  using assms by (auto simp: handleFileSelect_def accepted_def)

lemma handleFileSelect_ok:
  assumes "accepted file" and "isModelLoaded (wrapper s)"
    and "removeBackground lib (trace (wrapper s)) file (config (ui s)) = Resolved blob"
  shows "handleFileSelect lib file s =
     s\<lparr>ui := (ui s)\<lparr>isProcessing := False,
                     processedImage := Some \<lparr>original = next_url (dom s),
                        processed = Suc (next_url (dom s)), filename = file_name file\<rparr>,
                     error := None\<rparr>,
       wrapper := (wrapper s)\<lparr>trace := trace (wrapper s) @
          [RemoveBackgroundCall file (config (ui s)) (Resolved blob)]\<rparr>,
       dom := (dom s)\<lparr>object_urls := object_urls (dom s) @
                        [(next_url (dom s), File_object file),
                         (Suc (next_url (dom s)), Blob_object blob)],
                     next_url := Suc (Suc (next_url (dom s)))\<rparr>\<rparr>"
  using assms
  by (simp add: handleFileSelect_def accepted_def setter_defs processImage_ready Let_def)

lemma handleFileSelect_failed:
  assumes "accepted file" and "isModelLoaded (wrapper s)"
    and "removeBackground lib (trace (wrapper s)) file (config (ui s)) = Rejected e"
  shows "handleFileSelect lib file s =
     s\<lparr>ui := (ui s)\<lparr>isProcessing := False,
                     error := Some (Error_message Background_removal_failed_retry)\<rparr>,
       wrapper := (wrapper s)\<lparr>trace := trace (wrapper s) @
          [RemoveBackgroundCall file (config (ui s)) (Rejected e),
           WrapperLog Background_removal_failed (LibThrown e),
           AppLog Background_removal_error (ErrorObj Background_removal_failed_retry)]\<rparr>,
       dom := (dom s)\<lparr>object_urls := object_urls (dom s) @
                        [(next_url (dom s), File_object file)],
                     next_url := Suc (next_url (dom s))\<rparr>\<rparr>"
  using assms
  by (simp add: handleFileSelect_def accepted_def setter_defs processImage_ready Let_def
      message_of_def)

lemma handleFileSelect_cases [case_names rejected ok failed]:
  assumes "\<not> accepted f \<or> \<not> isModelLoaded (wrapper s) \<Longrightarrow> P"
    and "\<And>blob. accepted f \<Longrightarrow> isModelLoaded (wrapper s) \<Longrightarrow>
           removeBackground lib (trace (wrapper s)) f (config (ui s)) = Resolved blob \<Longrightarrow> P"
    and "\<And>e. accepted f \<Longrightarrow> isModelLoaded (wrapper s) \<Longrightarrow>
           removeBackground lib (trace (wrapper s)) f (config (ui s)) = Rejected e \<Longrightarrow> P"
  shows P
  using assms
  by (cases "removeBackground lib (trace (wrapper s)) f (config (ui s))") auto

lemma handleConfigChange_same:
  assumes "\<not> model_options_changed c (config (ui s))"
  shows "handleConfigChange lib c s = setConfig c s"
  using assms by (simp add: handleConfigChange_def)

lemma handleConfigChange_ok:
  assumes "model_options_changed c (config (ui s))"
    and "preload lib (trace (wrapper s)) (preload_options_of c) = Resolved u"
  shows "handleConfigChange lib c s =
     s\<lparr>ui := (ui s)\<lparr>error := None, modelLoaded := True, loadingProgress := 100, config := c\<rparr>,
       wrapper := (wrapper s)\<lparr>isModelLoaded := True,
          trace := trace (wrapper s) @ [PreloadCall (preload_options_of c) (Resolved u)]\<rparr>\<rparr>"
  using assms
  by (simp add: handleConfigChange_def setter_defs loadModel_preload_ok Let_def resetModel_def)

lemma handleConfigChange_failed:
  assumes "model_options_changed c (config (ui s))"
    and "preload lib (trace (wrapper s)) (preload_options_of c) = Rejected e"
  shows "handleConfigChange lib c s =
     s\<lparr>ui := (ui s)\<lparr>error := Some Model_reload_failed_check_config, modelLoaded := False,
                     loadingProgress := 20, config := c\<rparr>,
       wrapper := (wrapper s)\<lparr>isModelLoaded := False,
          trace := trace (wrapper s) @
            [PreloadCall (preload_options_of c) (Rejected e),
             WrapperLog Failed_to_preload_model (LibThrown e),
             AppLog Model_reload_failed (LibThrown e)]\<rparr>\<rparr>"
  using assms
  by (simp add: handleConfigChange_def setter_defs loadModel_preload_fail Let_def resetModel_def)

lemma handleConfigChange_cases [case_names same ok failed]:
  assumes "\<not> model_options_changed c (config (ui s)) \<Longrightarrow> P"
    and "\<And>u. model_options_changed c (config (ui s)) \<Longrightarrow>
           preload lib (trace (wrapper s)) (preload_options_of c) = Resolved u \<Longrightarrow> P"
    and "\<And>e. model_options_changed c (config (ui s)) \<Longrightarrow>
           preload lib (trace (wrapper s)) (preload_options_of c) = Rejected e \<Longrightarrow> P"
  shows P
  using assms by (cases "preload lib (trace (wrapper s)) (preload_options_of c)") auto

lemma initModel_ok:
  assumes "\<not> isModelLoaded (wrapper s)"
    and "preload lib (trace (wrapper s)) (preload_options_of (config (ui s))) = Resolved u"
  shows "initModel lib s =
     s\<lparr>ui := (ui s)\<lparr>modelLoaded := True, loadingProgress := 100\<rparr>,
       wrapper := (wrapper s)\<lparr>isModelLoaded := True,
          trace := trace (wrapper s) @
            [PreloadCall (preload_options_of (config (ui s))) (Resolved u)]\<rparr>\<rparr>"
  using assms by (simp add: initModel_def setter_defs loadModel_preload_ok Let_def)

lemma initModel_failed:
  assumes "\<not> isModelLoaded (wrapper s)"
    and "preload lib (trace (wrapper s)) (preload_options_of (config (ui s))) = Rejected e"
  shows "initModel lib s =
     s\<lparr>ui := (ui s)\<lparr>error := Some Model_load_failed_refresh, modelLoaded := False,
                     loadingProgress := 20\<rparr>,
       wrapper := (wrapper s)\<lparr>trace := trace (wrapper s) @
            [PreloadCall (preload_options_of (config (ui s))) (Rejected e),
             WrapperLog Failed_to_preload_model (LibThrown e),
             AppLog Model_load_failed (LibThrown e)]\<rparr>\<rparr>"
  using assms by (simp add: initModel_def setter_defs loadModel_preload_fail Let_def)

lemma failed_removals_simps [simp]:
  "failed_removals [] = 0"
  "failed_removals (x # tr) = (if is_removal_error x then 1 else 0) + failed_removals tr"
  "failed_removals (tr @ tr') = failed_removals tr + failed_removals tr'"
  by (simp_all add: failed_removals_def)

lemma world_inv_app_log [simp]:
  "world_inv (w\<lparr>trace := trace w @ [AppLog l v]\<rparr>) = world_inv w"
  by (simp add: world_inv_def loaded_before_inference_append)

lemma model_inv_handleFileSelect:
  assumes "model_inv s"
  shows "model_inv (handleFileSelect lib file s)"
proof (cases rule: handleFileSelect_cases [where f = "file" and s = s and lib = lib])
  case rejected
  with assms show ?thesis
    by (simp add: handleFileSelect_rejected model_inv_def setError_def)
next
  case (ok blob)
  with assms show ?thesis
    by (simp add: handleFileSelect_ok model_inv_def world_inv_def loaded_before_inference_append)
next
  case (failed e)
  with assms show ?thesis
    by (simp add: handleFileSelect_failed model_inv_def world_inv_def
        loaded_before_inference_append)
qed

lemma model_inv_handleConfigChange:
  assumes "model_inv s" and "valid_config c"
  shows "model_inv (handleConfigChange lib c s)"
proof (cases rule: handleConfigChange_cases [where c = c and s = s and lib = lib])
  case same
  with assms show ?thesis
    by (simp add: handleConfigChange_same model_inv_def setConfig_def model_options_changed_iff)
next
  case (ok u)
  with assms show ?thesis
    by (simp add: handleConfigChange_ok model_inv_def world_inv_def
        loaded_before_inference_append)
next
  case (failed e)
  with assms show ?thesis
    by (simp add: handleConfigChange_failed model_inv_def world_inv_def
        loaded_before_inference_append)
qed

lemma model_inv_mounted: "model_inv (mounted lib)"
proof (cases "preload lib [] (preload_options_of defaultConfig)")
  case (Inl e)
  then show ?thesis
    by (simp add: mounted_def handle_def render_def initial_system_def initial_app_state_def
        initial_world_def initModel_failed model_inv_def world_inv_def valid_defaultConfig)
next
  case (Inr u)
  then show ?thesis
    by (simp add: mounted_def handle_def render_def initial_system_def initial_app_state_def
        initial_world_def initModel_ok model_inv_def world_inv_def valid_defaultConfig)
qed

lemma render_ui [simp]: "ui (render s) = ui s"
  and render_wrapper [simp]: "wrapper (render s) = wrapper s"
  and render_object_urls [simp]: "object_urls (dom (render s)) = object_urls (dom s)"
  and render_next_url [simp]: "next_url (dom (render s)) = next_url (dom s)"
  and render_downloads [simp]: "downloads (dom (render s)) = downloads (dom s)"
  by (simp_all add: render_def)

lemma show_render [simp]:
  "show_upload (render s) = show_upload s"
  "show_results (render s) = show_results s"
  "show_loading (render s) = show_loading s"
  "show_error (render s) = show_error s"
  "show_processing (render s) = show_processing s"
  by (simp_all add: show_upload_def show_results_def show_loading_def show_error_def
      show_processing_def)

lemma inv_render [simp]:
  "model_inv (render s) = model_inv s"
  "urls_inv (render s) = urls_inv s"
  "input_inv (render s)"
  by (auto simp: model_inv_def urls_inv_def input_inv_def)
     (auto simp: render_def split: option.splits if_splits)

lemma model_inv_setDragOver [simp]: "model_inv (setDragOver b s) = model_inv s"
  and urls_inv_setDragOver [simp]: "urls_inv (setDragOver b s) = urls_inv s"
  by (simp_all add: model_inv_def urls_inv_def setDragOver_def)

lemma model_inv_simple:
  assumes "model_inv s"
  shows "model_inv (reset s)" and "model_inv (downloadImage s)" and "model_inv (onToggle s)"
  using assms
  by (simp_all add: reset_def downloadImage_def onToggle_def setter_defs model_inv_def Let_def
      split: option.splits)

lemma model_inv_file_list:
  assumes "model_inv s"
  shows "model_inv (handleDrop lib files s)" and "model_inv (handleFileChange lib files s)"
  using assms
  by (simp_all add: handleDrop_def handleFileChange_def model_inv_handleFileSelect Let_def
      split: list.splits)

lemma model_inv_handler:
  assumes "model_inv s" and "enabled s ev"
  shows "model_inv (handler lib ev s)"
proof (cases ev)
  case (Panel pev)
  show ?thesis
  proof (cases rule: panel_click_cases [of "config (ui s)" pev])
    case (change c)
    with assms Panel panel_click_valid [of "config (ui s)" "configPanelOpen (ui s)" pev c]
    have "valid_config c" by (simp add: model_inv_def)
    with assms(1) change Panel show ?thesis
      by (simp add: model_inv_handleConfigChange)
  next
    case toggle
    with assms Panel show ?thesis by (simp add: model_inv_simple)
  qed
qed (use assms in \<open>simp_all add: model_inv_simple model_inv_file_list handleDragOver_def
      handleDragLeave_def\<close>)

lemma urls_of_simps [simp]:
  "urls_of None = []"
  "urls_of (Some i) = [original i, processed i]"
  by (simp_all add: urls_of_def)

lemma urls_inv_handleFileSelect:
  assumes "urls_inv s" and "processedImage (ui s) = None"
  shows "urls_inv (handleFileSelect lib file s)"
proof (cases rule: handleFileSelect_cases [where f = "file" and s = s and lib = lib])
  case rejected
  with assms show ?thesis
    by (simp add: handleFileSelect_rejected urls_inv_def setError_def)
next
  case (ok blob)
  with assms show ?thesis
    by (auto simp: handleFileSelect_ok urls_inv_def less_Suc_eq)
next
  case (failed e)
  with assms show ?thesis
    by (auto simp: handleFileSelect_failed urls_inv_def less_Suc_eq)
qed

lemma urls_inv_handleConfigChange:
  assumes "urls_inv s"
  shows "urls_inv (handleConfigChange lib c s)"
proof (cases rule: handleConfigChange_cases [where c = c and s = s and lib = lib])
  case same
  with assms show ?thesis
    by (simp add: handleConfigChange_same urls_inv_def setConfig_def)
next
  case (ok u)
  with assms show ?thesis by (simp add: handleConfigChange_ok urls_inv_def)
next
  case (failed e)
  with assms show ?thesis by (simp add: handleConfigChange_failed urls_inv_def)
qed

lemma urls_inv_mounted: "urls_inv (mounted lib)"
proof (cases "preload lib [] (preload_options_of defaultConfig)")
  case (Inl e)
  then show ?thesis
    by (simp add: mounted_def handle_def render_def initial_system_def initial_app_state_def
        initial_world_def initModel_failed urls_inv_def)
next
  case (Inr u)
  then show ?thesis
    by (simp add: mounted_def handle_def render_def initial_system_def initial_app_state_def
        initial_world_def initModel_ok urls_inv_def)
qed

lemma reset_eq:
  "reset s =
     s\<lparr>ui := (ui s)\<lparr>processedImage := None, error := None\<rparr>,
       dom := (dom s)\<lparr>object_urls :=
                 filter (\<lambda>entry. fst entry \<notin> set (urls_of (processedImage (ui s))))
                   (object_urls (dom s)),
               fileInput := map_option (\<lambda>_. []) (fileInput (dom s))\<rparr>\<rparr>"
  by (cases "processedImage (ui s)"; cases "fileInput (dom s)")
     (simp_all add: reset_def setter_defs conj_commute)

lemma urls_inv_reset:
  assumes "urls_inv s"
  shows "urls_inv (reset s)"
proof (cases "processedImage (ui s)")
  case None
  with assms show ?thesis by (simp add: reset_eq urls_inv_def)
next
  case (Some img)
  with assms have "Suc (Suc (length (filter
      (\<lambda>e. fst e \<noteq> original img \<and> fst e \<noteq> processed img) (object_urls (dom s))))) =
    length (object_urls (dom s))"
    by (intro length_filter_fst_neq2) (simp_all add: urls_inv_def)
  with assms Some show ?thesis
    by (simp add: reset_eq urls_inv_def distinct_map_filter)
qed

lemma urls_inv_simple:
  assumes "urls_inv s"
  shows "urls_inv (downloadImage s)" and "urls_inv (onToggle s)"
  using assms
  by (auto simp: downloadImage_def onToggle_def setter_defs urls_inv_def
      split: option.splits)

lemma urls_inv_file_list:
  assumes "urls_inv s" and "show_upload s"
  shows "urls_inv (handleDrop lib files s)" and "urls_inv (handleFileChange lib files s)"
  using assms
  by (simp_all add: handleDrop_def handleFileChange_def Let_def urls_inv_handleFileSelect
      show_upload_def setDragOver_def [of False s, THEN arg_cong [of _ _ ui]]
      split: list.splits)

lemma urls_inv_handler:
  assumes "urls_inv s" and "enabled s ev"
  shows "urls_inv (handler lib ev s)"
proof (cases ev)
  case (Panel pev)
  with assms show ?thesis
    by (cases "panel_click (config (ui s)) pev")
       (simp_all add: urls_inv_handleConfigChange urls_inv_simple)
qed (use assms in \<open>simp_all add: urls_inv_simple urls_inv_reset urls_inv_file_list
      handleDragOver_def handleDragLeave_def\<close>)

lemma app_inv_handle:
  assumes "app_inv s" and "enabled s ev"
  shows "app_inv (handle lib ev s)"
  using assms by (simp add: app_inv_def handle_def model_inv_handler urls_inv_handler)

lemma app_inv_mounted: "app_inv (mounted lib)"
  unfolding app_inv_def
  by (simp add: model_inv_mounted urls_inv_mounted) (simp add: mounted_def handle_def)

lemma app_reachable_inv:
  assumes "app_reachable lib s"
  shows "app_inv s"
  using assms by (induction rule: app_reachable.induct) (simp_all add: app_inv_mounted app_inv_handle)

lemma handle_all_append [simp]:
  "handle_all lib (evs @ evs') s = handle_all lib evs' (handle_all lib evs s)"
  by (induction evs arbitrary: s) simp_all

lemma app_reachable_handle_all:
  assumes "app_reachable lib s"
  shows "app_reachable lib (handle_all lib evs s)"
  using assms by (induction evs arbitrary: s) (auto intro: app_reachable.event)

lemma app_reachable_iff_handle_all:
  "app_reachable lib s \<longleftrightarrow> (\<exists>evs. s = handle_all lib evs (mounted lib))"
proof
  assume "app_reachable lib s"
  then show "\<exists>evs. s = handle_all lib evs (mounted lib)"
  proof (induction rule: app_reachable.induct)
    case mount
    have "mounted lib = handle_all lib [] (mounted lib)" by simp
    then show ?case by blast
  next
    case (event s ev)
    then obtain evs where "s = handle_all lib evs (mounted lib)" by blast
    with event(2) have "handle lib ev s = handle_all lib (evs @ [ev]) (mounted lib)" by simp
    then show ?case by blast
  qed
qed (auto intro: app_reachable_handle_all app_reachable.mount)

lemma reachable_ready:
  assumes "app_reachable lib s" and "show_upload s"
  shows "isModelLoaded (wrapper s)" and "processedImage (ui s) = None"
  using app_reachable_inv [OF assms(1)] assms(2)
  by (simp_all add: app_inv_def model_inv_def show_upload_def)

lemma handleFileSelect_error:
  assumes "isModelLoaded (wrapper s)"
  shows "error (ui (handleFileSelect lib file s)) \<in>
     {None, Some Invalid_image_file, Some File_too_large,
      Some (Error_message Background_removal_failed_retry)}"
  using assms
  by (cases rule: handleFileSelect_cases [where f = "file" and s = s and lib = lib])
     (simp_all add: handleFileSelect_rejected handleFileSelect_ok handleFileSelect_failed
        setError_def accepted_def)

lemma handleFileSelect_preload_count:
  assumes "isModelLoaded (wrapper s)"
  shows "preload_count (trace (wrapper (handleFileSelect lib file s))) =
         preload_count (trace (wrapper s))"
  using assms
  by (cases rule: handleFileSelect_cases [where f = "file" and s = s and lib = lib])
     (simp_all add: handleFileSelect_rejected handleFileSelect_ok handleFileSelect_failed
        setError_def)

lemma handle_file_list:
  "handle lib (FileChange files) s =
     (case files of [] \<Rightarrow> render s | f # _ \<Rightarrow> render (handleFileSelect lib f s))"
  "handle lib (Drop files) s =
     (case files of [] \<Rightarrow> render (setDragOver False s)
      | f # _ \<Rightarrow> render (handleFileSelect lib f (setDragOver False s)))"
  by (simp_all add: handle_def handleFileChange_def handleDrop_def Let_def split: list.splits)

lemma setDragOver_simps [simp]:
  "wrapper (setDragOver b s) = wrapper s"
  "dom (setDragOver b s) = dom s"
  "ui (setDragOver b s) = (ui s)\<lparr>dragOver := b\<rparr>"
  by (simp_all add: setDragOver_def)

lemma mounted_lib_ok:
  "mounted lib_ok =
     \<lparr>ui = initial_app_state\<lparr>modelLoaded := True, loadingProgress := 100\<rparr>,
      wrapper = \<lparr>isModelLoaded = True,
                 trace = [PreloadCall (preload_options_of defaultConfig) (Resolved ())]\<rparr>,
      dom = \<lparr>object_urls = [], next_url = 0, downloads = [], fileInput = Some []\<rparr>\<rparr>"
  by (simp add: br_defs Let_def)

lemma mounted_lib_bad_image:
  "mounted lib_bad_image =
     \<lparr>ui = initial_app_state\<lparr>modelLoaded := True, loadingProgress := 100\<rparr>,
      wrapper = \<lparr>isModelLoaded = True,
                 trace = [PreloadCall (preload_options_of defaultConfig) (Resolved ())]\<rparr>,
      dom = \<lparr>object_urls = [], next_url = 0, downloads = [], fileInput = Some []\<rparr>\<rparr>"
  by (simp add: br_defs Let_def)

lemma mounted_lib_offline:
  "mounted lib_offline =
     \<lparr>ui = initial_app_state\<lparr>error := Some Model_load_failed_refresh, loadingProgress := 20\<rparr>,
      wrapper = \<lparr>isModelLoaded = False,
                 trace = [PreloadCall (preload_options_of defaultConfig) (Rejected ''fetch failed''),
                          WrapperLog Failed_to_preload_model (LibThrown ''fetch failed''),
                          AppLog Model_load_failed (LibThrown ''fetch failed'')]\<rparr>,
      dom = \<lparr>object_urls = [], next_url = 0, downloads = [], fileInput = None\<rparr>\<rparr>"
  by (simp add: br_defs Let_def)

lemma sample_file_accepted: "accepted sample_file"
  by (simp add: accepted_def sample_file_def max_file_size_def)

lemma sample_done_eq:
  "sample_done =
     \<lparr>ui = initial_app_state\<lparr>
             processedImage := Some \<lparr>original = 0, processed = 1, filename = ''cat.png''\<rparr>,
             modelLoaded := True, loadingProgress := 100\<rparr>,
      wrapper = \<lparr>isModelLoaded = True,
                 trace = [PreloadCall (preload_options_of defaultConfig) (Resolved ()),
                          RemoveBackgroundCall sample_file defaultConfig (Resolved Image_png)]\<rparr>,
      dom = \<lparr>object_urls = [(0, File_object sample_file), (1, Blob_object Image_png)],
              next_url = 2, downloads = [], fileInput = None\<rparr>\<rparr>"
proof -
  have "show_upload (mounted lib_ok)"
    by (simp add: mounted_lib_ok show_upload_def initial_app_state_def)
  moreover have "handleFileSelect lib_ok sample_file (mounted lib_ok) =
     \<lparr>ui = initial_app_state\<lparr>
             processedImage := Some \<lparr>original = 0, processed = 1, filename = ''cat.png''\<rparr>,
             modelLoaded := True, loadingProgress := 100\<rparr>,
      wrapper = \<lparr>isModelLoaded = True,
                 trace = [PreloadCall (preload_options_of defaultConfig) (Resolved ()),
                          RemoveBackgroundCall sample_file defaultConfig (Resolved Image_png)]\<rparr>,
      dom = \<lparr>object_urls = [(0, File_object sample_file), (1, Blob_object Image_png)],
              next_url = 2, downloads = [], fileInput = Some []\<rparr>\<rparr>"
    by (subst handleFileSelect_ok [where blob = Image_png])
       (simp_all add: sample_file_accepted mounted_lib_ok initial_app_state_def,
        simp add: sample_file_def)
  ultimately show ?thesis
    by (simp add: sample_done_def handle_file_list render_def show_upload_def
        initial_app_state_def)
qed

lemma sample_failed_eq:
  "sample_failed =
     \<lparr>ui = initial_app_state\<lparr>
             error := Some (Error_message Background_removal_failed_retry),
             modelLoaded := True, loadingProgress := 100\<rparr>,
      wrapper = \<lparr>isModelLoaded = True,
                 trace = [PreloadCall (preload_options_of defaultConfig) (Resolved ()),
                          RemoveBackgroundCall sample_file defaultConfig (Rejected ''decode error''),
                          WrapperLog Background_removal_failed (LibThrown ''decode error''),
                          AppLog Background_removal_error
                            (ErrorObj Background_removal_failed_retry)]\<rparr>,
      dom = \<lparr>object_urls = [(0, File_object sample_file)],
              next_url = 1, downloads = [], fileInput = Some []\<rparr>\<rparr>"
proof -
  have "show_upload (mounted lib_bad_image)"
    by (simp add: mounted_lib_bad_image show_upload_def initial_app_state_def)
  moreover have "handleFileSelect lib_bad_image sample_file (mounted lib_bad_image) =
     \<lparr>ui = initial_app_state\<lparr>
             error := Some (Error_message Background_removal_failed_retry),
             modelLoaded := True, loadingProgress := 100\<rparr>,
      wrapper = \<lparr>isModelLoaded = True,
                 trace = [PreloadCall (preload_options_of defaultConfig) (Resolved ()),
                          RemoveBackgroundCall sample_file defaultConfig (Rejected ''decode error''),
                          WrapperLog Background_removal_failed (LibThrown ''decode error''),
                          AppLog Background_removal_error
                            (ErrorObj Background_removal_failed_retry)]\<rparr>,
      dom = \<lparr>object_urls = [(0, File_object sample_file)],
              next_url = 1, downloads = [], fileInput = Some []\<rparr>\<rparr>"
    by (subst handleFileSelect_failed [where e = "''decode error''"])
       (simp_all add: sample_file_accepted mounted_lib_bad_image initial_app_state_def)
  ultimately show ?thesis
    by (simp add: sample_failed_def handle_file_list render_def show_upload_def
        initial_app_state_def)
qed

lemma sample_reachable:
  "app_reachable lib_ok (mounted lib_ok)"
  "app_reachable lib_ok sample_done"
  "app_reachable lib_bad_image sample_failed"
  "app_reachable lib_offline (mounted lib_offline)"
  unfolding sample_done_def sample_failed_def
  by (intro app_reachable_handle_all app_reachable.mount)+

lemma error_handleConfigChange:
  "error (ui (handleConfigChange lib c s)) \<in>
     {error (ui s), None, Some Model_reload_failed_check_config}"
  by (cases rule: handleConfigChange_cases [where c = c and s = s and lib = lib])
     (simp_all add: handleConfigChange_same handleConfigChange_ok handleConfigChange_failed
        setConfig_def)

lemma error_file_list:
  assumes "isModelLoaded (wrapper s)"
  shows "error (ui (handleFileChange lib files s)) \<in>
     {error (ui s), None, Some Invalid_image_file, Some File_too_large,
      Some (Error_message Background_removal_failed_retry)}"
    and "error (ui (handleDrop lib files s)) \<in>
     {error (ui s), None, Some Invalid_image_file, Some File_too_large,
      Some (Error_message Background_removal_failed_retry)}"
proof -
  show "error (ui (handleFileChange lib files s)) \<in>
     {error (ui s), None, Some Invalid_image_file, Some File_too_large,
      Some (Error_message Background_removal_failed_retry)}"
  proof (cases files)
    case (Cons f fs)
    with handleFileSelect_error [OF assms, of lib f] show ?thesis
      by (auto simp: handleFileChange_def)
  qed (simp add: handleFileChange_def)
  from assms have "isModelLoaded (wrapper (setDragOver False s))" by simp
  note sel = handleFileSelect_error [OF this]
  show "error (ui (handleDrop lib files s)) \<in>
     {error (ui s), None, Some Invalid_image_file, Some File_too_large,
      Some (Error_message Background_removal_failed_retry)}"
  proof (cases files)
    case (Cons f fs)
    with sel [of lib f] show ?thesis
      by (auto simp: handleDrop_def Let_def)
  qed (simp add: handleDrop_def Let_def)
qed

lemma error_handler:
  assumes "isModelLoaded (wrapper s) = modelLoaded (ui s)" and "enabled s ev"
  shows "error (ui (handler lib ev s)) \<in>
     {error (ui s), None, Some Invalid_image_file, Some File_too_large,
      Some (Error_message Background_removal_failed_retry),
      Some Model_reload_failed_check_config}"
proof (cases ev)
  case (Panel pev)
  show ?thesis
  proof (cases "panel_click (config (ui s)) pev")
    case (OnConfigChange c)
    with Panel error_handleConfigChange [of lib c s] show ?thesis by auto
  next
    case OnToggle
    with Panel show ?thesis by (simp add: onToggle_def setter_defs)
  qed
next
  case (Drop files)
  with assms have "isModelLoaded (wrapper s)" by (simp add: show_upload_def)
  from error_file_list(2) [OF this, of lib files] Drop show ?thesis by auto
next
  case (FileChange files)
  with assms have "isModelLoaded (wrapper s)" by (simp add: show_upload_def)
  from error_file_list(1) [OF this, of lib files] FileChange show ?thesis by auto
qed (use assms in \<open>simp_all add: handleDragOver_def handleDragLeave_def downloadImage_def
      reset_eq split: option.splits\<close>)

lemma error_mounted:
  "error (ui (mounted lib)) \<in> {None, Some Model_load_failed_refresh}"
  by (cases "preload lib [] (preload_options_of defaultConfig)")
     (simp_all add: mounted_def handle_def render_def initial_system_def initial_app_state_def
        initial_world_def initModel_failed initModel_ok)

lemma reachable_error:
  assumes "app_reachable lib s"
  shows "error (ui s) \<in>
     {None, Some Model_load_failed_refresh, Some Model_reload_failed_check_config,
      Some Invalid_image_file, Some File_too_large,
      Some (Error_message Background_removal_failed_retry)}"
  using assms
proof (induction rule: app_reachable.induct)
  case mount
  from error_mounted [of lib] show ?case by auto
next
  case (event s ev)
  from app_reachable_inv [OF event(1)]
  have "isModelLoaded (wrapper s) = modelLoaded (ui s)"
    by (simp add: app_inv_def model_inv_def)
  from error_handler [OF this event(2), of lib] event.IH show ?case
    by (auto simp: handle_def)
qed

text \<open>
  \<^bold>\<open>C4\<close> (invariant). In every state the component reaches by its mount effect and
  any sequence of events, when each handler runs to its end before the next starts: the
  component's \<open>modelLoaded\<close> agrees with \<open>isModelReady()\<close>; if the module is ready, the
  last successful preload was made with the model, debug flag and device of the current
  configuration; no processing is marked as under way; the quality is in \<open>[0, 1]\<close>; and
  the wrapper's own invariant holds. \<open>handleConfigChange\<close> calls \<open>resetModel\<close> before
  \<open>loadModel\<close>, which is what keeps the loaded model that of the configuration.
\<close>

theorem reachable_model_matches_config:
  assumes "app_reachable lib s"
  shows "modelLoaded (ui s) = isModelReady (wrapper s) \<and>
         (isModelReady (wrapper s) \<longrightarrow>
            last_preloaded (trace (wrapper s)) = Some (preload_options_of (config (ui s)))) \<and>
         \<not> isProcessing (ui s) \<and> valid_config (config (ui s)) \<and> world_inv (wrapper s)"
  using app_reachable_inv [OF assms] by (simp add: app_inv_def model_inv_def)

theorem reachable_model_matches_config_witness:
  "app_reachable lib_ok sample_done \<and> isModelReady (wrapper sample_done) \<and>
   modelLoaded (ui sample_done) \<and>
   last_preloaded (trace (wrapper sample_done)) =
     Some (preload_options_of (config (ui sample_done)))"
  using reachable_model_matches_config [OF sample_reachable(2)] sample_reachable(2)
  by (simp add: sample_done_eq)

text \<open>
  \<^bold>\<open>C8\<close> (safety). Object URLs are accounted for: in every reachable state the live
  object URLs are the two of the result on display, plus one for every background removal
  that failed. \<open>handleFileSelect\<close> creates the URL of the upload before it awaits the
  removal, and its \<open>catch\<close> never revokes it and never stores it, so each failed removal
  leaves one URL that nothing can release.
\<close>

theorem failed_removal_leaks_object_url:
  assumes "app_reachable lib s"
  shows "length (object_urls (dom s)) =
         length (urls_of (processedImage (ui s))) + failed_removals (trace (wrapper s))"
  using app_reachable_inv [OF assms] by (simp add: app_inv_def urls_inv_def)

theorem failed_removal_leaks_object_url_witness:
  "app_reachable lib_bad_image sample_failed \<and>
   processedImage (ui sample_failed) = None \<and>
   object_urls (dom sample_failed) = [(0, File_object sample_file)] \<and>
   failed_removals (trace (wrapper sample_failed)) = 1"
  using failed_removal_leaks_object_url [OF sample_reachable(3)] sample_reachable(3)
  by (simp add: sample_failed_eq initial_app_state_def)

text \<open>
  Two of the component's messages are never shown. The upload area is
  rendered only when \<open>modelLoaded\<close> holds, which agrees with \<open>isModelReady()\<close>, so the
  readiness guard of \<open>handleFileSelect\<close> never fires; and whatever
  \<open>processImageBackgroundRemoval\<close> throws is an \<open>Error\<close>, so the fallback text of
  \<open>err instanceof Error ? err.message : \<dots>\<close> is never used.
\<close>

theorem dead_messages_unreachable:
  assumes "app_reachable lib s"
  shows "error (ui s) \<noteq> Some Model_not_ready_yet \<and>
         error (ui s) \<noteq> Some Processing_error_retry"
  using reachable_error [OF assms] by auto

theorem dead_messages_unreachable_witness:
  "app_reachable lib_bad_image sample_failed \<and>
   error (ui sample_failed) = Some (Error_message Background_removal_failed_retry)"
  using dead_messages_unreachable [OF sample_reachable(3)] sample_reachable(3)
  by (simp add: sample_failed_eq)

lemma preload_count_file_list:
  assumes "isModelLoaded (wrapper s)"
  shows "preload_count (trace (wrapper (handleFileChange lib files s))) =
         preload_count (trace (wrapper s))"
    and "preload_count (trace (wrapper (handleDrop lib files s))) =
         preload_count (trace (wrapper s))"
  using assms handleFileSelect_preload_count [of s lib]
    handleFileSelect_preload_count [of "setDragOver False s" lib]
  by (simp_all add: handleFileChange_def handleDrop_def Let_def split: list.splits)

text \<open>
  Selecting or dropping files never loads a model: in a reachable
  state in which the upload area is rendered, handling a file event leaves the number of
  preload calls unchanged. The lazy load inside \<open>processImageBackgroundRemoval\<close> is not
  used by this component.
\<close>

theorem file_events_never_preload:
  assumes "app_reachable lib s" and "enabled s ev"
    and "ev = FileChange files \<or> ev = Drop files"
  shows "preload_count (trace (wrapper (handle lib ev s))) = preload_count (trace (wrapper s))"
  using assms(2,3) reachable_ready(1) [OF assms(1)]
  by (auto simp: handle_def preload_count_file_list)

theorem file_events_never_preload_witness:
  "app_reachable lib_ok (mounted lib_ok) \<and>
   enabled (mounted lib_ok) (FileChange [sample_file]) \<and>
   preload_count (trace (wrapper (handle lib_ok (FileChange [sample_file]) (mounted lib_ok)))) = 1"
proof -
  have e: "enabled (mounted lib_ok) (FileChange [sample_file])"
    by (simp add: mounted_lib_ok show_upload_def initial_app_state_def)
  from file_events_never_preload [OF sample_reachable(1) e] e sample_reachable(1)
  show ?thesis by (simp add: mounted_lib_ok)
qed

text \<open>
  \<^bold>\<open>C11\<close> (functional). \<open>handleConfigChange\<close> calls the library's preload exactly once if
  the new configuration differs from the current one in what \<open>loadModel\<close> passes to
  \<open>preload\<close> (\<open>model\<close>, \<open>debug\<close>, \<open>device\<close>), and not at all otherwise; it never runs an inference; it always stores the new
  configuration; and it leaves the result on display and the browser's object URLs as
  they are. So a change of format, quality or output type after processing changes
  neither the model nor the processed image.
\<close>

theorem config_change_reloads_iff_model_options:
  "preload_count (trace (wrapper (handleConfigChange lib c s))) =
     preload_count (trace (wrapper s)) +
       (if preload_options_of c \<noteq> preload_options_of (config (ui s)) then 1 else 0) \<and>
   inference_count (trace (wrapper (handleConfigChange lib c s))) =
     inference_count (trace (wrapper s)) \<and>
   config (ui (handleConfigChange lib c s)) = c \<and>
   processedImage (ui (handleConfigChange lib c s)) = processedImage (ui s) \<and>
   dom (handleConfigChange lib c s) = dom s"
  by (cases rule: handleConfigChange_cases [where c = c and s = s and lib = lib])
     (simp_all add: handleConfigChange_same handleConfigChange_ok handleConfigChange_failed
        setConfig_def model_options_changed_iff)

theorem config_change_reloads_iff_model_options_witness:
  "preload_count (trace (wrapper (handleConfigChange lib_ok gpu_config sample_done))) = 2 \<and>
   preload_count (trace (wrapper (handleConfigChange lib_ok
      (defaultConfig\<lparr>output := (output defaultConfig)\<lparr>format := Image_jpeg\<rparr>\<rparr>) sample_done))) = 1"
  using config_change_reloads_iff_model_options [of lib_ok gpu_config sample_done]
    config_change_reloads_iff_model_options [of lib_ok
      "defaultConfig\<lparr>output := (output defaultConfig)\<lparr>format := Image_jpeg\<rparr>\<rparr>" sample_done]
  by (simp add: sample_done_eq preload_options_of_def gpu_config_def initial_app_state_def)

text \<open>
  \<^bold>\<open>C36\<close> (error). A file that is not accepted changes nothing but the error shown: no
  object URL is created, the library is not called, a result on display stays. The type
  check comes first (\<open>Invalid_image_file\<close> for a type that does not start with
  \<open>image/\<close>), then the size check (\<open>File_too_large\<close> for more than 10485760 bytes; a
  file of exactly 10 MiB is accepted).
\<close>

theorem rejected_file_changes_only_error:
  assumes "\<not> accepted file"
  shows "handleFileSelect lib file s =
     s\<lparr>ui := (ui s)\<lparr>error :=
        Some (if prefix ''image/'' (file_type file) then File_too_large
              else Invalid_image_file)\<rparr>\<rparr> \<and>
     (prefix ''image/'' (file_type file) \<longrightarrow> 10485760 < file_size file)"
  using assms
  by (auto simp: handleFileSelect_rejected setError_def accepted_def max_file_size_def)

theorem rejected_file_changes_only_error_witness:
  "\<not> accepted (sample_file\<lparr>file_size := 10485761\<rparr>) \<and>
   accepted (sample_file\<lparr>file_size := 10485760\<rparr>) \<and>
   accepted (sample_file\<lparr>file_type := ''image/gif''\<rparr>) \<and>
   error (ui (handleFileSelect lib_ok (sample_file\<lparr>file_size := 10485761\<rparr>) sample_done)) =
     Some File_too_large"
  using rejected_file_changes_only_error
    [of "sample_file\<lparr>file_size := 10485761\<rparr>" lib_ok sample_done]
  by (simp add: accepted_def max_file_size_def sample_file_def)

text \<open>
  \<^bold>\<open>C35\<close> (functional). When the upload area is rendered, the first selected file is
  accepted and the library returns a blob for it under the current configuration, then
  after the event the result is on display under the file's name, its \<open>original\<close> URL
  points to the file and its \<open>processed\<close> URL to that blob, no error is shown, and the
  upload area is gone.
\<close>

theorem successful_select_shows_result:
  assumes "app_reachable lib s" and "enabled s (FileChange (f # fs))" and "accepted f"
    and "removeBackground lib (trace (wrapper s)) f (config (ui s)) = Resolved blob"
  shows "\<exists>img. processedImage (ui (handle lib (FileChange (f # fs)) s)) = Some img \<and>
           filename img = file_name f \<and>
           map_of (object_urls (dom (handle lib (FileChange (f # fs)) s))) (original img) =
             Some (File_object f) \<and>
           map_of (object_urls (dom (handle lib (FileChange (f # fs)) s))) (processed img) =
             Some (Blob_object blob) \<and>
           error (ui (handle lib (FileChange (f # fs)) s)) = None \<and>
           show_results (handle lib (FileChange (f # fs)) s) \<and>
           \<not> show_upload (handle lib (FileChange (f # fs)) s)"
proof -
  from assms(2) have up: "show_upload s" by simp
  from app_reachable_inv [OF assms(1)]
  have "\<forall>u \<in> fst ` set (object_urls (dom s)). u < next_url (dom s)"
    by (simp add: app_inv_def urls_inv_def)
  note fresh = map_of_two_fresh [OF this]
  from handleFileSelect_ok [OF assms(3) reachable_ready(1) [OF assms(1) up] assms(4)]
  show ?thesis
    by (simp add: handle_file_list fresh show_results_def show_upload_def del: map_of_append)
qed

theorem successful_select_shows_result_witness:
  "app_reachable lib_ok (mounted lib_ok) \<and>
   enabled (mounted lib_ok) (FileChange [sample_file]) \<and> accepted sample_file \<and>
   processedImage (ui (handle lib_ok (FileChange [sample_file]) (mounted lib_ok))) =
     Some \<lparr>original = 0, processed = 1, filename = ''cat.png''\<rparr> \<and>
   map_of (object_urls (dom (handle lib_ok (FileChange [sample_file]) (mounted lib_ok)))) 1 =
     Some (Blob_object Image_png)"
proof -
  have e: "enabled (mounted lib_ok) (FileChange [sample_file])"
    by (simp add: mounted_lib_ok show_upload_def initial_app_state_def)
  have r: "removeBackground lib_ok (trace (wrapper (mounted lib_ok))) sample_file
     (config (ui (mounted lib_ok))) = Resolved Image_png"
    by (simp add: mounted_lib_ok initial_app_state_def)
  have h: "handle lib_ok (FileChange [sample_file]) (mounted lib_ok) = sample_done"
    using e by (simp add: sample_done_def)
  from successful_select_shows_result [OF sample_reachable(1) e sample_file_accepted r]
    sample_reachable(1) e sample_file_accepted
  show ?thesis unfolding h by (simp add: sample_done_eq)
qed

text \<open>
  The reset button, in any reachable state that renders it: the
  result and the error are cleared; both URLs of the result are revoked, so that only the
  URLs of failed removals stay live; the file input did not exist when the button was
  clicked (the branch on \<open>fileInputRef.current\<close> is never taken), and after the click it
  is mounted anew with an empty value if the model is loaded.
\<close>

theorem reset_releases_result:
  assumes "app_reachable lib s" and "enabled s ResetClick"
  shows "processedImage (ui (handle lib ResetClick s)) = None \<and>
         error (ui (handle lib ResetClick s)) = None \<and>
         set (urls_of (processedImage (ui s))) \<inter>
           fst ` set (object_urls (dom (handle lib ResetClick s))) = {} \<and>
         length (object_urls (dom (handle lib ResetClick s))) =
           failed_removals (trace (wrapper s)) \<and>
         fileInput (dom s) = None \<and>
         fileInput (dom (handle lib ResetClick s)) =
           (if modelLoaded (ui s) then Some [] else None)"
proof -
  have inv: "app_inv s" and inv': "app_inv (handle lib ResetClick s)"
    using assms by (simp_all add: app_reachable_inv app_inv_handle)
  from inv assms(2) have none: "fileInput (dom s) = None"
    by (auto simp: app_inv_def input_inv_def show_results_def show_upload_def)
  have ui: "ui (handle lib ResetClick s) = (ui s)\<lparr>processedImage := None, error := None\<rparr>"
    and w: "wrapper (handle lib ResetClick s) = wrapper s"
    by (simp_all add: handle_def reset_eq)
  from inv' have "length (object_urls (dom (handle lib ResetClick s))) =
      failed_removals (trace (wrapper s))"
    unfolding app_inv_def urls_inv_def w ui by simp
  moreover have "set (urls_of (processedImage (ui s))) \<inter>
      fst ` set (object_urls (dom (handle lib ResetClick s))) = {}"
    by (auto simp: handle_def reset_eq)
  moreover from inv none have "fileInput (dom (handle lib ResetClick s)) =
      (if modelLoaded (ui s) then Some [] else None)"
    by (simp add: handle_def reset_eq render_def show_upload_def app_inv_def model_inv_def)
  ultimately show ?thesis using none by (simp add: ui)
qed

theorem reset_releases_result_witness:
  "app_reachable lib_ok sample_done \<and> enabled sample_done ResetClick \<and>
   object_urls (dom sample_done) = [(0, File_object sample_file), (1, Blob_object Image_png)] \<and>
   object_urls (dom (handle lib_ok ResetClick sample_done)) = [] \<and>
   fileInput (dom (handle lib_ok ResetClick sample_done)) = Some []"
proof -
  have e: "enabled sample_done ResetClick"
    by (simp add: sample_done_eq show_results_def)
  from reset_releases_result [OF sample_reachable(2) e] sample_reachable(2) e
  show ?thesis by (simp add: sample_done_eq initial_app_state_def)
qed

lemma handle_format_click:
  "handle lib (Panel (FormatButton f)) s =
     render (setConfig ((config (ui s))\<lparr>output := (output (config (ui s)))\<lparr>format := f\<rparr>\<rparr>) s)"
  by (simp add: handle_def panel_click_simps handleConfigChange_same model_options_changed_def
      del: panel_click.simps)

text \<open>
  \<^bold>\<open>C37\<close> (functional). The download is named after the configuration at the time of the
  click, not the one the image was processed with: choosing another format and then
  pressing download keeps the processed blob and makes no library call, and the file name
  carries the extension of the newly chosen format.
\<close>

theorem download_named_by_current_config:
  assumes "processedImage (ui s) = Some img"
  shows "downloads (dom (handle_all lib [Panel (FormatButton f), DownloadClick] s)) =
           downloads (dom s) @
             [(processed img,
               download_name ((config (ui s))\<lparr>output := (output (config (ui s)))\<lparr>format := f\<rparr>\<rparr>)
                 (filename img))] \<and>
         object_urls (dom (handle_all lib [Panel (FormatButton f), DownloadClick] s)) =
           object_urls (dom s) \<and>
         trace (wrapper (handle_all lib [Panel (FormatButton f), DownloadClick] s)) =
           trace (wrapper s)"
  using assms
  by (simp add: handle_format_click show_results_def setConfig_def)
     (simp add: handle_def downloadImage_def)

theorem download_named_by_current_config_witness:
  "processedImage (ui sample_done) =
     Some \<lparr>original = 0, processed = 1, filename = ''cat.png''\<rparr> \<and>
   map_of (object_urls (dom sample_done)) 1 = Some (Blob_object Image_png) \<and>
   downloads (dom (handle_all lib_ok [Panel (FormatButton Image_jpeg), DownloadClick]
     sample_done)) = [(1, ''no-bg-cat.jpg'')]"
proof -
  have p: "processedImage (ui sample_done) =
     Some \<lparr>original = 0, processed = 1, filename = ''cat.png''\<rparr>"
    by (simp add: sample_done_eq)
  have n: "download_name
      ((config (ui sample_done))\<lparr>output := (output (config (ui sample_done)))\<lparr>format := Image_jpeg\<rparr>\<rparr>)
      ''cat.png'' = ''no-bg-cat.jpg''"
    by (simp add: sample_done_eq initial_app_state_def download_name_def outputType_cases
        extension_cases ext_char_def)
  from download_named_by_current_config [OF p, of lib_ok Image_jpeg] p n
  show ?thesis by (simp add: sample_done_eq)
qed

text \<open>
  \<^bold>\<open>C38\<close> (liveness). While \<open>modelLoaded\<close> is false the only event that can make it true
  is a click in the settings panel that changes \<open>model\<close>, \<open>device\<close> or \<open>debug\<close>: there is
  no retry control, and selecting the options already chosen does not retry a failed
  load.
\<close>

theorem loading_left_only_by_model_option_change:
  assumes "\<not> modelLoaded (ui s)" and "enabled s ev" and "modelLoaded (ui (handle lib ev s))"
  shows "\<exists>pev c. ev = Panel pev \<and> panel_click (config (ui s)) pev = OnConfigChange c \<and>
           model_options_changed c (config (ui s))"
proof (cases ev)
  case (Panel pev)
  show ?thesis
  proof (cases "panel_click (config (ui s)) pev")
    case (OnConfigChange c)
    have "model_options_changed c (config (ui s))"
    proof (rule ccontr)
      assume "\<not> model_options_changed c (config (ui s))"
      with assms Panel OnConfigChange show False
        by (simp add: handle_def handleConfigChange_same setConfig_def)
    qed
    with Panel OnConfigChange show ?thesis by simp
  next
    case OnToggle
    with assms Panel show ?thesis by (simp add: handle_def onToggle_def setter_defs)
  qed
qed (use assms in \<open>simp_all add: handle_def show_upload_def downloadImage_def reset_eq
      split: option.splits\<close>)

theorem loading_left_only_by_model_option_change_witness:
  "\<not> modelLoaded (ui (mounted lib_flaky)) \<and>
   enabled (mounted lib_flaky) (Panel (DeviceButton Gpu)) \<and>
   modelLoaded (ui (handle lib_flaky (Panel (DeviceButton Gpu)) (mounted lib_flaky))) \<and>
   model_options_changed (defaultConfig\<lparr>device := Gpu\<rparr>) defaultConfig"
proof -
  have m: "mounted lib_flaky =
     \<lparr>ui = initial_app_state\<lparr>error := Some Model_load_failed_refresh, loadingProgress := 20\<rparr>,
      wrapper = \<lparr>isModelLoaded = False,
                 trace = [PreloadCall (preload_options_of defaultConfig) (Rejected ''timeout''),
                          WrapperLog Failed_to_preload_model (LibThrown ''timeout''),
                          AppLog Model_load_failed (LibThrown ''timeout'')]\<rparr>,
      dom = \<lparr>object_urls = [], next_url = 0, downloads = [], fileInput = None\<rparr>\<rparr>"
    by (simp add: br_defs Let_def)
  have a: "\<not> modelLoaded (ui (mounted lib_flaky))"
    and e: "enabled (mounted lib_flaky) (Panel (DeviceButton Gpu))"
    by (simp_all add: m initial_app_state_def)
  have c: "model_options_changed (defaultConfig\<lparr>device := Gpu\<rparr>) defaultConfig"
    by (simp add: model_options_changed_def)
  have "handle lib_flaky (Panel (DeviceButton Gpu)) (mounted lib_flaky) =
      render (handleConfigChange lib_flaky (defaultConfig\<lparr>device := Gpu\<rparr>) (mounted lib_flaky))"
    by (simp add: handle_def panel_click_simps m initial_app_state_def del: panel_click.simps)
  also have "modelLoaded (ui \<dots>)"
    by (subst handleConfigChange_ok [where u = "()"])
       (simp_all add: m initial_app_state_def c)
  finally have l: "modelLoaded (ui (handle lib_flaky (Panel (DeviceButton Gpu)) (mounted lib_flaky)))" .
  from loading_left_only_by_model_option_change [OF a e l] a e l c show ?thesis by simp
qed

lemma handleConfigChange_ui_frame [br_frame]:
  "config (ui (handleConfigChange lib c s)) = c"
  "configPanelOpen (ui (handleConfigChange lib c s)) = configPanelOpen (ui s)"
  by (cases rule: handleConfigChange_cases [where c = c and s = s and lib = lib];
      simp add: handleConfigChange_same handleConfigChange_ok handleConfigChange_failed
        setConfig_def)+

lemma handle_panel_step:
  "(config (ui (handle lib (Panel ev) s)), configPanelOpen (ui (handle lib (Panel ev) s))) =
     (case panel_click (config (ui s)) ev of
        OnConfigChange c' \<Rightarrow> (c', configPanelOpen (ui s))
      | OnToggle \<Rightarrow> (config (ui s), \<not> configPanelOpen (ui s)))"
  by (cases "panel_click (config (ui s)) ev")
     (simp_all add: handle_def br_frame onToggle_def setConfigPanelOpen_def)

lemma lib_once_simps [simp]:
  "preload lib_once tr opts = (if preload_count tr = 0 then Resolved () else Rejected ''timeout'')"
  "removeBackground lib_once tr f c = Resolved (format (output c))"
  by (simp_all add: lib_once_def)

lemma mounted_lib_once: "mounted lib_once = mounted lib_ok"
  by (simp add: br_defs Let_def)

lemma sample_done_once: "handle_all lib_once [FileChange [sample_file]] (mounted lib_once) = sample_done"
proof -
  have "handleFileSelect lib_once sample_file (mounted lib_ok) =
        handleFileSelect lib_ok sample_file (mounted lib_ok)"
    by (simp add: handleFileSelect_ok [where blob = Image_png] sample_file_accepted mounted_lib_ok
        initial_app_state_def defaultConfig_def)
  then show ?thesis
    by (simp add: sample_done_def mounted_lib_once handle_file_list)
qed

lemma model_option_click_enabled:
  assumes "panel_click c pev = OnConfigChange c'" and "model_options_changed c' c"
  shows "panel_enabled isOpen pev"
proof -
  from assms(1) have "changed_config (panel_click c pev) = Some c'" by simp
  with assms(2) show ?thesis
    unfolding panel_click_eq by (cases pev) (auto simp: model_options_changed_def)
qed

text \<open>
  \<^bold>\<open>C39\<close> (liveness). A failed reload can be hidden. In a reachable state with a result
  on display, a settings change whose reload fails followed by the reset button leaves a
  reachable state in which the loading indicator is shown without an error message, no
  load is under way, neither the upload area nor a result is rendered and the module is
  not ready: \<open>reset\<close> calls \<open>setError(null)\<close> whatever the message is about. The only
  controls left are those of the settings panel.
\<close>

theorem reset_hides_load_failure:
  assumes "app_reachable lib s" and "show_results s"
    and "panel_click (config (ui s)) pev = OnConfigChange c"
    and "model_options_changed c (config (ui s))"
    and "preload lib (trace (wrapper s)) (preload_options_of c) = Rejected e"
  shows "app_reachable lib (handle_all lib [Panel pev, ResetClick] s) \<and>
         show_loading (handle_all lib [Panel pev, ResetClick] s) \<and>
         \<not> show_error (handle_all lib [Panel pev, ResetClick] s) \<and>
         \<not> show_upload (handle_all lib [Panel pev, ResetClick] s) \<and>
         \<not> show_processing (handle_all lib [Panel pev, ResetClick] s) \<and>
         \<not> show_results (handle_all lib [Panel pev, ResetClick] s) \<and>
         \<not> isModelReady (wrapper (handle_all lib [Panel pev, ResetClick] s)) \<and>
         (\<forall>ev. enabled (handle_all lib [Panel pev, ResetClick] s) ev \<longrightarrow> (\<exists>p. ev = Panel p))"
proof -
  from app_reachable_inv [OF assms(1)] have p: "\<not> isProcessing (ui s)"
    by (simp add: app_inv_def model_inv_def)
  from assms(3,4) have en: "enabled s (Panel pev)"
    by (simp add: model_option_click_enabled)
  have h: "handle lib (Panel pev) s =
    render (s\<lparr>ui := (ui s)\<lparr>error := Some Model_reload_failed_check_config, modelLoaded := False,
                     loadingProgress := 20, config := c\<rparr>,
       wrapper := (wrapper s)\<lparr>isModelLoaded := False,
          trace := trace (wrapper s) @
            [PreloadCall (preload_options_of c) (Rejected e),
             WrapperLog Failed_to_preload_model (LibThrown e),
             AppLog Model_reload_failed (LibThrown e)]\<rparr>\<rparr>)"
    using assms(3) by (simp add: handle_def handleConfigChange_failed [OF assms(4,5)])
  with assms(2) have en2: "enabled (handle lib (Panel pev) s) ResetClick"
    by (simp add: show_results_def)
  from en en2 have "app_reachable lib (handle_all lib [Panel pev, ResetClick] s)"
    by (intro app_reachable_handle_all assms(1))
  moreover from en en2 p h assms(2) have
    "show_loading (handle_all lib [Panel pev, ResetClick] s) \<and>
     \<not> show_error (handle_all lib [Panel pev, ResetClick] s) \<and>
     \<not> show_upload (handle_all lib [Panel pev, ResetClick] s) \<and>
     \<not> show_processing (handle_all lib [Panel pev, ResetClick] s) \<and>
     \<not> show_results (handle_all lib [Panel pev, ResetClick] s) \<and>
     \<not> isModelReady (wrapper (handle_all lib [Panel pev, ResetClick] s))"
    by (simp add: handle_def reset_eq show_loading_def show_error_def show_upload_def
        show_processing_def show_results_def isModelReady_def)
  moreover have "\<exists>p. ev = Panel p"
    if "enabled s' ev" "\<not> show_upload s'" "\<not> show_results s'"
    for ev and s' :: "('a, 'b) system"
    using that by (cases ev) simp_all
  ultimately show ?thesis by blast
qed

theorem reset_hides_load_failure_witness:
  "app_reachable lib_once sample_done \<and> show_results sample_done \<and>
   show_loading (handle_all lib_once [Panel (DeviceButton Gpu), ResetClick] sample_done) \<and>
   \<not> show_error (handle_all lib_once [Panel (DeviceButton Gpu), ResetClick] sample_done) \<and>
   \<not> show_upload (handle_all lib_once [Panel (DeviceButton Gpu), ResetClick] sample_done)"
proof -
  have r: "app_reachable lib_once sample_done"
    using app_reachable_handle_all [OF app_reachable.mount, of lib_once "[FileChange [sample_file]]"]
    by (simp only: sample_done_once)
  have s: "show_results sample_done"
    by (simp add: sample_done_eq show_results_def initial_app_state_def)
  have c: "panel_click (config (ui sample_done)) (DeviceButton Gpu) =
             OnConfigChange (defaultConfig\<lparr>device := Gpu\<rparr>)"
    by (simp add: sample_done_eq initial_app_state_def panel_click_simps del: panel_click.simps)
  have m: "model_options_changed (defaultConfig\<lparr>device := Gpu\<rparr>) (config (ui sample_done))"
    by (simp add: sample_done_eq initial_app_state_def model_options_changed_def)
  have p: "preload lib_once (trace (wrapper sample_done))
             (preload_options_of (defaultConfig\<lparr>device := Gpu\<rparr>)) = Rejected ''timeout''"
    by (simp add: sample_done_eq preload_count_def)
  from reset_hides_load_failure [OF r s c m p] r s show ?thesis by simp
qed

end
