(* ===== verification/AppAsync.thy ===== *)
theory AppAsync
  imports App
begin

text \<open>
  The application when its handlers interleave at their \<open>await\<close>s.

  In \<open>App\<close> a handler runs to its end before the next event. In the browser a handler
  runs until its first pending \<open>await\<close> and returns; the rest of it runs when the awaited
  call of the library settles, and other handlers may run in between. Three handlers of
  \<^verbatim>\<open>src/src/App.tsx\<close> await: \<open>initModel\<close> and \<open>handleConfigChange\<close> await \<open>loadModel\<close>,
  which awaits \<open>preload\<close>; \<open>handleFileSelect\<close> awaits \<open>processImageBackgroundRemoval\<close>,
  which awaits \<open>removeBackground\<close>.

  \<^item> \<open>task\<close> is a handler suspended at its \<open>await\<close>, with the values its closure holds.
  \<^item> \<open>begin_\<dots>\<close> is the part of a handler up to the \<open>await\<close>: the new state and the task
    it leaves pending, if any. \<open>finish_\<dots>\<close> is the part after it, given the outcome of
    the library call. \<open>finish_preload\<close> and \<open>finish_removeBackground\<close> are the parts of
    the wrapper's functions after their \<open>await\<close>.
  \<^item> \<open>async_event\<close>: the user raises an event, or the library settles a pending call
    with an answer of its choice. \<open>async_exec\<close> is one step, \<open>async_run\<close> a sequence of
    them, \<open>async_reachable\<close> the states after the mount effect and any steps.
  \<^item> \<open>serial\<close> is the schedule in which every call settles before the next event.

  The lemmas show that the serial schedule is the behaviour defined in \<open>App\<close>, that at
  most one inference is ever pending, and two schedules in which the component ends up
  in states that \<open>App\<close> excludes.
\<close>

section \<open>Definitions\<close>

subsection \<open>Pending calls\<close>

datatype task =
    InitLoad preload_options
  | Reload preload_options
  | Removal dom_file config url

datatype ('e, 'b) answer =
    Preloaded "('e, unit) outcome"
  | Removed "('e, 'b) outcome"

record ('e, 'b) async_state =
  sys :: "('e, 'b) system"
  pending :: "task list"

fun is_removal :: "task \<Rightarrow> bool" where
  "is_removal (Removal f c u) = True"
| "is_removal _ = False"

subsection \<open>The wrapper after its awaits\<close>

definition finish_preload ::
  "preload_options \<Rightarrow> ('e, unit) outcome \<Rightarrow> ('e, 'b) world \<Rightarrow>
     ('e caught, unit) outcome \<times> ('e, 'b) world" where
  "finish_preload opts r w =
     (let w1 = w\<lparr>trace := trace w @ [PreloadCall opts r]\<rparr>
      in case r of
           Inr _ \<Rightarrow> (Resolved (), w1\<lparr>isModelLoaded := True\<rparr>)
         | Inl e \<Rightarrow>
             (Rejected (LibThrown e),
              console_error Failed_to_preload_model (LibThrown e) w1))"

definition finish_removeBackground ::
  "dom_file \<Rightarrow> config \<Rightarrow> ('e, 'b) outcome \<Rightarrow> ('e, 'b) world \<Rightarrow>
     ('e caught, 'b) outcome \<times> ('e, 'b) world" where
  "finish_removeBackground imageFile c r w =
     (let w1 = w\<lparr>trace := trace w @ [RemoveBackgroundCall imageFile c r]\<rparr>
      in removal_catch
           (case r of
              Inr blob \<Rightarrow> (Resolved blob, w1)
            | Inl e \<Rightarrow> (Rejected (LibThrown e), w1)))"

subsection \<open>The handlers before and after their awaits\<close>

definition begin_initModel :: "('e, 'b) system \<Rightarrow> ('e, 'b) system \<times> task list" where
  "begin_initModel s =
     (let s1 = setLoadingProgress 20 s
      in if isModelLoaded (wrapper s1)
         then (setModelLoaded True (setLoadingProgress 100 s1), [])
         else (s1, [InitLoad (preload_options_of (config (ui s)))]))"

definition finish_initModel ::
  "preload_options \<Rightarrow> ('e, unit) outcome \<Rightarrow> ('e, 'b) system \<Rightarrow> ('e, 'b) system" where
  "finish_initModel opts r s =
     (let (res, w) = finish_preload opts r (wrapper s);
          s2 = s\<lparr>wrapper := w\<rparr>
      in case res of
           Inr _ \<Rightarrow> setModelLoaded True (setLoadingProgress 100 s2)
         | Inl err \<Rightarrow>
             setModelLoaded False
               (setError (Some Model_load_failed_refresh)
                  (app_console_error Model_load_failed err s2)))"

definition begin_handleConfigChange ::
  "config \<Rightarrow> ('e, 'b) system \<Rightarrow> ('e, 'b) system \<times> task list" where
  "begin_handleConfigChange newConfig s =
     (let s1 = setConfig newConfig s
      in if model_options_changed newConfig (config (ui s))
         then
           (let s2 = setLoadingProgress 0 (setModelLoaded False s1);
                s3 = s2\<lparr>wrapper := resetModel (wrapper s2)\<rparr>;
                s4 = setLoadingProgress 20 s3
            in if isModelLoaded (wrapper s4)
               then (setError None (setModelLoaded True (setLoadingProgress 100 s4)), [])
               else (s4, [Reload (preload_options_of newConfig)]))
         else (s1, []))"

definition finish_handleConfigChange ::
  "preload_options \<Rightarrow> ('e, unit) outcome \<Rightarrow> ('e, 'b) system \<Rightarrow> ('e, 'b) system" where
  "finish_handleConfigChange opts r s =
     (let (res, w) = finish_preload opts r (wrapper s);
          s5 = s\<lparr>wrapper := w\<rparr>
      in case res of
           Inr _ \<Rightarrow> setError None (setModelLoaded True (setLoadingProgress 100 s5))
         | Inl err \<Rightarrow>
             setModelLoaded False
               (setError (Some Model_reload_failed_check_config)
                  (app_console_error Model_reload_failed err s5)))"

text \<open>
  \<open>handleFileSelect\<close> has tested \<open>isModelReady()\<close> in the same run in which it calls
  \<open>processImageBackgroundRemoval\<close>, so that function finds the flag set and goes to
  \<open>removeBackground\<close> at once.
\<close>

definition begin_handleFileSelect ::
  "dom_file \<Rightarrow> ('e, 'b) system \<Rightarrow> ('e, 'b) system \<times> task list" where
  "begin_handleFileSelect file s =
     (if \<not> prefix ''image/'' (file_type file) then (setError (Some Invalid_image_file) s, [])
      else if file_size file > max_file_size then (setError (Some File_too_large) s, [])
      else if \<not> isModelReady (wrapper s) then (setError (Some Model_not_ready_yet) s, [])
      else
        (let s1 = setIsProcessing True (setError None s);
             (originalUrl, s2) = createObjectURL (File_object file) s1
         in (s2, [Removal file (config (ui s)) originalUrl])))"

definition finish_handleFileSelect ::
  "dom_file \<Rightarrow> config \<Rightarrow> url \<Rightarrow> ('e, 'b) outcome \<Rightarrow> ('e, 'b) system \<Rightarrow> ('e, 'b) system" where
  "finish_handleFileSelect file c originalUrl r s =
     (let (res, w) = finish_removeBackground file c r (wrapper s);
          s3 = s\<lparr>wrapper := w\<rparr>;
          s4 = (case res of
                  Inr processedBlob \<Rightarrow>
                    (let (processedUrl, s') = createObjectURL (Blob_object processedBlob) s3
                     in setProcessedImage
                          (Some \<lparr>original = originalUrl, processed = processedUrl,
                                 filename = file_name file\<rparr>) s')
                | Inl err \<Rightarrow>
                    app_console_error Background_removal_error err
                      (setError (Some (message_of err)) s3))
      in setIsProcessing False s4)"

fun start_handler :: "app_event \<Rightarrow> ('e, 'b) system \<Rightarrow> ('e, 'b) system \<times> task list" where
  "start_handler Mount s = begin_initModel s"
| "start_handler (Panel ev) s =
     (case panel_click (config (ui s)) ev of
        OnConfigChange c \<Rightarrow> begin_handleConfigChange c s
      | OnToggle \<Rightarrow> (onToggle s, []))"
| "start_handler (Drop files) s =
     (let s1 = setDragOver False s
      in case files of file # _ \<Rightarrow> begin_handleFileSelect file s1 | [] \<Rightarrow> (s1, []))"
| "start_handler DragOver s = (handleDragOver s, [])"
| "start_handler DragLeave s = (handleDragLeave s, [])"
| "start_handler (FileChange files) s =
     (case files of file # _ \<Rightarrow> begin_handleFileSelect file s | [] \<Rightarrow> (s, []))"
| "start_handler DownloadClick s = (downloadImage s, [])"
| "start_handler ResetClick s = (reset s, [])"

fun finish_handler :: "task \<Rightarrow> ('e, 'b) answer \<Rightarrow> ('e, 'b) system \<Rightarrow> ('e, 'b) system option" where
  "finish_handler (InitLoad opts) (Preloaded r) s = Some (finish_initModel opts r s)"
| "finish_handler (Reload opts) (Preloaded r) s = Some (finish_handleConfigChange opts r s)"
| "finish_handler (Removal f c u) (Removed r) s = Some (finish_handleFileSelect f c u r s)"
| "finish_handler _ _ s = None"

subsection \<open>Steps\<close>

datatype ('e, 'b) async_event = User app_event | Settle nat "('e, 'b) answer"

fun async_exec ::
  "('e, 'b) async_event \<Rightarrow> ('e, 'b) async_state \<Rightarrow> ('e, 'b) async_state option" where
  "async_exec (User ev) a =
     (if enabled (sys a) ev
      then (let (s', ts) = start_handler ev (sys a)
            in Some \<lparr>sys = render s', pending = pending a @ ts\<rparr>)
      else None)"
| "async_exec (Settle i r) a =
     (if i < length (pending a)
      then map_option
             (\<lambda>s'. \<lparr>sys = render s', pending = take i (pending a) @ drop (Suc i) (pending a)\<rparr>)
             (finish_handler (pending a ! i) r (sys a))
      else None)"

fun async_run ::
  "('e, 'b) async_event list \<Rightarrow> ('e, 'b) async_state \<Rightarrow> ('e, 'b) async_state option" where
  "async_run [] a = Some a"
| "async_run (e # es) a = (case async_exec e a of None \<Rightarrow> None | Some a' \<Rightarrow> async_run es a')"

definition async_mounted :: "('e, 'b) async_state" where
  "async_mounted =
     (let (s', ts) = start_handler Mount (render initial_system)
      in \<lparr>sys = render s', pending = ts\<rparr>)"

inductive async_reachable :: "('e, 'b) async_state \<Rightarrow> bool" where
  start: "async_reachable async_mounted"
| step: "async_reachable a \<Longrightarrow> async_exec e a = Some a' \<Longrightarrow> async_reachable a'"

subsection \<open>The serial schedule\<close>

text \<open>The answer of a library to a pending call that it is asked to settle in state \<open>s\<close>.\<close>

fun answer_of :: "('e, 'b) library \<Rightarrow> task \<Rightarrow> ('e, 'b) system \<Rightarrow> ('e, 'b) answer" where
  "answer_of lib (InitLoad opts) s = Preloaded (preload lib (trace (wrapper s)) opts)"
| "answer_of lib (Reload opts) s = Preloaded (preload lib (trace (wrapper s)) opts)"
| "answer_of lib (Removal f c u) s = Removed (removeBackground lib (trace (wrapper s)) f c)"

text \<open>Settle what is pending, oldest first, with the answers of \<open>lib\<close>.\<close>

fun settle_all ::
  "('e, 'b) library \<Rightarrow> nat \<Rightarrow> ('e, 'b) async_state \<Rightarrow> ('e, 'b) async_state option" where
  "settle_all lib 0 a = Some a"
| "settle_all lib (Suc n) a =
     (case pending a of
        [] \<Rightarrow> Some a
      | t # _ \<Rightarrow>
          (case async_exec (Settle 0 (answer_of lib t (sys a))) a of
             None \<Rightarrow> None
           | Some a' \<Rightarrow> settle_all lib n a'))"

definition serial ::
  "('e, 'b) library \<Rightarrow> app_event \<Rightarrow> ('e, 'b) async_state \<Rightarrow> ('e, 'b) async_state option" where
  "serial lib ev a =
     (case async_exec (User ev) a of
        None \<Rightarrow> None
      | Some a' \<Rightarrow> settle_all lib (length (pending a')) a')"

text \<open>Two states that differ at most in the file input.\<close>

definition same_but_input :: "('e, 'b) system \<Rightarrow> ('e, 'b) system \<Rightarrow> bool" where
  "same_but_input s s' \<longleftrightarrow>
     ui s = ui s' \<and> wrapper s = wrapper s' \<and>
     object_urls (dom s) = object_urls (dom s') \<and> next_url (dom s) = next_url (dom s') \<and>
     downloads (dom s) = downloads (dom s')"

text \<open>The number of inferences pending, and the invariant that ties it to \<open>isProcessing\<close>.\<close>

definition removals :: "task list \<Rightarrow> nat" where
  "removals ts = length (filter is_removal ts)"

definition async_inv :: "('e, 'b) async_state \<Rightarrow> bool" where
  "async_inv a \<longleftrightarrow> removals (pending a) = (if isProcessing (ui (sys a)) then 1 else 0)"

text \<open>
  What holds under every schedule. \<open>async_model_inv\<close>: the wrapper's invariant; the
  component shows the model as loaded only if the module has it loaded; an inference is
  pending only if some preload has succeeded; the configuration is well formed; the
  progress bar stands at 20 or at 100, and at 100 when the model is shown as loaded; the
  messages of the readiness guard and of the \<open>instanceof\<close> fallback are not on display.
  \<open>async_urls_inv\<close>: the live object URLs are those of the result on display, one for
  every failed removal, and the URLs of the uploads whose inference is pending
  (\<open>uploads\<close>); while one is pending no result is on display.
\<close>

definition async_model_inv :: "('e, 'b) async_state \<Rightarrow> bool" where
  "async_model_inv a \<longleftrightarrow>
     world_inv (wrapper (sys a)) \<and>
     (modelLoaded (ui (sys a)) \<longrightarrow> isModelLoaded (wrapper (sys a))) \<and>
     (0 < removals (pending a) \<longrightarrow> last_preloaded (trace (wrapper (sys a))) \<noteq> None) \<and>
     valid_config (config (ui (sys a))) \<and>
     loadingProgress (ui (sys a)) \<in> {20, 100} \<and>
     (modelLoaded (ui (sys a)) \<longrightarrow> loadingProgress (ui (sys a)) = 100) \<and>
     error (ui (sys a)) \<notin> {Some Model_not_ready_yet, Some Processing_error_retry}"

fun upload_of :: "task \<Rightarrow> url list" where
  "upload_of (Removal f c u) = [u]"
| "upload_of _ = []"

definition uploads :: "task list \<Rightarrow> url list" where
  "uploads ts = concat (map upload_of ts)"

definition async_urls_inv :: "('e, 'b) async_state \<Rightarrow> bool" where
  "async_urls_inv a \<longleftrightarrow>
     distinct (map fst (object_urls (dom (sys a)))) \<and>
     (\<forall>u \<in> fst ` set (object_urls (dom (sys a))). u < next_url (dom (sys a))) \<and>
     distinct (urls_of (processedImage (ui (sys a)))) \<and>
     set (urls_of (processedImage (ui (sys a)))) \<subseteq> fst ` set (object_urls (dom (sys a))) \<and>
     set (uploads (pending a)) \<subseteq> fst ` set (object_urls (dom (sys a))) \<and>
     length (object_urls (dom (sys a))) =
       length (urls_of (processedImage (ui (sys a)))) +
       failed_removals (trace (wrapper (sys a))) + length (uploads (pending a)) \<and>
     (uploads (pending a) \<noteq> [] \<longrightarrow> processedImage (ui (sys a)) = None)"

subsection \<open>Sample schedules\<close>

text \<open>
  \<open>sample_processing\<close>: the model loads, then a file is selected and its inference is
  pending. \<open>race_stale\<close>: the device is changed while the first load is pending, the first
  load resolves, a file is selected and processed while the second load is still
  pending. \<open>race_stuck\<close>: the device is changed while the first load is pending, the
  second load resolves, then the first one fails.
\<close>

definition sample_processing :: "(string, format) async_event list" where
  "sample_processing = [Settle 0 (Preloaded (Resolved ())), User (FileChange [sample_file])]"

definition race_stale :: "(string, format) async_event list" where
  "race_stale =
     [User (Panel (DeviceButton Gpu)), Settle 0 (Preloaded (Resolved ())),
      User (FileChange [sample_file]), Settle 1 (Removed (Resolved Image_png))]"

definition race_stuck :: "(string, format) async_event list" where
  "race_stuck =
     [User (Panel (DeviceButton Gpu)), Settle 1 (Preloaded (Resolved ())),
      Settle 0 (Preloaded (Rejected ''timeout''))]"

section \<open>Lemmas\<close>

lemma loadModel_split:
  "loadModel lib c w =
     (if isModelLoaded w then (Resolved (), w)
      else finish_preload (preload_options_of (or_default c))
             (preload lib (trace w) (preload_options_of (or_default c))) w)"
  by (cases "preload lib (trace w) (preload_options_of (or_default c))")
     (simp_all add: loadModel_def finish_preload_def effect_defs)

lemma processImage_split:
  assumes "isModelLoaded w"
  shows "processImageBackgroundRemoval lib f (Some c) w =
     finish_removeBackground f c (removeBackground lib (trace w) f c) w"
  using assms
  by (cases "removeBackground lib (trace w) f c")
     (simp_all add: processImageBackgroundRemoval_def removal_try_def finish_removeBackground_def
        effect_defs)

lemma initModel_split:
  "initModel lib s =
     (case begin_initModel s of
        (s', []) \<Rightarrow> s'
      | (s', t # ts) \<Rightarrow> finish_initModel (preload_options_of (config (ui s)))
          (preload lib (trace (wrapper s')) (preload_options_of (config (ui s)))) s')"
  by (simp add: initModel_def begin_initModel_def finish_initModel_def loadModel_split
      setLoadingProgress_def Let_def split: prod.splits sum.splits)

lemma handleConfigChange_split:
  "handleConfigChange lib c s =
     (case begin_handleConfigChange c s of
        (s', []) \<Rightarrow> s'
      | (s', t # ts) \<Rightarrow> finish_handleConfigChange (preload_options_of c)
          (preload lib (trace (wrapper s')) (preload_options_of c)) s')"
  by (simp add: handleConfigChange_def begin_handleConfigChange_def finish_handleConfigChange_def
      loadModel_split setLoadingProgress_def setModelLoaded_def setConfig_def Let_def
      split: prod.splits sum.splits)

lemma handleFileSelect_split:
  "handleFileSelect lib f s =
     (case begin_handleFileSelect f s of
        (s', []) \<Rightarrow> s'
      | (s', t # ts) \<Rightarrow> finish_handleFileSelect f (config (ui s)) (next_url (dom s))
          (removeBackground lib (trace (wrapper s')) f (config (ui s))) s')"
  by (simp add: handleFileSelect_def begin_handleFileSelect_def finish_handleFileSelect_def
      processImage_split isModelReady_def createObjectURL_def setIsProcessing_def setError_def
      Let_def split: prod.splits sum.splits)

lemma same_but_input_refl [simp]: "same_but_input s s"
  and same_but_input_render [simp]: "same_but_input (render s) s' = same_but_input s s'"
  and same_but_input_render2 [simp]: "same_but_input s (render s') = same_but_input s s'"
  by (simp_all add: same_but_input_def)

lemma finish_handler_same:
  assumes "same_but_input s s'"
  shows "rel_option same_but_input (finish_handler t ans s) (finish_handler t ans s')"
proof (cases "(t, ans, s)" rule: finish_handler.cases)
  case (1 opts r s0)
  with assms show ?thesis
    by (simp add: finish_initModel_def same_but_input_def setter_defs Let_def
        split: prod.splits sum.splits)
next
  case (2 opts r s0)
  with assms show ?thesis
    by (simp add: finish_handleConfigChange_def same_but_input_def setter_defs Let_def
        split: prod.splits sum.splits)
next
  case (3 f c u r s0)
  with assms show ?thesis
    by (simp add: finish_handleFileSelect_def same_but_input_def setter_defs Let_def
        split: prod.splits sum.splits)
qed simp_all

lemma answer_of_render [simp]: "answer_of lib t (render s) = answer_of lib t s"
  by (cases t) simp_all

lemma begin_handleFileSelect_eq:
  "begin_handleFileSelect f s = (handleFileSelect lib f s, []) \<or>
   (\<exists>s' t. begin_handleFileSelect f s = (s', [t]) \<and>
      finish_handler t (answer_of lib t s') s' = Some (handleFileSelect lib f s))"
proof -
  obtain s' ts where b: "begin_handleFileSelect f s = (s', ts)" by fastforce
  then have "ts = [] \<or> ts = [Removal f (config (ui s)) (next_url (dom s))]"
    by (auto simp: begin_handleFileSelect_def createObjectURL_def setIsProcessing_def
        setError_def Let_def split: if_splits)
  with b handleFileSelect_split [of lib f s] show ?thesis by auto
qed

lemma begin_initModel_eq:
  "begin_initModel s = (initModel lib s, []) \<or>
   (\<exists>s' t. begin_initModel s = (s', [t]) \<and>
      finish_handler t (answer_of lib t s') s' = Some (initModel lib s))"
proof -
  obtain s' ts where b: "begin_initModel s = (s', ts)" by fastforce
  then have "ts = [] \<or> ts = [InitLoad (preload_options_of (config (ui s)))]"
    by (auto simp: begin_initModel_def Let_def split: if_splits)
  with b initModel_split [of lib s] show ?thesis by auto
qed

lemma begin_handleConfigChange_eq:
  "begin_handleConfigChange c s = (handleConfigChange lib c s, []) \<or>
   (\<exists>s' t. begin_handleConfigChange c s = (s', [t]) \<and>
      finish_handler t (answer_of lib t s') s' = Some (handleConfigChange lib c s))"
proof -
  obtain s' ts where b: "begin_handleConfigChange c s = (s', ts)" by fastforce
  then have "ts = [] \<or> ts = [Reload (preload_options_of c)]"
    by (auto simp: begin_handleConfigChange_def Let_def split: if_splits)
  with b handleConfigChange_split [of lib c s] show ?thesis by auto
qed

lemma start_handler_eq:
  "start_handler ev s = (handler lib ev s, []) \<or>
   (\<exists>s' t. start_handler ev s = (s', [t]) \<and>
      finish_handler t (answer_of lib t s') s' = Some (handler lib ev s))"
proof (cases ev)
  case Mount
  with begin_initModel_eq [of s lib] show ?thesis by simp
next
  case (Panel pev)
  with begin_handleConfigChange_eq [of _ s lib] show ?thesis
    by (cases "panel_click (config (ui s)) pev") simp_all
next
  case (Drop files)
  with begin_handleFileSelect_eq [of _ "setDragOver False s" lib] show ?thesis
    by (cases files) (simp_all add: handleDrop_def Let_def)
next
  case (FileChange files)
  with begin_handleFileSelect_eq [of _ s lib] show ?thesis
    by (cases files) (simp_all add: handleFileChange_def)
qed simp_all

lemma start_handler_cases [case_names finished suspended]:
  assumes "start_handler ev s = (handler lib ev s, []) \<Longrightarrow> P"
    and "\<And>s' t. start_handler ev s = (s', [t]) \<Longrightarrow>
           finish_handler t (answer_of lib t s') s' = Some (handler lib ev s) \<Longrightarrow> P"
  shows P
  using start_handler_eq [of ev s lib] assms by blast

text \<open>
  When nothing is pending and every call of the library settles
  before the next event, the interleaving model does what \<open>App\<close> says: for every enabled
  event the serial schedule ends with nothing pending in the state \<open>handle\<close> gives, up to
  the file input, which is then mounted exactly when the upload area is rendered. So the
  handlers of \<open>App\<close> are the composition of their parts before and after the \<open>await\<close>.
\<close>

theorem serial_is_atomic:
  assumes "pending a = []" and "enabled (sys a) ev"
  shows "\<exists>a'. serial lib ev a = Some a' \<and> pending a' = [] \<and>
           same_but_input (sys a') (handle lib ev (sys a)) \<and> input_inv (sys a')"
proof (cases rule: start_handler_cases [of ev "sys a" lib])
  case finished
  with assms show ?thesis by (simp add: serial_def handle_def)
next
  case (suspended s' t)
  from finish_handler_same [of "render s'" s' t "answer_of lib t s'"] suspended(2)
  obtain s2 where s2: "finish_handler t (answer_of lib t s') (render s') = Some s2"
    and same: "same_but_input s2 (handler lib ev (sys a))"
    by (auto simp: option_rel_Some2)
  with assms suspended(1) show ?thesis by (simp add: serial_def handle_def)
qed

theorem serial_is_atomic_witness:
  "pending \<lparr>sys = mounted lib_ok, pending = []\<rparr> = [] \<and>
   enabled (sys \<lparr>sys = mounted lib_ok, pending = []\<rparr>) (FileChange [sample_file]) \<and>
   (\<exists>a'. serial lib_ok (FileChange [sample_file]) \<lparr>sys = mounted lib_ok, pending = []\<rparr> = Some a' \<and>
      pending a' = [] \<and> ui (sys a') = ui sample_done \<and> wrapper (sys a') = wrapper sample_done)"
proof -
  have e: "enabled (sys \<lparr>sys = mounted lib_ok, pending = []\<rparr>) (FileChange [sample_file])"
    by (simp add: mounted_lib_ok show_upload_def initial_app_state_def)
  then have h: "handle lib_ok (FileChange [sample_file]) (mounted lib_ok) = sample_done"
    by (simp add: sample_done_def)
  from serial_is_atomic [of "\<lparr>sys = mounted lib_ok, pending = []\<rparr>" "FileChange [sample_file]" lib_ok] e
  show ?thesis by (auto simp: h same_but_input_def)
qed

lemma removals_simps [simp]:
  "removals [] = 0"
  "removals (t # ts) = (if is_removal t then 1 else 0) + removals ts"
  "removals (ts @ ts') = removals ts + removals ts'"
  by (simp_all add: removals_def)

lemma removals_remove_nth:
  assumes "i < length ts"
  shows "removals (take i ts @ drop (Suc i) ts) + (if is_removal (ts ! i) then 1 else 0) =
         removals ts"
proof -
  from assms have "removals ts = removals (take i ts @ ts ! i # drop (Suc i) ts)"
    by (simp only: id_take_nth_drop [symmetric])
  then show ?thesis by simp
qed

lemma begin_handleFileSelect_processing:
  assumes "begin_handleFileSelect f s = (s', ts)" and "\<not> isProcessing (ui s)"
  shows "removals ts = (if isProcessing (ui s') then 1 else 0)"
  using assms
  by (auto simp: begin_handleFileSelect_def createObjectURL_def setIsProcessing_def setError_def
      Let_def split: if_splits)

lemma start_handler_processing:
  assumes "start_handler ev s = (s', ts)" and "enabled s ev"
  shows "removals ts + (if isProcessing (ui s) then 1 else 0) =
         (if isProcessing (ui s') then 1 else 0)"
proof (cases ev)
  case (Panel pev)
  with assms show ?thesis
    by (cases "panel_click (config (ui s)) pev")
       (auto simp: begin_handleConfigChange_def onToggle_def setter_defs Let_def resetModel_def
          split: if_splits)
next
  case (Drop files)
  with assms begin_handleFileSelect_processing [of _ "setDragOver False s" s' ts] show ?thesis
    by (cases files) (auto simp: show_upload_def Let_def setDragOver_def)
next
  case (FileChange files)
  with assms begin_handleFileSelect_processing [of _ s s' ts] show ?thesis
    by (cases files) (auto simp: show_upload_def)
next
  case DownloadClick
  with assms show ?thesis by (auto simp: downloadImage_def split: option.splits)
next
  case ResetClick
  with assms show ?thesis by (auto simp: reset_eq)
qed (use assms in \<open>auto simp: handleDragOver_def handleDragLeave_def setDragOver_def\<close>)

lemma finish_handler_processing:
  assumes "finish_handler t r s = Some s'"
  shows "isProcessing (ui s') = (if is_removal t then False else isProcessing (ui s))"
proof (cases "(t, r, s)" rule: finish_handler.cases)
  case (1 opts r0 s0)
  with assms show ?thesis
    by (auto simp: finish_initModel_def setter_defs Let_def split: prod.splits sum.splits)
next
  case (2 opts r0 s0)
  with assms show ?thesis
    by (auto simp: finish_handleConfigChange_def setter_defs Let_def
        split: prod.splits sum.splits)
next
  case (3 f c u r0 s0)
  with assms show ?thesis
    by (auto simp: finish_handleFileSelect_def setter_defs Let_def
        split: prod.splits sum.splits)
qed (use assms in simp_all)

lemma async_inv_exec:
  assumes "async_inv a" and "async_exec e a = Some a'"
  shows "async_inv a'"
proof (cases e)
  case (User ev)
  with assms(2) obtain s' ts where en: "enabled (sys a) ev"
    and st: "start_handler ev (sys a) = (s', ts)"
    and a': "a' = \<lparr>sys = render s', pending = pending a @ ts\<rparr>"
    by (auto split: if_splits prod.splits)
  from start_handler_processing [OF st en] assms(1) show ?thesis
    by (simp add: async_inv_def a' split: if_splits)
next
  case (Settle i r)
  with assms(2) obtain s' where i: "i < length (pending a)"
    and f: "finish_handler (pending a ! i) r (sys a) = Some s'"
    and a': "a' = \<lparr>sys = render s', pending = take i (pending a) @ drop (Suc i) (pending a)\<rparr>"
    by (auto split: if_splits)
  from removals_remove_nth [OF i] finish_handler_processing [OF f] assms(1) show ?thesis
    by (simp add: async_inv_def a' split: if_splits)
qed

lemma async_inv_mounted: "async_inv async_mounted"
  by (simp add: async_inv_def async_mounted_def begin_initModel_def br_defs Let_def)

lemma async_reachable_inv:
  assumes "async_reachable a"
  shows "async_inv a"
  using assms by (induction rule: async_reachable.induct) (simp_all add: async_inv_mounted async_inv_exec)

text \<open>
  \<^bold>\<open>C20\<close> (safety). Under every interleaving at most one inference is pending, and one is
  pending exactly while \<open>isProcessing\<close> is set: the upload area, the only source of file
  events, is rendered only when \<open>isProcessing\<close> is false.
\<close>

theorem one_inference_in_flight:
  assumes "async_reachable a"
  shows "removals (pending a) \<le> 1 \<and> (isProcessing (ui (sys a)) \<longleftrightarrow> removals (pending a) = 1)"
  using async_reachable_inv [OF assms] by (simp add: async_inv_def)

lemmas async_defs =
  begin_initModel_def begin_handleConfigChange_def begin_handleFileSelect_def
  finish_initModel_def finish_handleConfigChange_def finish_handleFileSelect_def
  finish_preload_def finish_removeBackground_def async_mounted_def

lemma async_reachable_run:
  assumes "async_reachable a" and "async_run es a = Some a'"
  shows "async_reachable a'"
  using assms
  by (induction es arbitrary: a) (auto intro: async_reachable.step split: option.splits)

lemma async_mounted_eq:
  "async_mounted =
     \<lparr>sys = \<lparr>ui = initial_app_state\<lparr>loadingProgress := 20\<rparr>, wrapper = initial_world,
              dom = \<lparr>object_urls = [], next_url = 0, downloads = [], fileInput = None\<rparr>\<rparr>,
      pending = [InitLoad (preload_options_of defaultConfig)]\<rparr>"
  by (simp add: async_defs br_defs Let_def)

lemma sample_processing_eq:
  "async_run sample_processing async_mounted =
     Some \<lparr>sys = \<lparr>ui = initial_app_state\<lparr>isProcessing := True, modelLoaded := True,
                      loadingProgress := 100\<rparr>,
                 wrapper = \<lparr>isModelLoaded = True,
                   trace = [PreloadCall (preload_options_of defaultConfig) (Resolved ())]\<rparr>,
                 dom = \<lparr>object_urls = [(0, File_object sample_file)], next_url = 1,
                         downloads = [], fileInput = None\<rparr>\<rparr>,
           pending = [Removal sample_file defaultConfig 0]\<rparr>"
  by (simp add: sample_processing_def async_mounted_eq async_defs br_defs Let_def
      initial_app_state_def sample_file_def max_file_size_def)

theorem one_inference_in_flight_witness:
  "\<exists>a. async_run sample_processing async_mounted = Some a \<and> async_reachable a \<and>
       isProcessing (ui (sys a)) \<and> removals (pending a) = 1"
proof -
  from sample_processing_eq obtain a
    where a: "async_run sample_processing async_mounted = Some a" by blast
  then have r: "async_reachable a"
    by (rule async_reachable_run [OF async_reachable.start])
  from one_inference_in_flight [OF r] a r show ?thesis
    by (auto simp: sample_processing_eq initial_app_state_def)
qed



lemma finish_initModel_eqs:
  "finish_initModel opts (Resolved u) s =
     s\<lparr>ui := (ui s)\<lparr>modelLoaded := True, loadingProgress := 100\<rparr>,
       wrapper := (wrapper s)\<lparr>isModelLoaded := True,
          trace := trace (wrapper s) @ [PreloadCall opts (Resolved u)]\<rparr>\<rparr>"
  "finish_initModel opts (Rejected e) s =
     s\<lparr>ui := (ui s)\<lparr>error := Some Model_load_failed_refresh, modelLoaded := False\<rparr>,
       wrapper := (wrapper s)\<lparr>trace := trace (wrapper s) @
          [PreloadCall opts (Rejected e), WrapperLog Failed_to_preload_model (LibThrown e),
           AppLog Model_load_failed (LibThrown e)]\<rparr>\<rparr>"
  by (simp_all add: finish_initModel_def finish_preload_def br_defs Let_def)

lemma finish_handleConfigChange_eqs:
  "finish_handleConfigChange opts (Resolved u) s =
     s\<lparr>ui := (ui s)\<lparr>error := None, modelLoaded := True, loadingProgress := 100\<rparr>,
       wrapper := (wrapper s)\<lparr>isModelLoaded := True,
          trace := trace (wrapper s) @ [PreloadCall opts (Resolved u)]\<rparr>\<rparr>"
  "finish_handleConfigChange opts (Rejected e) s =
     s\<lparr>ui := (ui s)\<lparr>error := Some Model_reload_failed_check_config, modelLoaded := False\<rparr>,
       wrapper := (wrapper s)\<lparr>trace := trace (wrapper s) @
          [PreloadCall opts (Rejected e), WrapperLog Failed_to_preload_model (LibThrown e),
           AppLog Model_reload_failed (LibThrown e)]\<rparr>\<rparr>"
  by (simp_all add: finish_handleConfigChange_def finish_preload_def br_defs Let_def)

lemma finish_handleFileSelect_eqs:
  "finish_handleFileSelect f c u (Resolved blob) s =
     s\<lparr>ui := (ui s)\<lparr>isProcessing := False,
             processedImage := Some \<lparr>original = u, processed = next_url (dom s),
                                     filename = file_name f\<rparr>\<rparr>,
       wrapper := (wrapper s)\<lparr>trace := trace (wrapper s) @
          [RemoveBackgroundCall f c (Resolved blob)]\<rparr>,
       dom := (dom s)\<lparr>object_urls := object_urls (dom s) @
                        [(next_url (dom s), Blob_object blob)],
                     next_url := Suc (next_url (dom s))\<rparr>\<rparr>"
  "finish_handleFileSelect f c u (Rejected e) s =
     s\<lparr>ui := (ui s)\<lparr>isProcessing := False,
             error := Some (Error_message Background_removal_failed_retry)\<rparr>,
       wrapper := (wrapper s)\<lparr>trace := trace (wrapper s) @
          [RemoveBackgroundCall f c (Rejected e),
           WrapperLog Background_removal_failed (LibThrown e),
           AppLog Background_removal_error (ErrorObj Background_removal_failed_retry)]\<rparr>\<rparr>"
  by (simp_all add: finish_handleFileSelect_def finish_removeBackground_def br_defs Let_def
      message_of_def)

lemma begin_handleConfigChange_unfold:
  "begin_handleConfigChange c s =
     (if model_options_changed c (config (ui s))
      then (s\<lparr>ui := (ui s)\<lparr>modelLoaded := False, loadingProgress := 20, config := c\<rparr>,
              wrapper := (wrapper s)\<lparr>isModelLoaded := False\<rparr>\<rparr>,
            [Reload (preload_options_of c)])
      else (s\<lparr>ui := (ui s)\<lparr>config := c\<rparr>\<rparr>, []))"
  by (simp add: begin_handleConfigChange_def br_defs Let_def)

lemma begin_handleFileSelect_unfold:
  "begin_handleFileSelect f s =
     (if accepted f \<and> isModelLoaded (wrapper s)
      then (s\<lparr>ui := (ui s)\<lparr>isProcessing := True, error := None\<rparr>,
              dom := (dom s)\<lparr>object_urls := object_urls (dom s) @
                               [(next_url (dom s), File_object f)],
                            next_url := Suc (next_url (dom s))\<rparr>\<rparr>,
            [Removal f (config (ui s)) (next_url (dom s))])
      else (s\<lparr>ui := (ui s)\<lparr>error := Some
              (if \<not> prefix ''image/'' (file_type f) then Invalid_image_file
               else if file_size f > max_file_size then File_too_large
               else Model_not_ready_yet)\<rparr>\<rparr>, []))"
  by (auto simp: begin_handleFileSelect_def accepted_def br_defs Let_def)

lemma begin_initModel_unfold:
  "begin_initModel s =
     (if isModelLoaded (wrapper s)
      then (s\<lparr>ui := (ui s)\<lparr>modelLoaded := True, loadingProgress := 100\<rparr>\<rparr>, [])
      else (s\<lparr>ui := (ui s)\<lparr>loadingProgress := 20\<rparr>\<rparr>,
            [InitLoad (preload_options_of (config (ui s)))]))"
  by (simp add: begin_initModel_def br_defs Let_def)

lemmas async_unfold =
  begin_initModel_unfold begin_handleConfigChange_unfold begin_handleFileSelect_unfold
  finish_initModel_eqs finish_handleConfigChange_eqs finish_handleFileSelect_eqs

lemma start_handler_model:
  assumes "start_handler ev s = (s', ts)" and "enabled s ev"
    and "valid_config (config (ui s))" and "modelLoaded (ui s) \<longrightarrow> isModelLoaded (wrapper s)"
  shows "trace (wrapper s') = trace (wrapper s) \<and>
         (isModelLoaded (wrapper s') \<longrightarrow> isModelLoaded (wrapper s)) \<and>
         (modelLoaded (ui s') \<longrightarrow> isModelLoaded (wrapper s')) \<and>
         valid_config (config (ui s')) \<and>
         (loadingProgress (ui s) \<in> {20, 100} \<and>
            (modelLoaded (ui s) \<longrightarrow> loadingProgress (ui s) = 100) \<longrightarrow>
          loadingProgress (ui s') \<in> {20, 100} \<and>
            (modelLoaded (ui s') \<longrightarrow> loadingProgress (ui s') = 100)) \<and>
         (0 < removals ts \<longrightarrow> isModelLoaded (wrapper s)) \<and>
         (error (ui s) \<notin> {Some Model_not_ready_yet, Some Processing_error_retry} \<longrightarrow>
          error (ui s') \<notin> {Some Model_not_ready_yet, Some Processing_error_retry})"
proof (cases ev)
  case (Panel pev)
  show "?thesis"
  proof (cases rule: panel_click_cases [of "config (ui s)" pev])
    case (change c')
    with assms Panel panel_click_valid [of "config (ui s)" "configPanelOpen (ui s)" pev c']
    show ?thesis
      by (simp add: begin_handleConfigChange_unfold split: if_splits) auto
  next
    case toggle
    with assms Panel show ?thesis by (auto simp: onToggle_def setter_defs)
  qed
next
  case (Drop files)
  with assms show ?thesis
    by (cases files)
       (auto simp: begin_handleFileSelect_unfold setDragOver_def Let_def show_upload_def
          accepted_def split: if_splits)
next
  case (FileChange files)
  with assms show ?thesis
    by (cases files)
       (auto simp: begin_handleFileSelect_unfold show_upload_def accepted_def split: if_splits)
next
  case DownloadClick
  with assms show ?thesis by (auto simp: downloadImage_def setter_defs split: option.splits)
next
  case ResetClick
  with assms show ?thesis by (auto simp: reset_eq)
qed (use assms in \<open>auto simp: handleDragOver_def handleDragLeave_def setDragOver_def\<close>)

lemma finish_handler_model:
  assumes "finish_handler t r s = Some s'"
  shows "(world_inv (wrapper s) \<and>
            (is_removal t \<longrightarrow> last_preloaded (trace (wrapper s)) \<noteq> None) \<longrightarrow>
          world_inv (wrapper s')) \<and>
         (last_preloaded (trace (wrapper s)) \<noteq> None \<longrightarrow>
          last_preloaded (trace (wrapper s')) \<noteq> None) \<and>
         ((modelLoaded (ui s) \<longrightarrow> isModelLoaded (wrapper s)) \<longrightarrow>
          modelLoaded (ui s') \<longrightarrow> isModelLoaded (wrapper s')) \<and>
         config (ui s') = config (ui s) \<and>
         (loadingProgress (ui s) \<in> {20, 100} \<and>
            (modelLoaded (ui s) \<longrightarrow> loadingProgress (ui s) = 100) \<longrightarrow>
          loadingProgress (ui s') \<in> {20, 100} \<and>
            (modelLoaded (ui s') \<longrightarrow> loadingProgress (ui s') = 100)) \<and>
         (error (ui s) \<notin> {Some Model_not_ready_yet, Some Processing_error_retry} \<longrightarrow>
          error (ui s') \<notin> {Some Model_not_ready_yet, Some Processing_error_retry})"
proof (cases "(t, r, s)" rule: finish_handler.cases)
  case (1 opts r0 s0)
  with assms show ?thesis
    by (cases r0)
       (auto simp: finish_initModel_eqs world_inv_def loaded_before_inference_append)
next
  case (2 opts r0 s0)
  with assms show ?thesis
    by (cases r0)
       (auto simp: finish_handleConfigChange_eqs world_inv_def loaded_before_inference_append)
next
  case (3 f c u r0 s0)
  with assms show ?thesis
    by (cases r0)
       (auto simp: finish_handleFileSelect_eqs world_inv_def loaded_before_inference_append)
qed (use assms in simp_all)

lemma removals_pending_nth:
  assumes "i < length ts" and "is_removal (ts ! i)"
  shows "0 < removals ts"
  using removals_remove_nth [OF assms(1)] assms(2) by simp

lemma removals_remove_nth_le:
  assumes "i < length ts"
  shows "removals (take i ts @ drop (Suc i) ts) \<le> removals ts"
  using removals_remove_nth [OF assms] by simp

lemma async_model_inv_exec:
  assumes "async_model_inv a" and "async_exec e a = Some a'"
  shows "async_model_inv a'"
proof (cases e)
  case (User ev)
  with assms(2) obtain s' ts where en: "enabled (sys a) ev"
    and st: "start_handler ev (sys a) = (s', ts)"
    and a': "a' = \<lparr>sys = render s', pending = pending a @ ts\<rparr>"
    by (auto split: if_splits prod.splits)
  from assms(1) have "valid_config (config (ui (sys a)))"
    and "modelLoaded (ui (sys a)) \<longrightarrow> isModelLoaded (wrapper (sys a))"
    by (simp_all add: async_model_inv_def)
  from start_handler_model [OF st en this] assms(1) show ?thesis
    by (simp add: async_model_inv_def a' world_inv_def)
next
  case (Settle i r)
  with assms(2) obtain s' where i: "i < length (pending a)"
    and f: "finish_handler (pending a ! i) r (sys a) = Some s'"
    and a': "a' = \<lparr>sys = render s', pending = take i (pending a) @ drop (Suc i) (pending a)\<rparr>"
    by (auto split: if_splits)
  from removals_pending_nth [OF i] assms(1)
  have "is_removal (pending a ! i) \<longrightarrow> last_preloaded (trace (wrapper (sys a))) \<noteq> None"
    by (auto simp: async_model_inv_def)
  with finish_handler_model [OF f] removals_remove_nth_le [OF i] assms(1) show ?thesis
    by (simp add: async_model_inv_def a')
qed

lemma async_model_inv_mounted: "async_model_inv async_mounted"
  by (simp add: async_model_inv_def async_mounted_eq world_inv_initial initial_app_state_def
      valid_config_def valid_quality_def defaultConfig_def)

lemma async_reachable_model_inv:
  assumes "async_reachable a"
  shows "async_model_inv a"
  using assms
  by (induction rule: async_reachable.induct)
     (simp_all add: async_model_inv_mounted async_model_inv_exec)

lemma uploads_simps [simp]:
  "uploads [] = []"
  "uploads (t # ts) = upload_of t @ uploads ts"
  "uploads (ts @ ts') = uploads ts @ uploads ts'"
  by (simp_all add: uploads_def)

lemma length_uploads [simp]: "length (uploads ts) = removals ts"
proof (induction ts)
  case (Cons t ts)
  then show ?case by (cases t) simp_all
qed simp

lemma uploads_remove_nth:
  assumes "i < length ts"
  shows "uploads ts = uploads (take i ts) @ upload_of (ts ! i) @ uploads (drop (Suc i) ts)"
proof -
  from assms have "uploads ts = uploads (take i ts @ ts ! i # drop (Suc i) ts)"
    by (simp only: id_take_nth_drop [symmetric])
  then show ?thesis by simp
qed

lemma uploads_settle:
  assumes "i < length ts" and "removals ts \<le> 1"
  shows "uploads (take i ts @ drop (Suc i) ts) = (if is_removal (ts ! i) then [] else uploads ts)"
    and "is_removal (ts ! i) \<Longrightarrow> uploads ts = upload_of (ts ! i)"
proof -
  from assms(2) have "length (uploads ts) \<le> 1" by simp
  with uploads_remove_nth [OF assms(1)]
  show "uploads (take i ts @ drop (Suc i) ts) = (if is_removal (ts ! i) then [] else uploads ts)"
    and "is_removal (ts ! i) \<Longrightarrow> uploads ts = upload_of (ts ! i)"
    by (cases "ts ! i"; simp del: length_uploads)+
qed

lemma uploads_Nil_iff [simp]: "uploads ts = [] \<longleftrightarrow> removals ts = 0"
  by (metis length_uploads length_0_conv)

lemma uploads_none [simp]: "removals ts = 0 \<Longrightarrow> uploads ts = []"
  by simp

lemma async_urls_inv_file:
  assumes "async_urls_inv \<lparr>sys = s, pending = ts\<rparr>" and "removals ts = 0"
    and "processedImage (ui s) = None"
  shows "async_urls_inv \<lparr>sys = render (fst (begin_handleFileSelect f s)),
           pending = ts @ snd (begin_handleFileSelect f s)\<rparr>"
  using assms
  by (auto simp: async_urls_inv_def begin_handleFileSelect_unfold less_Suc_eq)

lemma async_urls_inv_reset:
  assumes "async_urls_inv \<lparr>sys = s, pending = ts\<rparr>" and "processedImage (ui s) \<noteq> None"
  shows "async_urls_inv \<lparr>sys = render (reset s), pending = ts\<rparr>"
proof -
  from assms obtain img where img: "processedImage (ui s) = Some img" and ts: "removals ts = 0"
    by (auto simp: async_urls_inv_def)
  with assms have "Suc (Suc (length (filter
      (\<lambda>e. fst e \<noteq> original img \<and> fst e \<noteq> processed img) (object_urls (dom s))))) =
    length (object_urls (dom s))"
    by (intro length_filter_fst_neq2) (simp_all add: async_urls_inv_def)
  with assms img ts show ?thesis
    by (simp add: reset_eq async_urls_inv_def distinct_map_filter)
qed

lemma async_urls_inv_start:
  assumes "async_urls_inv \<lparr>sys = s, pending = ts\<rparr>"
    and "removals ts = (if isProcessing (ui s) then 1 else 0)"
    and "enabled s ev"
  shows "async_urls_inv \<lparr>sys = render (fst (start_handler ev s)),
           pending = ts @ snd (start_handler ev s)\<rparr>"
proof (cases ev)
  case (Panel pev)
  with assms show ?thesis
    by (cases "panel_click (config (ui s)) pev")
       (auto simp: async_urls_inv_def begin_handleConfigChange_unfold onToggle_def setter_defs
          split: if_splits)
next
  case (Drop files)
  show ?thesis
  proof (cases files)
    case Nil
    with assms Drop show ?thesis by (auto simp: async_urls_inv_def setDragOver_def)
  next
    case (Cons f fs)
    with assms Drop async_urls_inv_file [of "setDragOver False s" ts f] show ?thesis
      by (simp add: show_upload_def Let_def) (simp add: async_urls_inv_def setDragOver_def)
  qed
next
  case (FileChange files)
  show ?thesis
  proof (cases files)
    case Nil
    with assms FileChange show ?thesis by (auto simp: async_urls_inv_def)
  next
    case (Cons f fs)
    with assms FileChange async_urls_inv_file [of s ts f] show ?thesis
      by (simp add: show_upload_def)
  qed
next
  case DownloadClick
  with assms show ?thesis
    by (auto simp: async_urls_inv_def downloadImage_def setter_defs split: option.splits)
next
  case ResetClick
  with assms async_urls_inv_reset [of s ts] show ?thesis by (auto simp: show_results_def)
qed (use assms in \<open>auto simp: async_urls_inv_def handleDragOver_def handleDragLeave_def setDragOver_def\<close>)

lemma async_urls_inv_finish:
  assumes "async_urls_inv \<lparr>sys = s, pending = ts\<rparr>" and "removals ts \<le> 1"
    and "i < length ts" and "finish_handler (ts ! i) r s \<noteq> None"
  shows "async_urls_inv \<lparr>sys = render (the (finish_handler (ts ! i) r s)),
           pending = take i ts @ drop (Suc i) ts\<rparr>"
proof (cases "(ts ! i, r, s)" rule: finish_handler.cases)
  case (1 opts r0 s0)
  with assms uploads_settle [OF assms(3,2)] show ?thesis
    by (cases r0) (auto simp: async_urls_inv_def finish_initModel_eqs simp del: uploads_simps)
next
  case (2 opts r0 s0)
  with assms uploads_settle [OF assms(3,2)] show ?thesis
    by (cases r0)
       (auto simp: async_urls_inv_def finish_handleConfigChange_eqs simp del: uploads_simps)
next
  case (3 f c u r0 s0)
  with assms uploads_settle [OF assms(3,2)] removals_remove_nth [OF assms(3)] show ?thesis
    by (cases r0)
       (auto simp: async_urls_inv_def finish_handleFileSelect_eqs less_Suc_eq
          simp del: uploads_simps)
qed (use assms in simp_all)

lemma async_urls_inv_exec:
  assumes "async_urls_inv a" and "async_inv a" and "async_exec e a = Some a'"
  shows "async_urls_inv a'"
proof (cases e)
  case (User ev)
  with assms(3) have en: "enabled (sys a) ev"
    and a': "a' = \<lparr>sys = render (fst (start_handler ev (sys a))),
                   pending = pending a @ snd (start_handler ev (sys a))\<rparr>"
    by (auto split: if_splits prod.splits)
  from async_urls_inv_start [of "sys a" "pending a" ev] assms(1,2) en show ?thesis
    by (cases a) (simp add: a' async_inv_def)
next
  case (Settle i r)
  with assms(3) have i: "i < length (pending a)"
    and f: "finish_handler (pending a ! i) r (sys a) \<noteq> None"
    and a': "a' = \<lparr>sys = render (the (finish_handler (pending a ! i) r (sys a))),
                   pending = take i (pending a) @ drop (Suc i) (pending a)\<rparr>"
    by (auto split: if_splits)
  from async_urls_inv_finish [of "sys a" "pending a" i r] assms(1,2) i f show ?thesis
    by (cases a) (simp add: a' async_inv_def)
qed

lemma async_urls_inv_mounted: "async_urls_inv async_mounted"
  by (simp add: async_urls_inv_def async_mounted_eq initial_app_state_def initial_world_def
      failed_removals_def)

lemma async_reachable_urls_inv:
  assumes "async_reachable a"
  shows "async_urls_inv a"
  using assms
  by (induction rule: async_reachable.induct)
     (simp_all add: async_urls_inv_mounted async_urls_inv_exec async_reachable_inv)

text \<open>
  \<^bold>\<open>C12\<close> (safety). Under every interleaving of user events and settlements the library
  is asked for an inference only after a preload has resolved, an inference is pending
  only then, and the upload area is rendered only while \<open>isModelReady()\<close> holds. So the
  message of the readiness guard of \<open>handleFileSelect\<close> is never on display, and neither is
  the fallback text for a caught value that is not an \<open>Error\<close>: both branches are dead code
  also when loads and inferences overlap.
\<close>

theorem inference_waits_for_model:
  assumes "async_reachable a"
  shows "loaded_before_inference False (trace (wrapper (sys a))) \<and>
         (0 < removals (pending a) \<longrightarrow> last_preloaded (trace (wrapper (sys a))) \<noteq> None) \<and>
         (show_upload (sys a) \<longrightarrow> isModelReady (wrapper (sys a))) \<and>
         error (ui (sys a)) \<noteq> Some Model_not_ready_yet \<and>
         error (ui (sys a)) \<noteq> Some Processing_error_retry"
  using async_reachable_model_inv [OF assms]
  by (simp add: async_model_inv_def world_inv_def show_upload_def isModelReady_def)

theorem inference_waits_for_model_witness:
  "\<exists>a. async_run sample_processing async_mounted = Some a \<and> async_reachable a \<and>
       0 < removals (pending a) \<and>
       last_preloaded (trace (wrapper (sys a))) = Some (preload_options_of defaultConfig) \<and>
       \<not> show_upload (sys a)"
proof -
  from sample_processing_eq obtain a
    where a: "async_run sample_processing async_mounted = Some a" by blast
  then have r: "async_reachable a"
    by (rule async_reachable_run [OF async_reachable.start])
  from inference_waits_for_model [OF r] a r show ?thesis
    by (auto simp: sample_processing_eq initial_app_state_def show_upload_def)
qed

text \<open>
  \<^bold>\<open>C13\<close> (invariant). Under every interleaving the object URLs that are live are the two
  of the result on display, one for every removal that has failed, and the upload of the
  inference that is pending; they are pairwise different, and while an inference is pending
  no result is on display. So the only URLs that are never released are those of failed
  removals, whatever the order in which the promises settle.
\<close>

theorem pending_uploads_accounted:
  assumes "async_reachable a"
  shows "length (object_urls (dom (sys a))) =
           length (urls_of (processedImage (ui (sys a)))) +
           failed_removals (trace (wrapper (sys a))) + removals (pending a) \<and>
         distinct (map fst (object_urls (dom (sys a)))) \<and>
         set (uploads (pending a)) \<union> set (urls_of (processedImage (ui (sys a))))
           \<subseteq> fst ` set (object_urls (dom (sys a))) \<and>
         (0 < removals (pending a) \<longrightarrow> processedImage (ui (sys a)) = None)"
  using async_reachable_urls_inv [OF assms] by (auto simp: async_urls_inv_def)

theorem pending_uploads_accounted_witness:
  "\<exists>a. async_run sample_processing async_mounted = Some a \<and> async_reachable a \<and>
       object_urls (dom (sys a)) = [(0, File_object sample_file)] \<and>
       uploads (pending a) = [0] \<and> processedImage (ui (sys a)) = None"
proof -
  from sample_processing_eq obtain a
    where a: "async_run sample_processing async_mounted = Some a" by blast
  then have r: "async_reachable a"
    by (rule async_reachable_run [OF async_reachable.start])
  from pending_uploads_accounted [OF r] a r show ?thesis
    by (auto simp: sample_processing_eq initial_app_state_def simp del: uploads_none)
qed

end
