(* ===== verification/Schedules.thy ===== *)
theory Schedules
  imports AppAsync
begin

text \<open>
  Schedules of the interleaving model of \<open>AppAsync\<close> under a restriction on the events.

  The settings panel of \<^verbatim>\<open>src/src/App.tsx\<close> is rendered and active at all times, so a
  settings change can start a load while another load is pending; the two schedules
  \<open>race_stale\<close> and \<open>race_stuck\<close> of \<open>AppAsync\<close> show what follows. This theory asks what
  holds when that does not happen.

  \<^item> \<open>async_reachable_under G\<close> are the states of the schedules every step of which
    satisfies \<open>G\<close>; \<open>guarded_run G\<close> runs a schedule and stops at the first step that does
    not satisfy \<open>G\<close>.
  \<^item> \<open>reloads\<close> is the condition of \<open>handleConfigChange\<close> (the new configuration differs
    in \<open>model\<close>, \<open>device\<close> or \<open>debug\<close>) as a predicate on events; \<open>loads\<close> are the options
    of the loads that are pending. \<open>panel_waits\<close> admits an event unless it reloads while
    a load is pending.
  \<^item> \<open>model_matches\<close> and \<open>load_inv\<close>: the invariant of the atomic model, stated for the
    interleaving model: with no load pending the flag of the component is the flag of
    the module and the last preload is that of the configuration; with one pending
    neither flag is set.

  The lemmas show: \<open>load_inv\<close> holds under \<open>panel_waits\<close>, by rule induction from a lemma
  for the start of a handler and one for its end (\<open>load_inv_start\<close>, \<open>load_inv_finish\<close>);
  the states under a restriction are the results of the schedules \<open>guarded_run\<close> accepts
  (\<open>reachable_under_iff_guarded_run\<close>); a weaker restriction reaches more
  (\<open>reachable_under_weaken\<close>) and no restriction
  reaches what \<open>async_reachable\<close> does (\<open>reachable_under_True\<close>); settling what is
  pending ends in a state with nothing pending and keeps what every settlement keeps
  (\<open>settle_all_invariant\<close>, \<open>settle_all_quiescent\<close>, by induction on the fuel, which is the
  number of pending calls since settling starts none), among that "a load is pending or
  the model is loaded" if the library resolves every \<open>preload\<close> (\<open>settle_keeps_loading\<close>); the
  handlers respect \<open>same_but_input\<close> (\<open>handler_same\<close>), so that the states of the
  atomic model are among those of the restricted schedules. The calls that are
  outstanding together under the restriction are the subject of \<open>Outstanding\<close>.
\<close>

section \<open>Definitions\<close>

subsection \<open>Schedules under a restriction\<close>

inductive async_reachable_under ::
  "(('e, 'b) async_state \<Rightarrow> ('e, 'b) async_event \<Rightarrow> bool) \<Rightarrow> ('e, 'b) async_state \<Rightarrow> bool"
  for G where
  start: "async_reachable_under G async_mounted"
| step: "async_reachable_under G a \<Longrightarrow> G a e \<Longrightarrow> async_exec e a = Some a' \<Longrightarrow>
         async_reachable_under G a'"

fun guarded_run ::
  "(('e, 'b) async_state \<Rightarrow> ('e, 'b) async_event \<Rightarrow> bool) \<Rightarrow> ('e, 'b) async_event list \<Rightarrow>
     ('e, 'b) async_state \<Rightarrow> ('e, 'b) async_state option" where
  "guarded_run G [] a = Some a"
| "guarded_run G (e # es) a =
     (if G a e then (case async_exec e a of None \<Rightarrow> None | Some a' \<Rightarrow> guarded_run G es a')
      else None)"

subsection \<open>Loads that are pending\<close>

text \<open>
  \<open>load_of\<close> gives the options of a pending \<open>loadModel\<close>, and nothing for an inference.
\<close>

fun load_of :: "task \<Rightarrow> preload_options list" where
  "load_of (InitLoad opts) = [opts]"
| "load_of (Reload opts) = [opts]"
| "load_of (Removal f c u) = []"

definition loads :: "task list \<Rightarrow> preload_options list" where
  "loads ts = concat (map load_of ts)"

definition reloads :: "('e, 'b) system \<Rightarrow> app_event \<Rightarrow> bool" where
  "reloads s ev \<longleftrightarrow>
     (case ev of
        Panel pev \<Rightarrow>
          (case panel_click (config (ui s)) pev of
             OnConfigChange c \<Rightarrow> model_options_changed c (config (ui s))
           | OnToggle \<Rightarrow> False)
      | _ \<Rightarrow> False)"

definition panel_waits :: "('e, 'b) async_state \<Rightarrow> ('e, 'b) async_event \<Rightarrow> bool" where
  "panel_waits a e \<longleftrightarrow>
     (case e of
        User ev \<Rightarrow> reloads (sys a) ev \<longrightarrow> loads (pending a) = []
      | Settle i r \<Rightarrow> True)"

subsection \<open>The model and the configuration\<close>

definition model_matches :: "('e, 'b) system \<Rightarrow> bool" where
  "model_matches s \<longleftrightarrow>
     modelLoaded (ui s) = isModelLoaded (wrapper s) \<and>
     (isModelLoaded (wrapper s) \<longrightarrow>
        last_preloaded (trace (wrapper s)) = Some (preload_options_of (config (ui s))))"

definition load_inv :: "('e, 'b) async_state \<Rightarrow> bool" where
  "load_inv a \<longleftrightarrow>
     (case loads (pending a) of
        [] \<Rightarrow> model_matches (sys a)
      | [opts] \<Rightarrow>
          opts = preload_options_of (config (ui (sys a))) \<and>
          \<not> isModelLoaded (wrapper (sys a)) \<and> \<not> modelLoaded (ui (sys a))
      | _ \<Rightarrow> False)"

section \<open>Lemmas\<close>

lemma loads_simps [simp]:
  "loads [] = []"
  "loads (t # ts) = load_of t @ loads ts"
  "loads (ts @ ts') = loads ts @ loads ts'"
  by (simp_all add: loads_def)

lemma loads_remove_nth:
  assumes "i < length ts"
  shows "loads ts = loads (take i ts) @ load_of (ts ! i) @ loads (drop (Suc i) ts)"
proof -
  from assms have "loads ts = loads (take i ts @ ts ! i # drop (Suc i) ts)"
    by (simp only: id_take_nth_drop [symmetric])
  then show ?thesis by simp
qed

lemma model_matches_render [simp]: "model_matches (render s) = model_matches s"
  by (simp add: model_matches_def)

lemma start_handler_loads:
  assumes "enabled s ev"
  shows "loads (snd (start_handler ev s)) =
           (if reloads s ev then [preload_options_of (config (ui (fst (start_handler ev s))))]
            else []) \<and>
         (reloads s ev \<longrightarrow>
            \<not> isModelLoaded (wrapper (fst (start_handler ev s))) \<and>
            \<not> modelLoaded (ui (fst (start_handler ev s)))) \<and>
         (\<not> reloads s ev \<longrightarrow>
            isModelLoaded (wrapper (fst (start_handler ev s))) = isModelLoaded (wrapper s) \<and>
            modelLoaded (ui (fst (start_handler ev s))) = modelLoaded (ui s) \<and>
            trace (wrapper (fst (start_handler ev s))) = trace (wrapper s) \<and>
            preload_options_of (config (ui (fst (start_handler ev s)))) =
              preload_options_of (config (ui s)))"
proof (cases ev)
  case (Panel pev)
  then show ?thesis
    by (cases "panel_click (config (ui s)) pev")
       (auto simp: reloads_def begin_handleConfigChange_unfold onToggle_def setter_defs
          model_options_changed_iff)
qed (use assms in \<open>auto simp: reloads_def begin_handleFileSelect_unfold handleDragOver_def
      handleDragLeave_def setDragOver_def downloadImage_def reset_eq Let_def
      split: list.splits option.splits\<close>)

lemma load_inv_start:
  assumes "load_inv \<lparr>sys = s, pending = ts\<rparr>" and "enabled s ev"
    and "reloads s ev \<longrightarrow> loads ts = []"
  shows "load_inv \<lparr>sys = render (fst (start_handler ev s)),
           pending = ts @ snd (start_handler ev s)\<rparr>"
  using assms start_handler_loads [OF assms(2)]
  by (cases "reloads s ev")
     (auto simp: load_inv_def model_matches_def split: list.splits)

lemma finish_load_matches:
  assumes "load_of t = [preload_options_of (config (ui s))]"
    and "\<not> isModelLoaded (wrapper s)" and "finish_handler t r s \<noteq> None"
  shows "model_matches (the (finish_handler t r s))"
proof (cases "(t, r, s)" rule: finish_handler.cases)
  case (1 opts r0 s0)
  with assms show ?thesis
    by (cases r0) (auto simp: model_matches_def finish_initModel_eqs)
next
  case (2 opts r0 s0)
  with assms show ?thesis
    by (cases r0) (auto simp: model_matches_def finish_handleConfigChange_eqs)
qed (use assms in simp_all)

lemma finish_removal_frame:
  assumes "load_of t = []" and "finish_handler t r s \<noteq> None"
  shows "isModelLoaded (wrapper (the (finish_handler t r s))) = isModelLoaded (wrapper s) \<and>
         modelLoaded (ui (the (finish_handler t r s))) = modelLoaded (ui s) \<and>
         config (ui (the (finish_handler t r s))) = config (ui s) \<and>
         last_preloaded (trace (wrapper (the (finish_handler t r s)))) =
           last_preloaded (trace (wrapper s))"
proof (cases "(t, r, s)" rule: finish_handler.cases)
  case (3 f c u r0 s0)
  with assms show ?thesis
    by (cases r0) (auto simp: finish_handleFileSelect_eqs)
qed (use assms in simp_all)

lemma load_inv_finish:
  assumes "load_inv \<lparr>sys = s, pending = ts\<rparr>" and "i < length ts"
    and "finish_handler (ts ! i) r s \<noteq> None"
  shows "load_inv \<lparr>sys = render (the (finish_handler (ts ! i) r s)),
           pending = take i ts @ drop (Suc i) ts\<rparr>"
proof (cases "load_of (ts ! i)")
  case Nil
  with assms(1) loads_remove_nth [OF assms(2)] finish_removal_frame [OF Nil assms(3)]
  show ?thesis
    by (auto simp: load_inv_def model_matches_def split: list.splits)
next
  case (Cons opts rest)
  with assms(1) loads_remove_nth [OF assms(2)]
  have l: "load_of (ts ! i) = [preload_options_of (config (ui s))]"
    and n: "\<not> isModelLoaded (wrapper s)"
    and e: "loads (take i ts) = []" "loads (drop (Suc i) ts) = []"
    by (auto simp: load_inv_def split: list.splits if_splits simp: append_eq_Cons_conv
        Cons_eq_append_conv)
  from finish_load_matches [OF l n assms(3)] e show ?thesis
    by (simp add: load_inv_def)
qed

lemma load_inv_exec:
  assumes "load_inv a" and "panel_waits a e" and "async_exec e a = Some a'"
  shows "load_inv a'"
proof (cases e)
  case (User ev)
  with assms(3) have en: "enabled (sys a) ev"
    and a': "a' = \<lparr>sys = render (fst (start_handler ev (sys a))),
                   pending = pending a @ snd (start_handler ev (sys a))\<rparr>"
    by (auto split: if_splits prod.splits)
  from load_inv_start [of "sys a" "pending a" ev] assms(1,2) en User show ?thesis
    by (cases a) (simp add: a' panel_waits_def)
next
  case (Settle i r)
  with assms(3) have i: "i < length (pending a)"
    and f: "finish_handler (pending a ! i) r (sys a) \<noteq> None"
    and a': "a' = \<lparr>sys = render (the (finish_handler (pending a ! i) r (sys a))),
                   pending = take i (pending a) @ drop (Suc i) (pending a)\<rparr>"
    by (auto split: if_splits)
  from load_inv_finish [of "sys a" "pending a" i r] assms(1) i f show ?thesis
    by (cases a) (simp add: a')
qed

lemma load_inv_mounted: "load_inv async_mounted"
  by (simp add: load_inv_def async_mounted_eq initial_app_state_def initial_world_def)

lemma reachable_under_load_inv:
  assumes "async_reachable_under panel_waits a"
  shows "load_inv a"
  using assms
  by (induction rule: async_reachable_under.induct)
     (simp_all add: load_inv_mounted load_inv_exec)

lemma reachable_under_weaken:
  assumes "async_reachable_under G a" and "\<And>a e. G a e \<Longrightarrow> H a e"
  shows "async_reachable_under H a"
  using assms(1)
  by (induction rule: async_reachable_under.induct)
     (auto intro: async_reachable_under.intros assms(2))

lemma reachable_under_True: "async_reachable_under (\<lambda>a e. True) a \<longleftrightarrow> async_reachable a"
proof
  show "async_reachable_under (\<lambda>a e. True) a \<Longrightarrow> async_reachable a"
    by (induction rule: async_reachable_under.induct) (auto intro: async_reachable.intros)
  show "async_reachable a \<Longrightarrow> async_reachable_under (\<lambda>a e. True) a"
    by (induction rule: async_reachable.induct) (auto intro: async_reachable_under.intros)
qed

lemma reachable_under_reachable:
  assumes "async_reachable_under G a"
  shows "async_reachable a"
  using reachable_under_weaken [OF assms, of "\<lambda>a e. True"] by (simp add: reachable_under_True)

lemma guarded_run_reachable:
  assumes "async_reachable_under G a" and "guarded_run G es a = Some a'"
  shows "async_reachable_under G a'"
  using assms
  by (induction es arbitrary: a)
     (auto intro: async_reachable_under.step split: option.splits if_splits)

lemma guarded_run_append:
  "guarded_run G (es @ es') a =
     (case guarded_run G es a of None \<Rightarrow> None | Some a' \<Rightarrow> guarded_run G es' a')"
  by (induction es arbitrary: a) (simp_all split: option.splits)

lemma guarded_run_is_run:
  assumes "guarded_run G es a = Some a'"
  shows "async_run es a = Some a'"
  using assms by (induction es arbitrary: a) (auto split: option.splits if_splits)

text \<open>The states under a restriction are the results of the schedules \<open>guarded_run\<close> accepts.\<close>

lemma reachable_under_iff_guarded_run:
  "async_reachable_under G a \<longleftrightarrow> (\<exists>es. guarded_run G es async_mounted = Some a)"
proof
  assume "async_reachable_under G a"
  then show "\<exists>es. guarded_run G es async_mounted = Some a"
  proof (induction rule: async_reachable_under.induct)
    case start
    have "guarded_run G [] async_mounted = Some async_mounted" by simp
    then show ?case by blast
  next
    case (step a e a')
    then obtain es where "guarded_run G es async_mounted = Some a" by blast
    with step.hyps(2,3) have "guarded_run G (es @ [e]) async_mounted = Some a'"
      by (simp add: guarded_run_append del: async_exec.simps)
    then show ?case by blast
  qed
next
  assume "\<exists>es. guarded_run G es async_mounted = Some a"
  then show "async_reachable_under G a"
    by (auto intro: guarded_run_reachable async_reachable_under.start)
qed

lemma enabled_same:
  assumes "same_but_input s s'"
  shows "enabled s ev = enabled s' ev"
  using assms
  by (cases ev) (simp_all add: same_but_input_def show_upload_def show_results_def)

lemma handleFileSelect_same:
  assumes "same_but_input s s'"
  shows "same_but_input (handleFileSelect lib f s) (handleFileSelect lib f s')"
  using assms
  by (simp add: handleFileSelect_def same_but_input_def setter_defs createObjectURL_def
      app_console_error_def isModelReady_def Let_def split: prod.splits sum.splits)

lemma handleConfigChange_same_input:
  assumes "same_but_input s s'"
  shows "same_but_input (handleConfigChange lib c s) (handleConfigChange lib c s')"
  using assms
  by (simp add: handleConfigChange_def same_but_input_def setter_defs app_console_error_def
      Let_def split: prod.splits sum.splits)

lemma handler_same:
  assumes "same_but_input s s'"
  shows "same_but_input (handler lib ev s) (handler lib ev s')"
proof (cases ev)
  case Mount
  with assms show ?thesis
    by (simp add: initModel_def same_but_input_def setter_defs app_console_error_def Let_def
        split: prod.splits sum.splits)
next
  case (Panel pev)
  with assms handleConfigChange_same_input [OF assms] show ?thesis
    by (cases "panel_click (config (ui s)) pev")
       (auto simp: same_but_input_def onToggle_def setter_defs)
next
  case (Drop files)
  from assms have "same_but_input (setDragOver False s) (setDragOver False s')"
    by (simp add: same_but_input_def setDragOver_def)
  from handleFileSelect_same [OF this] this Drop show ?thesis
    by (cases files) (simp_all add: handleDrop_def Let_def)
next
  case (FileChange files)
  with assms handleFileSelect_same [OF assms] show ?thesis
    by (cases files) (simp_all add: handleFileChange_def)
next
  case DownloadClick
  with assms show ?thesis
    by (auto simp: same_but_input_def downloadImage_def split: option.splits)
next
  case ResetClick
  with assms show ?thesis by (simp add: same_but_input_def reset_eq)
qed (use assms in \<open>simp_all add: same_but_input_def handleDragOver_def handleDragLeave_def
      setDragOver_def\<close>)

lemma same_but_input_trans:
  assumes "same_but_input s1 s2" and "same_but_input s2 s3"
  shows "same_but_input s1 s3"
  using assms by (simp add: same_but_input_def)

lemma finish_answer: "finish_handler t (answer_of lib t s) s \<noteq> None"
  by (cases t) simp_all

text \<open>
  Settling what is pending, oldest first, with the answers of the library: it returns
  with nothing pending, and a property that every settlement preserves holds at the end.
\<close>

lemma settle_all_invariant:
  assumes "length (pending a) \<le> n" and "async_reachable_under G a"
    and "\<And>a i r. G a (Settle i r)"
    and "Q a"
    and step: "\<And>a t ts s'. Q a \<Longrightarrow> pending a = t # ts \<Longrightarrow>
      finish_handler t (answer_of lib t (sys a)) (sys a) = Some s' \<Longrightarrow>
      Q \<lparr>sys = render s', pending = ts\<rparr>"
  shows "\<exists>a'. settle_all lib n a = Some a' \<and> pending a' = [] \<and>
           async_reachable_under G a' \<and> Q a'"
  using assms(1,2,4)
proof (induction n arbitrary: a)
  case 0
  then show ?case by simp
next
  case (Suc n)
  show ?case
  proof (cases "pending a")
    case Nil
    with Suc.prems show ?thesis by simp
  next
    case (Cons t ts)
    from finish_answer [of t lib "sys a"] obtain s'
      where s': "finish_handler t (answer_of lib t (sys a)) (sys a) = Some s'" by blast
    let ?a = "\<lparr>sys = render s', pending = ts\<rparr>"
    from Cons s' have e: "async_exec (Settle 0 (answer_of lib t (sys a))) a = Some ?a" by simp
    from Suc.prems(2) assms(3) e have "async_reachable_under G ?a"
      by (rule async_reachable_under.step)
    moreover from Suc.prems(1) Cons have "length (pending ?a) \<le> n" by simp
    moreover from Suc.prems(3) Cons s' have "Q ?a" by (rule step)
    ultimately obtain a' where "settle_all lib n ?a = Some a'" "pending a' = []"
      "async_reachable_under G a'" "Q a'"
      using Suc.IH by blast
    with Cons e show ?thesis by (simp del: async_exec.simps)
  qed
qed

lemma settle_all_quiescent:
  assumes "length (pending a) \<le> n" and "async_reachable_under G a"
    and "\<And>a i r. G a (Settle i r)"
  shows "\<exists>a'. settle_all lib n a = Some a' \<and> pending a' = [] \<and> async_reachable_under G a'"
  using settle_all_invariant [where Q = "\<lambda>_. True", OF assms] by simp

text \<open>
  With a library whose \<open>preload\<close> resolves, a settlement keeps "a load is pending or the
  model is shown as loaded".
\<close>

lemma settle_keeps_loading:
  assumes "\<And>tr opts. resolved (preload lib tr opts)"
    and "loads (t # ts) \<noteq> [] \<or> modelLoaded (ui s)"
    and "finish_handler t (answer_of lib t s) s = Some s'"
  shows "loads ts \<noteq> [] \<or> modelLoaded (ui (render s'))"
proof (cases t)
  case (InitLoad opts)
  from assms(1) [of "trace (wrapper s)" opts] obtain u
    where "preload lib (trace (wrapper s)) opts = Resolved u"
    by (cases "preload lib (trace (wrapper s)) opts") simp_all
  with assms(3) InitLoad show ?thesis by (auto simp: finish_initModel_eqs)
next
  case (Reload opts)
  from assms(1) [of "trace (wrapper s)" opts] obtain u
    where "preload lib (trace (wrapper s)) opts = Resolved u"
    by (cases "preload lib (trace (wrapper s)) opts") simp_all
  with assms(3) Reload show ?thesis by (auto simp: finish_handleConfigChange_eqs)
next
  case (Removal f c u)
  with finish_removal_frame [of t "answer_of lib t s" s] assms(2,3) show ?thesis by auto
qed

lemma start_settle_atomic:
  "\<exists>a'. settle_all lib (length (snd (start_handler ev s)))
            \<lparr>sys = render (fst (start_handler ev s)), pending = snd (start_handler ev s)\<rparr> =
          Some a' \<and>
        pending a' = [] \<and> same_but_input (sys a') (handle lib ev s) \<and> input_inv (sys a')"
proof (cases rule: start_handler_cases [of ev s lib])
  case finished
  then show ?thesis by (simp add: handle_def)
next
  case (suspended s' t)
  from finish_handler_same [of "render s'" s' t "answer_of lib t s'"] suspended(2)
  obtain s2 where "finish_handler t (answer_of lib t s') (render s') = Some s2"
    and "same_but_input s2 (handler lib ev s)"
    by (auto simp: option_rel_Some2)
  with suspended(1) show ?thesis by (simp add: handle_def)
qed

lemma async_mounted_start:
  "(async_mounted :: ('e, 'b) async_state) =
     \<lparr>sys = render (fst (start_handler Mount (render initial_system))),
      pending = snd (start_handler Mount (render (initial_system :: ('e, 'b) system)))\<rparr>"
  by (simp add: async_mounted_def case_prod_unfold Let_def)

lemma quiescent_after:
  assumes "async_reachable_under panel_waits
      \<lparr>sys = render (fst (start_handler ev s)), pending = snd (start_handler ev s)\<rparr>"
  shows "\<exists>a'. async_reachable_under panel_waits a' \<and> pending a' = [] \<and>
           same_but_input (sys a') (handle lib ev s) \<and> input_inv (sys a')"
proof -
  let ?a = "\<lparr>sys = render (fst (start_handler ev s)), pending = snd (start_handler ev s)\<rparr>"
  from settle_all_quiescent [of ?a "length (pending ?a)" panel_waits lib] assms
  obtain a' where "settle_all lib (length (pending ?a)) ?a = Some a'"
    and "async_reachable_under panel_waits a'"
    by (auto simp: panel_waits_def)
  with start_settle_atomic [of lib ev s] show ?thesis by auto
qed



lemmas schedule_eval =
  async_mounted_eq async_defs br_defs Let_def panel_click_simps initial_app_state_def
  sample_file_def max_file_size_def model_options_changed_def panel_waits_def reloads_def

lemma guarded_sample_processing:
  "guarded_run panel_waits sample_processing async_mounted =
     async_run sample_processing async_mounted"
  by (simp add: sample_processing_def schedule_eval del: panel_click.simps)

lemma guard_rejects_races:
  "guarded_run panel_waits race_stale async_mounted = None"
  "guarded_run panel_waits race_stuck async_mounted = None"
  by (simp_all add: race_stale_def race_stuck_def schedule_eval del: panel_click.simps)

text \<open>
  \<^bold>\<open>C16\<close> (invariant). If the settings panel changed no model option while a load is
  pending, then under every schedule at most one load is pending; while one is pending
  neither the module nor the component reports the model as loaded and the load is the
  one of the current configuration; and when none is pending the flag of the component is
  the flag of the module and the last preload that resolved is the one of the current
  configuration. The two schedules in which a stale model is served and in which a loaded
  model stays hidden are not schedules of this kind.
\<close>

theorem waiting_panel_keeps_model_in_step:
  assumes "async_reachable_under panel_waits a"
  shows "length (loads (pending a)) \<le> 1 \<and>
         (loads (pending a) \<noteq> [] \<longrightarrow>
            loads (pending a) = [preload_options_of (config (ui (sys a)))] \<and>
            \<not> isModelReady (wrapper (sys a)) \<and> \<not> modelLoaded (ui (sys a))) \<and>
         (loads (pending a) = [] \<longrightarrow>
            modelLoaded (ui (sys a)) = isModelReady (wrapper (sys a))) \<and>
         (modelLoaded (ui (sys a)) \<longrightarrow>
            last_preloaded (trace (wrapper (sys a))) =
              Some (preload_options_of (config (ui (sys a)))))"
  using reachable_under_load_inv [OF assms]
  by (auto simp: load_inv_def model_matches_def isModelReady_def
      split: list.splits)

theorem waiting_panel_keeps_model_in_step_witness:
  "\<exists>a. guarded_run panel_waits sample_processing async_mounted = Some a \<and>
       async_reachable_under panel_waits a \<and> loads (pending a) = [] \<and>
       modelLoaded (ui (sys a)) \<and> isModelReady (wrapper (sys a)) \<and>
       last_preloaded (trace (wrapper (sys a))) =
         Some (preload_options_of (config (ui (sys a)))) \<and>
       guarded_run panel_waits race_stale async_mounted = None \<and>
       guarded_run panel_waits race_stuck async_mounted = None"
proof -
  from sample_processing_eq obtain a
    where a: "guarded_run panel_waits sample_processing async_mounted = Some a"
    by (auto simp: guarded_sample_processing)
  then have r: "async_reachable_under panel_waits a"
    by (rule guarded_run_reachable [OF async_reachable_under.start])
  have "loads (pending a) = []" "modelLoaded (ui (sys a))"
    using a by (auto simp: guarded_sample_processing sample_processing_eq)
  with waiting_panel_keeps_model_in_step [OF r] a r show ?thesis
    by (auto simp: guard_rejects_races)
qed

text \<open>
  \<^bold>\<open>C23\<close> (liveness). From every state of every schedule, settling the pending calls
  one after the other with the answers of the library ends: it reaches a state of the
  interleaving model in which nothing is pending and the component is not processing. If
  the schedule changed no model option during a load, the flag of the component is then
  the flag of the module.
\<close>

theorem pending_calls_settle:
  assumes "async_reachable a"
  shows "\<exists>a'. settle_all lib (length (pending a)) a = Some a' \<and> async_reachable a' \<and>
           pending a' = [] \<and> \<not> isProcessing (ui (sys a')) \<and>
           (async_reachable_under panel_waits a \<longrightarrow>
              modelLoaded (ui (sys a')) = isModelReady (wrapper (sys a')))"
proof (cases "async_reachable_under panel_waits a")
  case True
  from settle_all_quiescent [OF le_refl True, of lib] obtain a'
    where a': "settle_all lib (length (pending a)) a = Some a'" "pending a' = []"
      "async_reachable_under panel_waits a'"
    by (auto simp: panel_waits_def)
  from a'(3) have "async_reachable a'" by (rule reachable_under_reachable)
  moreover from this a'(2) have "\<not> isProcessing (ui (sys a'))"
    using async_reachable_inv [of a'] by (simp add: async_inv_def split: if_splits)
  moreover from reachable_under_load_inv [OF a'(3)] a'(2)
  have "modelLoaded (ui (sys a')) = isModelReady (wrapper (sys a'))"
    by (simp add: load_inv_def model_matches_def isModelReady_def)
  ultimately show ?thesis using a' by blast
next
  case False
  from assms have "async_reachable_under (\<lambda>a e. True) a" by (simp add: reachable_under_True)
  from settle_all_quiescent [OF le_refl this, of lib] obtain a'
    where a': "settle_all lib (length (pending a)) a = Some a'" "pending a' = []"
      "async_reachable a'"
    by (auto simp: reachable_under_True)
  from a'(3,2) have "\<not> isProcessing (ui (sys a'))"
    using async_reachable_inv [of a'] by (simp add: async_inv_def split: if_splits)
  with a' False show ?thesis by blast
qed

theorem pending_calls_settle_witness:
  "\<exists>a a'. async_run sample_processing async_mounted = Some a \<and>
       async_reachable_under panel_waits a \<and> pending a \<noteq> [] \<and>
       settle_all lib_ok (length (pending a)) a = Some a' \<and> pending a' = [] \<and>
       \<not> isProcessing (ui (sys a')) \<and>
       modelLoaded (ui (sys a')) = isModelReady (wrapper (sys a'))"
proof -
  from sample_processing_eq obtain a
    where a: "async_run sample_processing async_mounted = Some a" by blast
  then have g: "async_reachable_under panel_waits a"
    using guarded_run_reachable [OF async_reachable_under.start, of panel_waits sample_processing a]
    by (simp add: guarded_sample_processing)
  then have r: "async_reachable a" by (rule reachable_under_reachable)
  from a have "pending a \<noteq> []" by (auto simp: sample_processing_eq)
  with pending_calls_settle [OF r, of lib_ok] a g show ?thesis by blast
qed

text \<open>
  \<^bold>\<open>C24\<close> (liveness). If the library resolves every \<open>preload\<close>, the model gets loaded:
  from a state of a schedule in which no settings change reloaded the model during a
  load, and in which a load is pending or the model is shown as loaded, settling the
  pending calls ends in a state in which nothing is pending, the component shows the
  model as loaded, the module is ready, the last preload is that of the current
  configuration, and neither the loading indicator nor the processing notice is rendered.
\<close>

theorem model_loads_when_library_resolves:
  assumes "async_reachable_under panel_waits a"
    and "\<And>tr opts. resolved (preload lib tr opts)"
    and "loads (pending a) \<noteq> [] \<or> modelLoaded (ui (sys a))"
  shows "\<exists>a'. settle_all lib (length (pending a)) a = Some a' \<and> pending a' = [] \<and>
           modelLoaded (ui (sys a')) \<and> isModelReady (wrapper (sys a')) \<and>
           last_preloaded (trace (wrapper (sys a'))) =
             Some (preload_options_of (config (ui (sys a')))) \<and>
           \<not> show_loading (sys a') \<and> \<not> show_processing (sys a')"
proof -
  let ?Q = "\<lambda>a. loads (pending a) \<noteq> [] \<or> modelLoaded (ui (sys a))"
  have "\<exists>a'. settle_all lib (length (pending a)) a = Some a' \<and> pending a' = [] \<and>
          async_reachable_under panel_waits a' \<and> ?Q a'"
  proof (rule settle_all_invariant [where Q = ?Q, OF le_refl assms(1) _ assms(3)])
    show "panel_waits a (Settle i r)" for a :: "('a, 'b) async_state" and i r
      by (simp add: panel_waits_def)
    show "?Q \<lparr>sys = render s', pending = ts\<rparr>"
      if "?Q a" "pending a = t # ts"
        "finish_handler t (answer_of lib t (sys a)) (sys a) = Some s'"
      for a :: "('a, 'b) async_state" and t ts s'
      using settle_keeps_loading [OF assms(2), of t ts "sys a" s'] that by simp
  qed
  then obtain a' where a': "settle_all lib (length (pending a)) a = Some a'" "pending a' = []"
    "async_reachable_under panel_waits a'" "modelLoaded (ui (sys a'))"
    by auto
  from reachable_under_load_inv [OF a'(3)] a'(2,4)
  have "isModelReady (wrapper (sys a'))"
    "last_preloaded (trace (wrapper (sys a'))) = Some (preload_options_of (config (ui (sys a'))))"
    by (simp_all add: load_inv_def model_matches_def isModelReady_def)
  moreover from async_reachable_inv [OF reachable_under_reachable [OF a'(3)]] a'(2)
  have "\<not> show_processing (sys a')"
    by (simp add: async_inv_def show_processing_def split: if_splits)
  ultimately show ?thesis using a' by (auto simp: show_loading_def)
qed

theorem model_loads_when_library_resolves_witness:
  "loads (pending (async_mounted :: (string, format) async_state)) \<noteq> [] \<and>
   (\<exists>a'. settle_all lib_ok (length (pending (async_mounted :: (string, format) async_state)))
           async_mounted = Some a' \<and>
         pending a' = [] \<and> modelLoaded (ui (sys a')) \<and> isModelReady (wrapper (sys a')) \<and>
         \<not> show_loading (sys a'))"
proof -
  have l: "loads (pending (async_mounted :: (string, format) async_state)) \<noteq> []"
    by (simp add: async_mounted_eq)
  have r: "resolved (preload lib_ok tr opts)" for tr opts by simp
  from model_loads_when_library_resolves [OF async_reachable_under.start, of lib_ok, OF r] l
  show ?thesis by blast
qed

end
