(* ===== verification/Outstanding.thy ===== *)
theory Outstanding
  imports Schedules "HOL-Library.Multiset"
begin

text \<open>
  The calls of the library that are outstanding together, under the schedules of
  \<open>Schedules\<close> in which no settings change reloads the model while a load is pending.

  \<^item> \<open>preloaded\<close>, \<open>call_served\<close>, \<open>served_after\<close>, \<open>task_served\<close>, \<open>served_inv\<close>: every
    inference, made or pending, is given a configuration whose model options a \<open>preload\<close>
    has resolved for before. The trace records a call when it settles, so "before" is
    the order of the trace.
  \<^item> \<open>pending_shape\<close>: what can be pending together, at most an inference followed by a
    reload (\<open>is_reload\<close>) that a settings change started during it.
  \<^item> \<open>removal_then_load\<close>, \<open>load_then_removal\<close>: the two orders in which the two settle,
    with given outcomes; \<open>same_up_to_order\<close> compares the states they end in through the
    multiset of the effect trace.

  The lemmas show: \<open>served_inv\<close> and \<open>pending_shape\<close> hold under \<open>panel_waits\<close>, by rule
  induction from a lemma for the start of a handler and one for its end
  (\<open>served_inv_start\<close>, \<open>served_inv_finish\<close>, \<open>pending_shape_start\<close>, \<open>pending_shape_finish\<close>),
  using \<open>load_inv\<close> of \<open>Schedules\<close> and \<open>async_inv\<close> of \<open>AppAsync\<close>; both orders of settling
  are defined (\<open>settle_orders_defined\<close>), they agree when the inference resolves
  (\<open>settle_orders_commute\<close>) and differ in the message on display when it is rejected and
  the reload resolves (\<open>settle_orders_differ\<close>).
\<close>

section \<open>Definitions\<close>

subsection \<open>Inferences and the model they run on\<close>

text \<open>
  \<open>preloaded\<close> are the model options for which a \<open>preload\<close> of the trace has resolved.
  \<open>served_after ok tr\<close>: every call of \<open>removeBackground\<close> in \<open>tr\<close> is given a configuration
  whose model options are in \<open>ok\<close> or have been preloaded earlier in \<open>tr\<close>. \<open>task_served\<close>
  is the same for an inference that is pending, and \<open>served_inv\<close> states both of a state.
\<close>

definition preloaded :: "('e, 'b) effect list \<Rightarrow> preload_options set" where
  "preloaded tr = set (List.map_filter loaded_options tr)"

fun call_served :: "preload_options set \<Rightarrow> ('e, 'b) effect \<Rightarrow> bool" where
  "call_served ok (RemoveBackgroundCall f c r) = (preload_options_of c \<in> ok)"
| "call_served ok _ = True"

fun served_after :: "preload_options set \<Rightarrow> ('e, 'b) effect list \<Rightarrow> bool" where
  "served_after ok [] = True"
| "served_after ok (x # tr) = (call_served ok x \<and> served_after (ok \<union> preloaded [x]) tr)"

fun task_served :: "preload_options set \<Rightarrow> task \<Rightarrow> bool" where
  "task_served ok (Removal f c u) = (preload_options_of c \<in> ok)"
| "task_served ok _ = True"

definition served_inv :: "('e, 'b) async_state \<Rightarrow> bool" where
  "served_inv a \<longleftrightarrow>
     served_after {} (trace (wrapper (sys a))) \<and>
     list_all (task_served (preloaded (trace (wrapper (sys a))))) (pending a)"

subsection \<open>Two calls pending together\<close>

text \<open>
  Two calls pending at once. \<open>pending_shape\<close>: what can be pending together, at most an
  inference followed by a reload. \<open>removal_then_load\<close> and \<open>load_then_removal\<close>: the two
  orders in which the two can settle, with given outcomes. \<open>same_up_to_order\<close>: two states
  that differ at most in the order of the effect trace and in the file input.
  \<open>sample_both_pending\<close>: the model loads, a file is selected, and the device is changed
  while the inference is pending.
\<close>

definition same_up_to_order :: "('e, 'b) system \<Rightarrow> ('e, 'b) system \<Rightarrow> bool" where
  "same_up_to_order s s' \<longleftrightarrow>
     ui s = ui s' \<and> isModelLoaded (wrapper s) = isModelLoaded (wrapper s') \<and>
     mset (trace (wrapper s)) = mset (trace (wrapper s')) \<and>
     object_urls (dom s) = object_urls (dom s') \<and> next_url (dom s) = next_url (dom s') \<and>
     downloads (dom s) = downloads (dom s')"

definition removal_then_load ::
  "('e, 'b) outcome \<Rightarrow> ('e, unit) outcome \<Rightarrow> ('e, 'b) async_event list" where
  "removal_then_load r l = [Settle 0 (Removed r), Settle 0 (Preloaded l)]"

definition load_then_removal ::
  "('e, 'b) outcome \<Rightarrow> ('e, unit) outcome \<Rightarrow> ('e, 'b) async_event list" where
  "load_then_removal r l = [Settle 1 (Preloaded l), Settle 0 (Removed r)]"

fun is_reload :: "task \<Rightarrow> bool" where
  "is_reload (Reload opts) = True"
| "is_reload _ = False"

definition pending_shape :: "task list \<Rightarrow> bool" where
  "pending_shape ts \<longleftrightarrow>
     (case ts of
        [] \<Rightarrow> True
      | [t] \<Rightarrow> True
      | [t, t'] \<Rightarrow> is_removal t \<and> is_reload t'
      | _ \<Rightarrow> False)"

definition sample_both_pending :: "(string, format) async_event list" where
  "sample_both_pending =
     [Settle 0 (Preloaded (Resolved ())), User (FileChange [sample_file]),
      User (Panel (DeviceButton Gpu))]"

section \<open>Lemmas\<close>

lemma settle_orders_defined:
  assumes "pending a = [Removal f c u, t]" and "load_of t \<noteq> []"
  shows "\<exists>a1 a2. async_run (removal_then_load r l) a = Some a1 \<and>
           async_run (load_then_removal r l) a = Some a2 \<and> pending a1 = [] \<and> pending a2 = []"
  using assms by (cases t) (simp_all add: removal_then_load_def load_then_removal_def)

lemma settle_orders_commute:
  assumes "pending a = [Removal f c u, t]" and "load_of t \<noteq> []"
    and "async_run (removal_then_load (Resolved b) l) a = Some a1"
    and "async_run (load_then_removal (Resolved b) l) a = Some a2"
  shows "same_up_to_order (sys a1) (sys a2)"
  using assms
  by (cases t; cases l)
     (auto simp: removal_then_load_def load_then_removal_def same_up_to_order_def
        finish_initModel_eqs finish_handleConfigChange_eqs finish_handleFileSelect_eqs
        render_def show_upload_def)

lemma settle_orders_differ:
  assumes "pending a = [Removal f c u, Reload opts]"
    and "async_run (removal_then_load (Rejected e) (Resolved ())) a = Some a1"
    and "async_run (load_then_removal (Rejected e) (Resolved ())) a = Some a2"
  shows "error (ui (sys a1)) = None \<and>
         error (ui (sys a2)) = Some (Error_message Background_removal_failed_retry)"
  using assms
  by (auto simp: removal_then_load_def load_then_removal_def
        finish_handleConfigChange_eqs finish_handleFileSelect_eqs)

lemma loads_Nil_iff: "loads ts = [] \<longleftrightarrow> list_all is_removal ts"
proof (induction ts)
  case (Cons t ts)
  then show ?case by (cases t) simp_all
qed simp

lemma removal_not_reload [simp]: "is_removal t \<Longrightarrow> \<not> is_reload t"
  by (cases t) simp_all

lemma removals_all: "list_all is_removal ts \<Longrightarrow> removals ts = length ts"
  by (induction ts) (simp_all add: removals_def)

text \<open>What a handler leaves pending when it is started.\<close>

lemma start_handler_tasks:
  assumes "enabled s ev"
  shows "snd (start_handler ev s) = [] \<or>
         (\<exists>f c u. snd (start_handler ev s) = [Removal f c u] \<and>
            isModelLoaded (wrapper s) \<and> \<not> isProcessing (ui s)) \<or>
         (\<exists>opts. snd (start_handler ev s) = [Reload opts] \<and> reloads s ev)"
proof (cases ev)
  case (Panel pev)
  then show ?thesis
    by (cases "panel_click (config (ui s)) pev")
       (auto simp: reloads_def begin_handleConfigChange_unfold)
qed (use assms in \<open>auto simp: begin_handleFileSelect_unfold show_upload_def isModelReady_def
      Let_def split: list.splits\<close>)

lemma pending_shape_start:
  assumes "pending_shape ts" and "load_inv \<lparr>sys = s, pending = ts\<rparr>"
    and "async_inv \<lparr>sys = s, pending = ts\<rparr>" and "enabled s ev"
    and "reloads s ev \<longrightarrow> loads ts = []"
  shows "pending_shape (ts @ snd (start_handler ev s))"
proof -
  consider "snd (start_handler ev s) = []"
    | f c u where "snd (start_handler ev s) = [Removal f c u]"
        "isModelLoaded (wrapper s)" "\<not> isProcessing (ui s)"
    | opts where "snd (start_handler ev s) = [Reload opts]" "reloads s ev"
    using start_handler_tasks [OF assms(4)] by blast
  then show ?thesis
  proof cases
    case 1
    with assms(1) show ?thesis by simp
  next
    case 2
    from 2(2) assms(2) have "list_all is_removal ts"
      by (auto simp: load_inv_def loads_Nil_iff [symmetric] split: list.splits)
    moreover from 2(3) assms(3) have "removals ts = 0" by (simp add: async_inv_def)
    ultimately have "ts = []" using removals_all by fastforce
    with 2(1) show ?thesis by (simp add: pending_shape_def)
  next
    case 3
    with assms(5) have all: "list_all is_removal ts" by (simp add: loads_Nil_iff)
    with assms(1) 3(1) show ?thesis
      by (auto simp: pending_shape_def split: list.splits)
  qed
qed

lemma pending_shape_finish:
  assumes "pending_shape ts" and "i < length ts"
  shows "pending_shape (take i ts @ drop (Suc i) ts)"
proof -
  from assms(1) have "length ts \<le> 2" by (auto simp: pending_shape_def split: list.splits)
  with assms(2) have "length (take i ts @ drop (Suc i) ts) \<le> 1" by simp
  then show ?thesis
    by (cases "take i ts @ drop (Suc i) ts") (auto simp: pending_shape_def split: list.splits)
qed

lemma pending_shape_exec:
  assumes "pending_shape (pending a)" and "load_inv a" and "async_inv a"
    and "panel_waits a e" and "async_exec e a = Some a'"
  shows "pending_shape (pending a')"
proof (cases e)
  case (User ev)
  with assms(5) have en: "enabled (sys a) ev"
    and a': "pending a' = pending a @ snd (start_handler ev (sys a))"
    by (auto split: if_splits prod.splits)
  from pending_shape_start [of "pending a" "sys a" ev] assms(1-4) en User show ?thesis
    by (cases a) (simp add: a' panel_waits_def)
next
  case (Settle i r)
  with assms(5) have "i < length (pending a)"
    and "pending a' = take i (pending a) @ drop (Suc i) (pending a)"
    by (auto split: if_splits)
  with pending_shape_finish [OF assms(1)] show ?thesis by simp
qed

lemma reachable_under_pending_shape:
  assumes "async_reachable_under panel_waits a"
  shows "pending_shape (pending a)"
  using assms
proof (induction rule: async_reachable_under.induct)
  case start
  show ?case by (simp add: pending_shape_def async_mounted_eq)
next
  case (step a e a')
  from step.hyps(1) have "load_inv a" "async_inv a"
    by (simp_all add: reachable_under_load_inv reachable_under_reachable async_reachable_inv)
  with step show ?case by (blast intro: pending_shape_exec)
qed

lemma two_pending:
  assumes "pending_shape ts" and "1 < length ts"
  obtains f c u opts where "ts = [Removal f c u, Reload opts]"
proof -
  from assms obtain t t' where ts: "ts = [t, t']" "is_removal t" "is_reload t'"
    by (auto simp: pending_shape_def split: list.splits)
  then show ?thesis by (cases t; cases t') (auto intro: that)
qed

text \<open>
  \<^bold>\<open>C22\<close> (equivalence). If the settings panel changed no model option while a load is
  pending, two calls are pending together only as an inference followed by a reload
  that a settings change started during the inference. The two can settle in either
  order. If the inference resolves, both orders end in the same state up to the order of
  the effect trace. If the inference is rejected and the reload resolves, the orders
  differ: the message of the failed inference is on display when the reload settled
  first, and is erased by the \<open>setError(null)\<close> of \<open>handleConfigChange\<close> when the reload
  settled last.
\<close>

theorem guarded_settlements_commute:
  assumes "async_reachable_under panel_waits a" and "1 < length (pending a)"
  shows "\<exists>f c u opts a1 a2 a3 a4.
           pending a = [Removal f c u, Reload opts] \<and>
           async_run (removal_then_load (Resolved b) l) a = Some a1 \<and>
           async_run (load_then_removal (Resolved b) l) a = Some a2 \<and>
           pending a1 = [] \<and> pending a2 = [] \<and> same_up_to_order (sys a1) (sys a2) \<and>
           async_run (removal_then_load (Rejected e) (Resolved ())) a = Some a3 \<and>
           async_run (load_then_removal (Rejected e) (Resolved ())) a = Some a4 \<and>
           error (ui (sys a3)) = None \<and>
           error (ui (sys a4)) = Some (Error_message Background_removal_failed_retry)"
proof -
  from reachable_under_pending_shape [OF assms(1)] assms(2)
  obtain f c u opts where p: "pending a = [Removal f c u, Reload opts]"
    by (rule two_pending)
  from settle_orders_defined [OF p, of "Resolved b" l] obtain a1 a2
    where c: "async_run (removal_then_load (Resolved b) l) a = Some a1"
      "async_run (load_then_removal (Resolved b) l) a = Some a2" "pending a1 = []" "pending a2 = []"
    by auto
  from settle_orders_defined [OF p, of "Rejected e" "Resolved ()"] obtain a3 a4
    where d: "async_run (removal_then_load (Rejected e) (Resolved ())) a = Some a3"
      "async_run (load_then_removal (Rejected e) (Resolved ())) a = Some a4"
    by auto
  from settle_orders_commute [OF p _ c(1,2)] settle_orders_differ [OF p d] p c d
  show ?thesis by simp
qed

lemma guarded_both_pending:
  "guarded_run panel_waits sample_both_pending async_mounted =
     async_run sample_both_pending async_mounted"
  by (simp add: sample_both_pending_def schedule_eval del: panel_click.simps)

lemma both_pending_eq:
  "\<exists>a. async_run sample_both_pending async_mounted = Some a \<and>
       pending a = [Removal sample_file defaultConfig 0,
                    Reload (preload_options_of (defaultConfig\<lparr>device := Gpu\<rparr>))]"
  by (simp add: sample_both_pending_def schedule_eval del: panel_click.simps)

theorem guarded_settlements_commute_witness:
  "\<exists>a a1 a2. guarded_run panel_waits sample_both_pending async_mounted = Some a \<and>
     1 < length (pending a) \<and>
     async_run (removal_then_load (Resolved Image_png) (Resolved ())) a = Some a1 \<and>
     async_run (load_then_removal (Resolved Image_png) (Resolved ())) a = Some a2 \<and>
     same_up_to_order (sys a1) (sys a2)"
proof -
  from both_pending_eq obtain a
    where a: "guarded_run panel_waits sample_both_pending async_mounted = Some a"
      and p: "1 < length (pending a)"
    by (auto simp: guarded_both_pending)
  from a have "async_reachable_under panel_waits a"
    by (rule guarded_run_reachable [OF async_reachable_under.start])
  from guarded_settlements_commute [OF this p, of Image_png "Resolved ()"] a p
  show ?thesis by blast
qed

lemma preloaded_simps [simp]:
  "preloaded [] = {}"
  "preloaded (x # tr) =
     (case loaded_options x of Some opts \<Rightarrow> insert opts (preloaded tr) | None \<Rightarrow> preloaded tr)"
  "preloaded (tr @ tr') = preloaded tr \<union> preloaded tr'"
  by (auto simp: preloaded_def List.map_filter_def split: option.splits)

lemma served_mono:
  assumes "ok \<subseteq> ok'"
  shows "call_served ok x \<Longrightarrow> call_served ok' x"
    and "task_served ok t \<Longrightarrow> task_served ok' t"
proof -
  show "call_served ok x \<Longrightarrow> call_served ok' x" using assms by (cases x) auto
  show "task_served ok t \<Longrightarrow> task_served ok' t" using assms by (cases t) auto
qed

lemma served_after_mono:
  assumes "served_after ok tr" and "ok \<subseteq> ok'"
  shows "served_after ok' tr"
  using assms
proof (induction tr arbitrary: ok ok')
  case (Cons x tr)
  from Cons.prems have "served_after (ok \<union> preloaded [x]) tr" by simp
  moreover from Cons.prems(2) have "ok \<union> preloaded [x] \<subseteq> ok' \<union> preloaded [x]" by blast
  ultimately have "served_after (ok' \<union> preloaded [x]) tr" by (rule Cons.IH)
  with Cons.prems show ?case by (auto intro: served_mono)
qed simp

lemma served_after_append:
  "served_after ok (tr @ tr') \<longleftrightarrow> served_after ok tr \<and> served_after (ok \<union> preloaded tr) tr'"
proof (induction tr arbitrary: ok)
  case (Cons x tr)
  show ?case by (cases "loaded_options x") (simp_all add: Cons.IH Un_assoc insert_commute)
qed simp

lemma last_preloaded_in:
  assumes "last_preloaded tr = Some opts"
  shows "opts \<in> preloaded tr"
  using assms by (induction tr) (auto split: option.splits)

lemma start_handler_trace: "trace (wrapper (fst (start_handler ev s))) = trace (wrapper s)"
proof (cases ev)
  case (Panel pev)
  then show ?thesis
    by (cases "panel_click (config (ui s)) pev")
       (simp_all add: begin_handleConfigChange_unfold onToggle_def setter_defs)
qed (simp_all add: begin_initModel_unfold begin_handleFileSelect_unfold handleDragOver_def
      handleDragLeave_def setDragOver_def downloadImage_def reset_eq Let_def
      split: list.splits option.splits)

lemma start_handler_removal:
  assumes "Removal f c u \<in> set (snd (start_handler ev s))"
  shows "c = config (ui s) \<and> isModelLoaded (wrapper s)"
proof (cases ev)
  case (Panel pev)
  with assms show ?thesis
    by (cases "panel_click (config (ui s)) pev")
       (auto simp: begin_handleConfigChange_unfold split: if_splits)
qed (use assms in \<open>auto simp: begin_initModel_unfold begin_handleFileSelect_unfold Let_def
      setDragOver_def split: list.splits if_splits\<close>)

lemma served_inv_start:
  assumes "served_inv \<lparr>sys = s, pending = ts\<rparr>" and "load_inv \<lparr>sys = s, pending = ts\<rparr>"
  shows "served_inv \<lparr>sys = render (fst (start_handler ev s)),
           pending = ts @ snd (start_handler ev s)\<rparr>"
proof -
  have "task_served (preloaded (trace (wrapper s))) t"
    if "t \<in> set (snd (start_handler ev s))" for t
  proof (cases t)
    case (Removal f c u)
    with start_handler_removal [of f c u ev s] that
    have c: "c = config (ui s)" "isModelLoaded (wrapper s)" by simp_all
    with assms(2) have "last_preloaded (trace (wrapper s)) = Some (preload_options_of c)"
      by (auto simp: load_inv_def model_matches_def split: list.splits)
    with Removal show ?thesis by (simp add: last_preloaded_in)
  qed simp_all
  with assms(1) show ?thesis
    by (auto simp: served_inv_def start_handler_trace list_all_iff)
qed

text \<open>What the end of a handler appends to the trace.\<close>

lemma finish_handler_trace:
  assumes "finish_handler t r s \<noteq> None"
  shows "\<exists>tr. trace (wrapper (the (finish_handler t r s))) = trace (wrapper s) @ tr \<and>
           (task_served ok t \<longrightarrow> served_after ok tr)"
proof (cases "(t, r, s)" rule: finish_handler.cases)
  case (1 opts r0 s0)
  then show ?thesis by (cases r0) (simp_all add: finish_initModel_eqs)
next
  case (2 opts r0 s0)
  then show ?thesis by (cases r0) (simp_all add: finish_handleConfigChange_eqs)
next
  case (3 f c u r0 s0)
  then show ?thesis by (cases r0) (simp_all add: finish_handleFileSelect_eqs)
qed (use assms in simp_all)

lemma served_inv_finish:
  assumes "served_inv \<lparr>sys = s, pending = ts\<rparr>" and "i < length ts"
    and "finish_handler (ts ! i) r s \<noteq> None"
  shows "served_inv \<lparr>sys = render (the (finish_handler (ts ! i) r s)),
           pending = take i ts @ drop (Suc i) ts\<rparr>"
proof -
  let ?ok = "preloaded (trace (wrapper s))"
  from assms(1) have all: "\<forall>t \<in> set ts. task_served ?ok t"
    by (simp add: served_inv_def list_all_iff)
  with assms(2) have "task_served ?ok (ts ! i)" by simp
  with finish_handler_trace [OF assms(3), of ?ok] obtain tr
    where tr: "trace (wrapper (the (finish_handler (ts ! i) r s))) = trace (wrapper s) @ tr"
      and "served_after ?ok tr"
    by blast
  moreover have "task_served (?ok \<union> preloaded tr) t"
    if "t \<in> set (take i ts @ drop (Suc i) ts)" for t
  proof -
    from that have "t \<in> set ts" by (auto dest: in_set_takeD in_set_dropD)
    with all show ?thesis by (auto intro: served_mono)
  qed
  ultimately show ?thesis
    using assms(1) by (simp add: served_inv_def served_after_append list_all_iff)
qed

lemma served_inv_exec:
  assumes "served_inv a" and "load_inv a" and "async_exec e a = Some a'"
  shows "served_inv a'"
proof (cases e)
  case (User ev)
  with assms(3) have a': "a' = \<lparr>sys = render (fst (start_handler ev (sys a))),
                   pending = pending a @ snd (start_handler ev (sys a))\<rparr>"
    by (auto split: if_splits prod.splits)
  from served_inv_start [of "sys a" "pending a" ev] assms(1,2) show ?thesis
    by (cases a) (simp add: a')
next
  case (Settle i r)
  with assms(3) have i: "i < length (pending a)"
    and f: "finish_handler (pending a ! i) r (sys a) \<noteq> None"
    and a': "a' = \<lparr>sys = render (the (finish_handler (pending a ! i) r (sys a))),
                   pending = take i (pending a) @ drop (Suc i) (pending a)\<rparr>"
    by (auto split: if_splits)
  from served_inv_finish [of "sys a" "pending a" i r] assms(1) i f show ?thesis
    by (cases a) (simp add: a')
qed

lemma reachable_under_served_inv:
  assumes "async_reachable_under panel_waits a"
  shows "served_inv a"
  using assms
proof (induction rule: async_reachable_under.induct)
  case start
  show ?case by (simp add: served_inv_def async_mounted_eq initial_world_def)
next
  case (step a e a')
  from step.hyps(1) have "load_inv a" by (rule reachable_under_load_inv)
  with step show ?case by (blast intro: served_inv_exec)
qed

text \<open>
  \<^bold>\<open>C17\<close> (safety). If the settings panel changed no model option while a load is
  pending, no inference runs on a model that was not loaded: in the effect trace of every
  schedule each call of \<open>removeBackground\<close> comes after a \<open>preload\<close> that resolved for the
  model options of the configuration it is given, and so does every inference that is
  still pending. The schedule \<open>race_stale\<close>, in which the device is changed during the
  initial load, ends in a trace for which this is false.
\<close>

theorem guarded_inference_has_its_model:
  assumes "async_reachable_under panel_waits a"
  shows "served_after {} (trace (wrapper (sys a))) \<and>
         (\<forall>t \<in> set (pending a). task_served (preloaded (trace (wrapper (sys a)))) t)"
  using reachable_under_served_inv [OF assms] by (simp add: served_inv_def list_all_iff)

lemma gpu_options_differ:
  "preload_options_of (defaultConfig\<lparr>device := Gpu\<rparr>) \<noteq> preload_options_of defaultConfig"
  by (simp add: preload_options_of_def defaultConfig_def)

lemma race_stale_not_served:
  "\<exists>a. async_run race_stale async_mounted = Some a \<and> \<not> served_after {} (trace (wrapper (sys a)))"
  by (simp add: race_stale_def schedule_eval gpu_options_differ del: panel_click.simps)

theorem guarded_inference_has_its_model_witness:
  "\<exists>a. guarded_run panel_waits sample_both_pending async_mounted = Some a \<and>
       pending a = [Removal sample_file defaultConfig 0,
                    Reload (preload_options_of (defaultConfig\<lparr>device := Gpu\<rparr>))] \<and>
       preload_options_of defaultConfig \<in> preloaded (trace (wrapper (sys a))) \<and>
       (\<exists>a'. async_run race_stale async_mounted = Some a' \<and>
             \<not> served_after {} (trace (wrapper (sys a'))))"
proof -
  from both_pending_eq obtain a
    where a: "guarded_run panel_waits sample_both_pending async_mounted = Some a"
      and p: "pending a = [Removal sample_file defaultConfig 0,
                    Reload (preload_options_of (defaultConfig\<lparr>device := Gpu\<rparr>))]"
    by (auto simp: guarded_both_pending)
  from a have "async_reachable_under panel_waits a"
    by (rule guarded_run_reachable [OF async_reachable_under.start])
  from guarded_inference_has_its_model [OF this] a p race_stale_not_served
  show ?thesis by simp
qed

end
