(* ===== verification/View.thy ===== *)
theory View
  imports AppAsync
begin

text \<open>
  What \<open>App\<close> of \<^verbatim>\<open>src/src/App.tsx\<close> returns: the sections of the page as functions of
  the state, with the values the JSX interpolates.

  \<^item> \<open>loading_section\<close>: the loading text with \<open>config.model\<close> and the bar whose width is
    \<open>loadingProgress\<close> per cent.
  \<^item> \<open>upload_section\<close>: the drop zone, highlighted while \<open>dragOver\<close>, and the \<open>accept\<close>
    attribute of its file input.
  \<^item> \<open>processing_section\<close>: the text with \<open>config.model\<close> and the action chosen by the
    nested conditional on \<open>config.output.type\<close>; the three texts are named by the
    constructors of \<open>processing_action\<close>.
  \<^item> \<open>results_section\<close>: the sources of the two images, the heading and the \<open>alt\<close> text
    from \<open>getOutputTypeLabel\<close>, the chequered background and its colour, which depend on
    \<open>config.output.type\<close>, and the four entries of the configuration summary.
  \<^item> \<open>view\<close>: the page; a section that is not rendered is \<open>None\<close>.
  \<^item> \<open>offers\<close>: the events a page can raise, read off the sections that are rendered and
    the settings panel as rendered with its props; \<open>view_offers\<close> shows that these are the
    events \<open>enabled\<close> of \<open>App\<close> admits.
  \<^item> \<open>shown_inv\<close>: what the images on display are, stated over the interleaving model of
    \<open>AppAsync\<close>.

  \<^item> \<open>hint_types\<close>, \<open>feature_formats\<close>: the formats two texts of the page name, compared
    with the check of \<open>handleFileSelect\<close> and the buttons of the panel.

  The rest of the static markup (header, class names, icons) carries no state and is left
  out.
\<close>

section \<open>Definitions\<close>

record loading_section =
  loading_model :: string
  bar_width :: nat

record upload_section =
  highlighted :: bool
  accept :: string

datatype processing_action =
    Action_background_removal
  | Action_background_extraction
  | Action_mask_generation

record processing_section =
  processing_model :: string
  action :: processing_action

record results_section =
  original_src :: url
  processed_src :: url
  heading :: result_label
  processed_alt :: result_label
  chequered :: bool
  backgroundColor :: string
  summary_model :: string
  summary_device :: string
  summary_format :: "string option"
  summary_quality :: int

record page =
  panel_config :: config
  panel_isOpen :: bool
  loading_part :: "loading_section option"
  upload_part :: "upload_section option"
  processing_part :: "processing_section option"
  error_part :: "app_message option"
  results_part :: "results_section option"

definition loading_view :: "('e, 'b) system \<Rightarrow> loading_section" where
  "loading_view s =
     \<lparr>loading_model = model_value (model (config (ui s))),
      bar_width = loadingProgress (ui s)\<rparr>"

definition upload_view :: "('e, 'b) system \<Rightarrow> upload_section" where
  "upload_view s = \<lparr>highlighted = dragOver (ui s), accept = ''image/*''\<rparr>"

definition processing_view :: "('e, 'b) system \<Rightarrow> processing_section" where
  "processing_view s =
     \<lparr>processing_model = model_value (model (config (ui s))),
      action =
        (if type_value (type (output (config (ui s)))) = ''foreground''
         then Action_background_removal
         else if type_value (type (output (config (ui s)))) = ''background''
         then Action_background_extraction
         else Action_mask_generation)\<rparr>"

definition results_view :: "('e, 'b) system \<Rightarrow> processed_image \<Rightarrow> results_section" where
  "results_view s img =
     \<lparr>original_src = original img,
      processed_src = processed img,
      heading = getOutputTypeLabel (config (ui s)),
      processed_alt = getOutputTypeLabel (config (ui s)),
      chequered = (type_value (type (output (config (ui s)))) = ''foreground''),
      backgroundColor =
        (if type_value (type (output (config (ui s)))) = ''foreground''
         then ''#f9fafb'' else ''#ffffff''),
      summary_model = model_value (model (config (ui s))),
      summary_device = device_label (config (ui s)),
      summary_format = format_label (config (ui s)),
      summary_quality = quality_label (config (ui s))\<rparr>"

definition view :: "('e, 'b) system \<Rightarrow> page" where
  "view s =
     \<lparr>panel_config = config (ui s),
      panel_isOpen = configPanelOpen (ui s),
      loading_part = (if show_loading s then Some (loading_view s) else None),
      upload_part = (if show_upload s then Some (upload_view s) else None),
      processing_part = (if show_processing s then Some (processing_view s) else None),
      error_part = (if show_error s then error (ui s) else None),
      results_part =
        (if show_results s then map_option (results_view s) (processedImage (ui s))
         else None)\<rparr>"

text \<open>
  The events a page can raise, read off what is rendered: those of the settings panel
  as rendered with its props, the drag events and the change of the file input if the
  upload area is there, the two buttons of the results if the results are there.
\<close>

fun offers :: "page \<Rightarrow> app_event \<Rightarrow> bool" where
  "offers p Mount = False"
| "offers p (Panel ev) = offered (ConfigPanel (panel_config p) (panel_isOpen p)) ev"
| "offers p (Drop files) = (upload_part p \<noteq> None)"
| "offers p DragOver = (upload_part p \<noteq> None)"
| "offers p DragLeave = (upload_part p \<noteq> None)"
| "offers p (FileChange files) = (upload_part p \<noteq> None)"
| "offers p DownloadClick = (results_part p \<noteq> None)"
| "offers p ResetClick = (results_part p \<noteq> None)"

text \<open>
  The number of the three main sections (upload area, processing notice, results) that
  a page has.
\<close>

definition main_sections :: "page \<Rightarrow> nat" where
  "main_sections p =
     (if upload_part p = None then 0 else 1) +
     (if processing_part p = None then 0 else 1) +
     (if results_part p = None then 0 else 1)"

text \<open>
  \<open>shown_inv\<close>: the upload of a pending inference is a live object URL of the file that
  was selected; the two images of a result on display are live object URLs, the first of
  a file the library was given, the second of the blob the library returned for that
  file, and the name kept with the result is the name of that file.
\<close>

definition shown_inv :: "('e, 'b) async_state \<Rightarrow> bool" where
  "shown_inv a \<longleftrightarrow>
     (\<forall>f c u. Removal f c u \<in> set (pending a) \<longrightarrow>
        (u, File_object f) \<in> set (object_urls (dom (sys a)))) \<and>
     (\<forall>img. processedImage (ui (sys a)) = Some img \<longrightarrow>
        (\<exists>f c b. RemoveBackgroundCall f c (Resolved b) \<in> set (trace (wrapper (sys a))) \<and>
           (original img, File_object f) \<in> set (object_urls (dom (sys a))) \<and>
           (processed img, Blob_object b) \<in> set (object_urls (dom (sys a))) \<and>
           filename img = file_name f))"

text \<open>
  Two texts of the page state facts about the program: the hint under the heading of
  the upload area names the formats JPG, PNG and WEBP, and the third entry of the
  feature list names PNG, JPEG and WebP as the formats of the output. They are given
  here by media type and by constructor.
\<close>

definition hint_types :: "string list" where
  "hint_types = [''image/jpeg'', ''image/png'', ''image/webp'']"

definition feature_formats :: "format list" where
  "feature_formats = [Image_png, Image_jpeg, Image_webp]"

text \<open>A schedule for the theorems: the model loads, a file is selected, the inference resolves.\<close>

definition sample_shown :: "(string, format) async_event list" where
  "sample_shown = sample_processing @ [Settle 0 (Removed (Resolved Image_png))]"

section \<open>Lemmas\<close>

lemma view_simps [simp]:
  "panel_config (view s) = config (ui s)"
  "panel_isOpen (view s) = configPanelOpen (ui s)"
  "loading_part (view s) = (if show_loading s then Some (loading_view s) else None)"
  "upload_part (view s) = (if show_upload s then Some (upload_view s) else None)"
  "processing_part (view s) = (if show_processing s then Some (processing_view s) else None)"
  "error_part (view s) = error (ui s)"
  "results_part (view s) = map_option (results_view s) (processedImage (ui s))"
  by (auto simp: view_def show_error_def show_results_def)

text \<open>The events \<open>enabled\<close> admits in a state are those its page can raise.\<close>

lemma view_offers: "offers (view s) ev \<longleftrightarrow> enabled s ev"
  by (cases ev) (simp_all add: ConfigPanel_offers show_results_def)

lemma Removal_in_uploads:
  assumes "Removal f c u \<in> set ts"
  shows "u \<in> set (uploads ts)"
  using assms by (induction ts) auto

lemma shown_inv_start:
  assumes "shown_inv \<lparr>sys = s, pending = ts\<rparr>" and "async_urls_inv \<lparr>sys = s, pending = ts\<rparr>"
    and "enabled s ev"
  shows "shown_inv \<lparr>sys = render (fst (start_handler ev s)),
           pending = ts @ snd (start_handler ev s)\<rparr>"
proof (cases ev)
  case (Panel pev)
  with assms(1) show ?thesis
    by (cases "panel_click (config (ui s)) pev")
       (auto simp: shown_inv_def begin_handleConfigChange_unfold onToggle_def setter_defs)
next
  case (Drop files)
  with assms(1,3) show ?thesis
    by (cases files)
       (auto simp: shown_inv_def begin_handleFileSelect_unfold setDragOver_def Let_def
          show_upload_def)
next
  case (FileChange files)
  with assms(1,3) show ?thesis
    by (cases files) (auto simp: shown_inv_def begin_handleFileSelect_unfold show_upload_def)
next
  case DownloadClick
  with assms(1) show ?thesis
    by (auto simp: shown_inv_def downloadImage_def setter_defs split: option.splits)
next
  case ResetClick
  with assms have "uploads ts = []" by (auto simp: async_urls_inv_def show_results_def)
  with Removal_in_uploads [of _ _ _ ts] have "\<And>f c u. Removal f c u \<notin> set ts" by fastforce
  with ResetClick show ?thesis by (simp add: shown_inv_def reset_eq)
qed (use assms(1,3) in \<open>auto simp: shown_inv_def handleDragOver_def handleDragLeave_def
      setDragOver_def\<close>)

lemma set_remove_nth_subset: "set (take i ts @ drop (Suc i) ts) \<subseteq> set ts"
  by (auto dest: in_set_takeD in_set_dropD)

lemma shown_inv_finish:
  assumes "shown_inv \<lparr>sys = s, pending = ts\<rparr>"
    and "i < length ts" and "finish_handler (ts ! i) r s \<noteq> None"
  shows "shown_inv \<lparr>sys = render (the (finish_handler (ts ! i) r s)),
           pending = take i ts @ drop (Suc i) ts\<rparr>"
proof (cases "(ts ! i, r, s)" rule: finish_handler.cases)
  case (1 opts r0 s0)
  with assms set_remove_nth_subset [of i ts] show ?thesis
    by (cases r0) (auto simp: shown_inv_def finish_initModel_eqs; blast)+
next
  case (2 opts r0 s0)
  with assms set_remove_nth_subset [of i ts] show ?thesis
    by (cases r0) (auto simp: shown_inv_def finish_handleConfigChange_eqs; blast)+
next
  case (3 f c u r0 s0)
  with assms(2) have "Removal f c u \<in> set ts" by (metis nth_mem Pair_inject)
  with 3 assms set_remove_nth_subset [of i ts] show ?thesis
    by (cases r0) (auto simp: shown_inv_def finish_handleFileSelect_eqs; blast)+
qed (use assms in simp_all)

lemma sample_shown_eq:
  "async_run sample_shown async_mounted =
     Some \<lparr>sys = \<lparr>ui = initial_app_state\<lparr>processedImage :=
                        Some \<lparr>original = 0, processed = 1, filename = file_name sample_file\<rparr>,
                      modelLoaded := True, loadingProgress := 100\<rparr>,
                 wrapper = \<lparr>isModelLoaded = True,
                   trace = [PreloadCall (preload_options_of defaultConfig) (Resolved ()),
                            RemoveBackgroundCall sample_file defaultConfig (Resolved Image_png)]\<rparr>,
                 dom = \<lparr>object_urls = [(0, File_object sample_file), (1, Blob_object Image_png)],
                         next_url = 2, downloads = [], fileInput = None\<rparr>\<rparr>,
           pending = []\<rparr>"
  by (simp add: sample_shown_def sample_processing_def async_mounted_eq async_defs br_defs
      Let_def initial_app_state_def sample_file_def max_file_size_def)

lemma shown_inv_exec:
  assumes "shown_inv a" and "async_urls_inv a" and "async_exec e a = Some a'"
  shows "shown_inv a'"
proof (cases e)
  case (User ev)
  with assms(3) have en: "enabled (sys a) ev"
    and a': "a' = \<lparr>sys = render (fst (start_handler ev (sys a))),
                   pending = pending a @ snd (start_handler ev (sys a))\<rparr>"
    by (auto split: if_splits prod.splits)
  from shown_inv_start [of "sys a" "pending a" ev] assms(1,2) en show ?thesis
    by (cases a) (simp add: a')
next
  case (Settle i r)
  with assms(3) have i: "i < length (pending a)"
    and f: "finish_handler (pending a ! i) r (sys a) \<noteq> None"
    and a': "a' = \<lparr>sys = render (the (finish_handler (pending a ! i) r (sys a))),
                   pending = take i (pending a) @ drop (Suc i) (pending a)\<rparr>"
    by (auto split: if_splits)
  from shown_inv_finish [of "sys a" "pending a" i r] assms(1) i f show ?thesis
    by (cases a) (simp add: a')
qed

lemma shown_inv_mounted: "shown_inv async_mounted"
  by (simp add: shown_inv_def async_mounted_eq initial_app_state_def)

lemma async_reachable_shown_inv:
  assumes "async_reachable a"
  shows "shown_inv a"
  using assms
  by (induction rule: async_reachable.induct)
     (simp_all add: shown_inv_mounted shown_inv_exec async_reachable_urls_inv)

lemma map_of_distinct_fst:
  assumes "distinct (map fst xs)" and "(k, v) \<in> set xs"
  shows "map_of xs k = Some v"
  using assms by simp

text \<open>
  \<^bold>\<open>C30\<close> (safety). Under every interleaving the two images of the results section are
  live object URLs: the one shown as original is the URL of a file that was given to the
  library, the one shown as processed is the URL of the blob the library returned for
  that file. A revoked URL is never rendered.
\<close>

theorem results_show_library_output:
  assumes "async_reachable a" and "results_part (view (sys a)) = Some r"
  shows "\<exists>f c b. RemoveBackgroundCall f c (Resolved b) \<in> set (trace (wrapper (sys a))) \<and>
           map_of (object_urls (dom (sys a))) (original_src r) = Some (File_object f) \<and>
           map_of (object_urls (dom (sys a))) (processed_src r) = Some (Blob_object b)"
proof -
  from assms(2) obtain img where img: "processedImage (ui (sys a)) = Some img"
    and r: "r = results_view (sys a) img"
    by auto
  from async_reachable_urls_inv [OF assms(1)]
  have d: "distinct (map fst (object_urls (dom (sys a))))" by (simp add: async_urls_inv_def)
  from async_reachable_shown_inv [OF assms(1)] img show ?thesis
    by (auto simp: shown_inv_def r results_view_def map_of_distinct_fst [OF d]
        simp del: map_of_eq_Some_iff)
qed

theorem results_show_library_output_witness:
  "\<exists>a r. async_run sample_shown async_mounted = Some a \<and> async_reachable a \<and>
     results_part (view (sys a)) = Some r \<and> original_src r = 0 \<and> processed_src r = 1 \<and>
     map_of (object_urls (dom (sys a))) (processed_src r) = Some (Blob_object Image_png)"
proof -
  from sample_shown_eq obtain a
    where a: "async_run sample_shown async_mounted = Some a" by blast
  then have r: "async_reachable a"
    by (rule async_reachable_run [OF async_reachable.start])
  from a obtain r0 where r0: "results_part (view (sys a)) = Some r0"
    by (auto simp: sample_shown_eq)
  from results_show_library_output [OF r r0] a r r0 show ?thesis
    by (auto simp: sample_shown_eq initial_app_state_def results_view_def)
qed

text \<open>
  Under every interleaving the page has at most one of its three main
  sections (upload area, processing notice, results), and when it has none the loading
  bar is on display: the page is never empty and never shows a result beside the
  processing notice.
\<close>

theorem one_main_section:
  assumes "async_reachable a"
  shows "main_sections (view (sys a)) \<le> 1 \<and>
         (main_sections (view (sys a)) = 0 \<longrightarrow> loading_part (view (sys a)) \<noteq> None)"
  using async_reachable_urls_inv [OF assms] async_reachable_inv [OF assms]
  by (auto simp: main_sections_def async_urls_inv_def async_inv_def show_upload_def
      show_processing_def show_loading_def)

theorem one_main_section_witness:
  "\<exists>a. async_run sample_processing async_mounted = Some a \<and> async_reachable a \<and>
     main_sections (view (sys a)) = 1 \<and> processing_part (view (sys a)) \<noteq> None"
proof -
  from sample_processing_eq obtain a
    where a: "async_run sample_processing async_mounted = Some a" by blast
  then have r: "async_reachable a"
    by (rule async_reachable_run [OF async_reachable.start])
  from one_main_section [OF r] a r show ?thesis
    by (auto simp: sample_processing_eq initial_app_state_def main_sections_def
        show_upload_def show_processing_def)
qed

lemma handleFileSelect_progress [simp]:
  "modelLoaded (ui (handleFileSelect lib f s)) = modelLoaded (ui s)"
  "loadingProgress (ui (handleFileSelect lib f s)) = loadingProgress (ui s)"
  by (cases rule: handleFileSelect_cases [where f = f and s = s and lib = lib];
      simp add: handleFileSelect_rejected handleFileSelect_ok handleFileSelect_failed
        setError_def)+

lemma progress_handler:
  assumes "modelLoaded (ui s) \<or> loadingProgress (ui s) = 20" and "enabled s ev"
  shows "modelLoaded (ui (handler lib ev s)) \<or> loadingProgress (ui (handler lib ev s)) = 20"
proof (cases ev)
  case (Panel pev)
  show ?thesis
  proof (cases "panel_click (config (ui s)) pev")
    case (OnConfigChange c)
    with Panel assms show ?thesis
      by (cases rule: handleConfigChange_cases [where c = c and s = s and lib = lib])
         (simp_all add: handleConfigChange_same handleConfigChange_ok handleConfigChange_failed
            setConfig_def)
  next
    case OnToggle
    with Panel assms show ?thesis by (simp add: onToggle_def setter_defs)
  qed
next
  case (Drop files)
  with assms show ?thesis by (cases files) (simp_all add: handleDrop_def Let_def)
next
  case (FileChange files)
  with assms show ?thesis by (cases files) (simp_all add: handleFileChange_def)
qed (use assms in \<open>simp_all add: handleDragOver_def handleDragLeave_def downloadImage_def
      reset_eq split: option.splits\<close>)

lemma progress_mounted:
  "modelLoaded (ui (mounted lib)) \<or> loadingProgress (ui (mounted lib)) = 20"
  by (cases "preload lib [] (preload_options_of defaultConfig)")
     (simp_all add: mounted_def handle_def render_def initial_system_def initial_app_state_def
        initial_world_def initModel_failed initModel_ok)

lemma reachable_progress:
  assumes "app_reachable lib s"
  shows "modelLoaded (ui s) \<or> loadingProgress (ui s) = 20"
  using assms
  by (induction rule: app_reachable.induct)
     (simp_all add: progress_mounted progress_handler handle_def)

text \<open>
  \<^bold>\<open>C40\<close> (bounds). When every call of the library settles before the next event, the
  loading bar has one position: whenever it is on display after the component has
  mounted its width is 20 per cent. The values 0 and 100 that the handlers also store
  are never rendered, the first because it is overwritten before the handler yields, the
  second because the bar is hidden in the same update.
\<close>

theorem loading_bar_shows_20:
  assumes "app_reachable lib s" and "loading_part (view s) = Some l"
  shows "bar_width l = 20 \<and> loading_model l = model_value (model (config (ui s)))"
  using reachable_progress [OF assms(1)] assms(2)
  by (auto simp: show_loading_def loading_view_def split: if_splits)

theorem loading_bar_shows_20_witness:
  "app_reachable lib_offline (mounted lib_offline) \<and>
   loading_part (view (mounted lib_offline)) =
     Some \<lparr>loading_model = ''isnet_fp16'', bar_width = 20\<rparr>"
proof -
  have r: "app_reachable lib_offline (mounted lib_offline)" by (rule app_reachable.mount)
  obtain l where l: "loading_part (view (mounted lib_offline)) = Some l"
    by (simp add: mounted_lib_offline show_loading_def initial_app_state_def)
  from loading_bar_shows_20 [OF r l] r l show ?thesis
    by (simp add: mounted_lib_offline show_loading_def initial_app_state_def loading_view_def)
qed

subsection \<open>What the page says of the program\<close>

lemma hinted_types_accepted:
  assumes "file_type f \<in> set hint_types"
  shows "accepted f \<longleftrightarrow> file_size f \<le> max_file_size"
  using assms by (auto simp: hint_types_def accepted_def)

lemma feature_formats_offered:
  "feature_formats = map fst (format_buttons c)" "set feature_formats = UNIV"
  by (simp_all add: feature_formats_def format_buttons_def UNIV_enum [where 'a = format]
      enum_format_def)

text \<open>
  The check on uploads is wider than the hint. The hint of the upload area names three
  formats; \<open>handleFileSelect\<close> tests that the media type starts with \<^verbatim>\<open>image/\<close>. On a
  module that is ready, a file of any such type and of admissible size is handed to the
  library: a GIF or an SVG is, though the page does not name them. The formats the feature
  list names for the output are those the panel has a button for.
\<close>

theorem upload_check_wider_than_hint:
  assumes "isModelLoaded (wrapper s)"
    and "prefix ''image/'' (file_type f)" and "file_size f \<le> max_file_size"
  shows "(\<exists>r. RemoveBackgroundCall f (config (ui s)) r \<in>
            set (trace (wrapper (handleFileSelect lib f s)))) \<and>
         (\<forall>t \<in> set hint_types. prefix ''image/'' t)"
proof -
  from assms(2,3) have "accepted f" by (simp add: accepted_def)
  with assms(1) have "\<exists>r. RemoveBackgroundCall f (config (ui s)) r \<in>
      set (trace (wrapper (handleFileSelect lib f s)))"
    by (cases rule: handleFileSelect_cases [where f = f and s = s and lib = lib])
       (auto simp: handleFileSelect_ok handleFileSelect_failed)
  then show ?thesis by (simp add: hint_types_def)
qed

theorem upload_check_wider_than_hint_witness:
  "''image/gif'' \<notin> set hint_types \<and> ''image/svg+xml'' \<notin> set hint_types \<and>
   (\<exists>r. RemoveBackgroundCall (sample_file\<lparr>file_type := ''image/gif''\<rparr>) defaultConfig r \<in>
      set (trace (wrapper (handleFileSelect lib_ok (sample_file\<lparr>file_type := ''image/gif''\<rparr>)
        (mounted lib_ok))))) \<and>
   (\<forall>t \<in> set hint_types. accepted (sample_file\<lparr>file_type := t\<rparr>)) \<and>
   feature_formats = map fst (format_buttons defaultConfig)"
  using upload_check_wider_than_hint [of "mounted lib_ok" "sample_file\<lparr>file_type := ''image/gif''\<rparr>"
      lib_ok]
  by (simp add: hint_types_def mounted_lib_ok initial_app_state_def max_file_size_def
      sample_file_def accepted_def feature_formats_def format_buttons_def)

end
