(* ===== verification/Dom.thy ===== *)
theory Dom
  imports View "HOL-Library.State_Monad"
begin

text \<open>
  The document under the component of \<^verbatim>\<open>src/src/App.tsx\<close>: the link that
  \<open>downloadImage\<close> builds, the event objects the handlers of the upload area receive, and
  the page that delivers events to the handlers.

  \<^item> \<open>document\<close> and the operations \<open>createElement\<close>, \<open>set_href\<close>, \<open>set_download\<close>,
    \<open>appendChild\<close>, \<open>click\<close>, \<open>removeChild\<close>: the calls of \<open>downloadImage\<close> on the
    document, as computations in the state monad of \<open>HOL-Library.State_Monad\<close>.
    \<open>removeChild\<close> throws \<open>NotFoundError\<close> for a node that is not a child of the body; a
    click on a link starts a download where the link is attached or the browser follows
    detached links (\<open>follows_detached\<close>).
  \<^item> \<open>downloadImage_dom\<close>: the statements of \<open>downloadImage\<close> in their order.
  \<^item> \<open>onDrop\<close>, \<open>onDragOver\<close>, \<open>onDragLeave\<close>, \<open>onChange\<close>: \<open>handleDrop\<close>,
    \<open>handleDragOver\<close>, \<open>handleDragLeave\<close> and \<open>handleFileChange\<close> on the event object they
    are passed, with \<open>preventDefault\<close>, \<open>Array.from(e.dataTransfer.files)\<close> and
    \<open>e.target.files?.[0]\<close> (\<open>optional_first\<close>).
  \<^item> \<open>dispatch\<close>: the page delivers an event to the handler the JSX attaches; a drop is
    offered only after a dragover that was cancelled (\<open>drop_allowed\<close>), as browsers do.
  \<^item> \<open>abs_page\<close>: the state of \<open>App\<close> a page stands for, with the downloads the document
    started as the download list of the component.

  The lemmas show that a run of \<open>downloadImage_dom\<close> leaves the body as it found it and
  throws nothing, that \<open>dispatch\<close> and \<open>handle\<close> of \<open>App\<close> commute with \<open>abs_page\<close>, and that
  every event \<open>App\<close> admits can be raised by events the page offers.
\<close>

section \<open>Definitions\<close>

subsection \<open>The document\<close>

text \<open>
  Nodes are numbered in the order of their creation. \<open>elements\<close> holds every anchor
  created, attached or not; \<open>body\<close> the children of \<open>document.body\<close>; \<open>started\<close> the
  downloads the browser has begun, as pairs of URL and file name.
\<close>

type_synonym node = nat

record anchor =
  href :: "url option"
  download :: "string option"

datatype dom_exception = NotFoundError

record document =
  elements :: "(node \<times> anchor) list"
  body :: "node list"
  next_node :: node
  started :: "(url \<times> string) list"
  follows_detached :: bool

definition createElement :: "(document, node) state" where
  "createElement = do {
     d \<leftarrow> State_Monad.get;
     State_Monad.set (d\<lparr>elements := elements d @ [(next_node d, \<lparr>href = None, download = None\<rparr>)],
                        next_node := Suc (next_node d)\<rparr>);
     State_Monad.return (next_node d)
   }"

definition update_anchor :: "node \<Rightarrow> (anchor \<Rightarrow> anchor) \<Rightarrow> (document, unit) state" where
  "update_anchor n f =
     State_Monad.update
       (\<lambda>d. d\<lparr>elements := map (\<lambda>(m, a). if m = n then (m, f a) else (m, a)) (elements d)\<rparr>)"

definition set_href :: "node \<Rightarrow> url \<Rightarrow> (document, unit) state" where
  "set_href n u = update_anchor n (\<lambda>a. a\<lparr>href := Some u\<rparr>)"

definition set_download :: "node \<Rightarrow> string \<Rightarrow> (document, unit) state" where
  "set_download n name = update_anchor n (\<lambda>a. a\<lparr>download := Some name\<rparr>)"

definition appendChild :: "node \<Rightarrow> (document, unit) state" where
  "appendChild n = State_Monad.update (\<lambda>d. d\<lparr>body := filter (\<lambda>m. m \<noteq> n) (body d) @ [n]\<rparr>)"

definition click :: "node \<Rightarrow> (document, unit) state" where
  "click n =
     State_Monad.update
       (\<lambda>d. case map_of (elements d) n of
               Some a \<Rightarrow>
                 (case (href a, download a) of
                    (Some u, Some name) \<Rightarrow>
                      if n \<in> set (body d) \<or> follows_detached d
                      then d\<lparr>started := started d @ [(u, name)]\<rparr> else d
                  | _ \<Rightarrow> d)
             | None \<Rightarrow> d)"

definition removeChild :: "node \<Rightarrow> (document, dom_exception + unit) state" where
  "removeChild n = do {
     d \<leftarrow> State_Monad.get;
     if n \<in> set (body d)
     then do {
       State_Monad.set (d\<lparr>body := filter (\<lambda>m. m \<noteq> n) (body d)\<rparr>);
       State_Monad.return (Inr ())
     }
     else State_Monad.return (Inl NotFoundError)
   }"

definition downloadImage_dom ::
  "processed_image option \<Rightarrow> config \<Rightarrow> (document, dom_exception + unit) state" where
  "downloadImage_dom img c =
     (case img of
        None \<Rightarrow> State_Monad.return (Inr ())
      | Some i \<Rightarrow> do {
          link \<leftarrow> createElement;
          set_href link (processed i);
          set_download link (download_name c (filename i));
          appendChild link;
          click link;
          removeChild link
        })"

definition document_inv :: "document \<Rightarrow> bool" where
  "document_inv d \<longleftrightarrow>
     (\<forall>n \<in> set (body d). n < next_node d) \<and>
     (\<forall>n \<in> fst ` set (elements d). n < next_node d)"

definition empty_document :: "bool \<Rightarrow> document" where
  "empty_document b =
     \<lparr>elements = [], body = [], next_node = 0, started = [], follows_detached = b\<rparr>"

subsection \<open>Event objects and the handlers on them\<close>

record drag_event =
  defaultPrevented :: bool
  dataTransfer_files :: "dom_file list"

record change_event =
  target_files :: "dom_file list option"

definition preventDefault :: "drag_event \<Rightarrow> drag_event" where
  "preventDefault e = e\<lparr>defaultPrevented := True\<rparr>"

definition optional_first :: "'a list option \<Rightarrow> 'a option" where
  "optional_first xs = (case xs of None \<Rightarrow> None | Some [] \<Rightarrow> None | Some (x # _) \<Rightarrow> Some x)"

definition onDrop ::
  "('e, 'b) library \<Rightarrow> drag_event \<Rightarrow> ('e, 'b) system \<Rightarrow> drag_event \<times> ('e, 'b) system" where
  "onDrop lib e s =
     (let e1 = preventDefault e;
          s1 = setDragOver False s;
          files = dataTransfer_files e1
      in (e1, if length files > 0 then handleFileSelect lib (files ! 0) s1 else s1))"

definition onDragOver :: "drag_event \<Rightarrow> ('e, 'b) system \<Rightarrow> drag_event \<times> ('e, 'b) system" where
  "onDragOver e s = (preventDefault e, setDragOver True s)"

definition onDragLeave :: "drag_event \<Rightarrow> ('e, 'b) system \<Rightarrow> drag_event \<times> ('e, 'b) system" where
  "onDragLeave e s = (preventDefault e, setDragOver False s)"

definition onChange ::
  "('e, 'b) library \<Rightarrow> change_event \<Rightarrow> ('e, 'b) system \<Rightarrow> ('e, 'b) system" where
  "onChange lib e s =
     (case optional_first (target_files e) of
        Some file \<Rightarrow> handleFileSelect lib file s
      | None \<Rightarrow> s)"

subsection \<open>The page\<close>

datatype dom_event =
    DragOverEvent drag_event
  | DragLeaveEvent drag_event
  | DropEvent drag_event
  | ChangeEvent change_event
  | DownloadButton
  | ResetButton
  | PanelControl panel_event

record ('e, 'b) page_state =
  app :: "('e, 'b) system"
  doc :: document
  drop_allowed :: bool
  uncaught :: "dom_exception list"

fun app_event_of :: "dom_event \<Rightarrow> app_event" where
  "app_event_of (DragOverEvent e) = DragOver"
| "app_event_of (DragLeaveEvent e) = DragLeave"
| "app_event_of (DropEvent e) = Drop (dataTransfer_files e)"
| "app_event_of (ChangeEvent e) = FileChange (case target_files e of None \<Rightarrow> [] | Some fs \<Rightarrow> fs)"
| "app_event_of DownloadButton = DownloadClick"
| "app_event_of ResetButton = ResetClick"
| "app_event_of (PanelControl ev) = Panel ev"

definition thrown_by :: "dom_exception + unit \<Rightarrow> dom_exception list" where
  "thrown_by r = (case r of Inl x \<Rightarrow> [x] | Inr _ \<Rightarrow> [])"

fun dispatch ::
  "('e, 'b) library \<Rightarrow> dom_event \<Rightarrow> ('e, 'b) page_state \<Rightarrow> ('e, 'b) page_state" where
  "dispatch lib (DragOverEvent e) p =
     (let (e', s') = onDragOver e (app p)
      in p\<lparr>app := render s', drop_allowed := defaultPrevented e'\<rparr>)"
| "dispatch lib (DragLeaveEvent e) p =
     (let (e', s') = onDragLeave e (app p)
      in p\<lparr>app := render s', drop_allowed := False\<rparr>)"
| "dispatch lib (DropEvent e) p =
     (let (e', s') = onDrop lib e (app p)
      in p\<lparr>app := render s', drop_allowed := False\<rparr>)"
| "dispatch lib (ChangeEvent e) p = p\<lparr>app := render (onChange lib e (app p))\<rparr>"
| "dispatch lib DownloadButton p =
     (let (r, d') = run_state (downloadImage_dom (processedImage (ui (app p)))
                                (config (ui (app p)))) (doc p)
      in p\<lparr>doc := d', uncaught := uncaught p @ thrown_by r\<rparr>)"
| "dispatch lib ResetButton p = p\<lparr>app := render (reset (app p))\<rparr>"
| "dispatch lib (PanelControl ev) p = p\<lparr>app := handle lib (Panel ev) (app p)\<rparr>"

definition with_downloads :: "(url \<times> string) list \<Rightarrow> ('e, 'b) system \<Rightarrow> ('e, 'b) system" where
  "with_downloads ds s = s\<lparr>dom := (dom s)\<lparr>downloads := ds\<rparr>\<rparr>"

definition abs_page :: "('e, 'b) page_state \<Rightarrow> ('e, 'b) system" where
  "abs_page p = with_downloads (started (doc p)) (app p)"

definition page_offers :: "('e, 'b) page_state \<Rightarrow> dom_event \<Rightarrow> bool" where
  "page_offers p ev \<longleftrightarrow>
     offers (view (app p)) (app_event_of ev) \<and>
     (case ev of DropEvent e \<Rightarrow> drop_allowed p | _ \<Rightarrow> True)"

definition initial_page :: "('e, 'b) library \<Rightarrow> bool \<Rightarrow> ('e, 'b) page_state" where
  "initial_page lib b =
     \<lparr>app = mounted lib, doc = empty_document b, drop_allowed = False, uncaught = []\<rparr>"

inductive page_reachable :: "('e, 'b) library \<Rightarrow> ('e, 'b) page_state \<Rightarrow> bool" for lib where
  start: "page_reachable lib (initial_page lib b)"
| step: "page_reachable lib p \<Longrightarrow> page_offers p ev \<Longrightarrow> page_reachable lib (dispatch lib ev p)"

definition page_inv :: "('e, 'b) page_state \<Rightarrow> bool" where
  "page_inv p \<longleftrightarrow>
     document_inv (doc p) \<and> body (doc p) = [] \<and> uncaught p = [] \<and>
     input_inv (app p) \<and>
     length (elements (doc p)) = length (started (doc p))"

text \<open>
  Runs of the page, and the events of the page that raise an event of the component: a drop
  is preceded by the dragover the browser sends while the pointer is over the area.
\<close>

fun dispatch_all ::
  "('e, 'b) library \<Rightarrow> dom_event list \<Rightarrow> ('e, 'b) page_state \<Rightarrow> ('e, 'b) page_state" where
  "dispatch_all lib [] p = p"
| "dispatch_all lib (ev # evs) p = dispatch_all lib evs (dispatch lib ev p)"

fun offered_run ::
  "('e, 'b) library \<Rightarrow> dom_event list \<Rightarrow> ('e, 'b) page_state \<Rightarrow> bool" where
  "offered_run lib [] p \<longleftrightarrow> True"
| "offered_run lib (ev # evs) p \<longleftrightarrow> page_offers p ev \<and> offered_run lib evs (dispatch lib ev p)"

definition drag_of :: "dom_file list \<Rightarrow> drag_event" where
  "drag_of files = \<lparr>defaultPrevented = False, dataTransfer_files = files\<rparr>"

fun dom_events_of :: "app_event \<Rightarrow> dom_event list" where
  "dom_events_of Mount = []"
| "dom_events_of (Panel ev) = [PanelControl ev]"
| "dom_events_of (Drop files) = [DragOverEvent (drag_of files), DropEvent (drag_of files)]"
| "dom_events_of DragOver = [DragOverEvent (drag_of [])]"
| "dom_events_of DragLeave = [DragLeaveEvent (drag_of [])]"
| "dom_events_of (FileChange files) = [ChangeEvent \<lparr>target_files = Some files\<rparr>]"
| "dom_events_of DownloadClick = [DownloadButton]"
| "dom_events_of ResetClick = [ResetButton]"

subsection \<open>Sample pages\<close>

definition sample_page :: "bool \<Rightarrow> (string, format) page_state" where
  "sample_page b =
     dispatch lib_ok (ChangeEvent \<lparr>target_files = Some [sample_file]\<rparr>) (initial_page lib_ok b)"


section \<open>Lemmas\<close>

named_theorems dom_simps "what the operations on the document do"

lemma run_createElement [dom_simps]:
  "run_state createElement d =
     (next_node d,
      d\<lparr>elements := elements d @ [(next_node d, \<lparr>href = None, download = None\<rparr>)],
        next_node := Suc (next_node d)\<rparr>)"
  by (simp add: createElement_def)

lemma run_update_anchor [dom_simps]:
  "run_state (update_anchor n f) d =
     ((), d\<lparr>elements := map (\<lambda>(m, a). if m = n then (m, f a) else (m, a)) (elements d)\<rparr>)"
  by (simp add: update_anchor_def State_Monad.update_def)

lemma run_appendChild [dom_simps]:
  "run_state (appendChild n) d = ((), d\<lparr>body := filter (\<lambda>m. m \<noteq> n) (body d) @ [n]\<rparr>)"
  by (simp add: appendChild_def State_Monad.update_def)

lemma run_removeChild [dom_simps]:
  "run_state (removeChild n) d =
     (if n \<in> set (body d) then (Inr (), d\<lparr>body := filter (\<lambda>m. m \<noteq> n) (body d)\<rparr>)
      else (Inl NotFoundError, d))"
  by (simp add: removeChild_def)

lemma run_click [dom_simps]:
  assumes "map_of (elements d) n = Some \<lparr>href = Some u, download = Some name\<rparr>"
    and "n \<in> set (body d)"
  shows "run_state (click n) d = ((), d\<lparr>started := started d @ [(u, name)]\<rparr>)"
  using assms by (simp add: click_def State_Monad.update_def)

lemma fresh_node:
  assumes "document_inv d"
  shows "next_node d \<notin> set (body d)" "next_node d \<notin> fst ` set (elements d)"
  using assms by (auto simp: document_inv_def)

lemma map_fresh [simp]:
  assumes "n \<notin> fst ` set xs"
  shows "map (\<lambda>(m, a). if m = n then (m, f a) else (m, a)) xs = xs"
  using assms by (induction xs) auto

lemma filter_fresh [simp]:
  assumes "n \<notin> set xs"
  shows "filter (\<lambda>m. m \<noteq> n) xs = xs"
  using assms by (induction xs) auto

lemma map_of_snoc_fresh:
  assumes "n \<notin> fst ` set xs"
  shows "map_of (xs @ [(n, a)]) n = Some a"
  using assms by (induction xs) auto

lemma run_seq:
  assumes "run_state m s = (x, s')" and "run_state (f x) s' = r"
  shows "run_state (State_Monad.bind m f) s = r"
  using assms by simp

text \<open>
  The six statements of \<open>downloadImage\<close> on a document, one after the other: the anchor is
  created, given its two attributes, attached, clicked and detached.
\<close>

lemma run_downloadImage_dom:
  assumes "document_inv d"
  shows "run_state (downloadImage_dom (Some i) c) d =
     (Inr (),
      d\<lparr>elements := elements d @
          [(next_node d, \<lparr>href = Some (processed i),
                          download = Some (download_name c (filename i))\<rparr>)],
        next_node := Suc (next_node d),
        started := started d @ [(processed i, download_name c (filename i))]\<rparr>)"
proof -
  let ?n = "next_node d" and ?u = "processed i" and ?name = "download_name c (filename i)"
  let ?d = "\<lambda>a. d\<lparr>elements := elements d @ [(?n, a)], next_node := Suc ?n\<rparr>"
  let ?a = "\<lparr>href = Some ?u, download = Some ?name\<rparr>"
  note fresh = fresh_node [OF assms]
  have create: "run_state createElement d = (?n, ?d \<lparr>href = None, download = None\<rparr>)"
    by (simp add: dom_simps)
  have href: "run_state (set_href ?n ?u) (?d \<lparr>href = None, download = None\<rparr>) =
      ((), ?d \<lparr>href = Some ?u, download = None\<rparr>)"
    using fresh(2) by (simp add: set_href_def dom_simps)
  have name: "run_state (set_download ?n ?name) (?d \<lparr>href = Some ?u, download = None\<rparr>) =
      ((), ?d ?a)"
    using fresh(2) by (simp add: set_download_def dom_simps)
  have attach: "run_state (appendChild ?n) (?d ?a) = ((), (?d ?a)\<lparr>body := body d @ [?n]\<rparr>)"
    using fresh(1) by (simp add: dom_simps)
  have press: "run_state (click ?n) ((?d ?a)\<lparr>body := body d @ [?n]\<rparr>) =
      ((), (?d ?a)\<lparr>body := body d @ [?n], started := started d @ [(?u, ?name)]\<rparr>)"
    using fresh(2) by (subst run_click [where u = ?u and name = ?name])
      (simp_all add: map_of_snoc_fresh del: map_of_append)
  have detach: "run_state (removeChild ?n)
      ((?d ?a)\<lparr>body := body d @ [?n], started := started d @ [(?u, ?name)]\<rparr>) =
      (Inr (), (?d ?a)\<lparr>started := started d @ [(?u, ?name)]\<rparr>)"
    using fresh(1) by (simp add: dom_simps)
  have "run_state (downloadImage_dom (Some i) c) d =
      (Inr (), (?d ?a)\<lparr>started := started d @ [(?u, ?name)]\<rparr>)"
    unfolding downloadImage_dom_def option.case
    by (rule run_seq [OF create], rule run_seq [OF href], rule run_seq [OF name],
        rule run_seq [OF attach], rule run_seq [OF press], rule detach)
  then show ?thesis by simp
qed

lemma run_downloadImage_dom_props:
  assumes "document_inv d"
  shows "fst (run_state (downloadImage_dom img c) d) = Inr ()"
    and "body (snd (run_state (downloadImage_dom img c) d)) = body d"
    and "started (snd (run_state (downloadImage_dom img c) d)) =
           started d @ (case img of
                          None \<Rightarrow> []
                        | Some i \<Rightarrow> [(processed i, download_name c (filename i))])"
    and "length (elements (snd (run_state (downloadImage_dom img c) d))) =
           length (elements d) + (case img of None \<Rightarrow> 0 | Some i \<Rightarrow> 1)"
    and "follows_detached (snd (run_state (downloadImage_dom img c) d)) = follows_detached d"
    and "document_inv (snd (run_state (downloadImage_dom img c) d))"
  using assms
  by (cases img; simp add: run_downloadImage_dom;
      simp add: downloadImage_dom_def document_inv_def less_Suc_eq)+

subsection \<open>The handlers on event objects\<close>

lemma optional_first_simps [simp]:
  "optional_first None = None"
  "optional_first (Some []) = None"
  "optional_first (Some (x # xs)) = Some x"
  by (simp_all add: optional_first_def)

lemma onDrop_eq: "onDrop lib e s = (preventDefault e, handleDrop lib (dataTransfer_files e) s)"
  by (cases "dataTransfer_files e")
     (simp_all add: onDrop_def handleDrop_def preventDefault_def Let_def)

lemma onDragOver_eq: "onDragOver e s = (preventDefault e, handleDragOver s)"
  by (simp add: onDragOver_def handleDragOver_def)

lemma onDragLeave_eq: "onDragLeave e s = (preventDefault e, handleDragLeave s)"
  by (simp add: onDragLeave_def handleDragLeave_def)

lemma onChange_eq:
  "onChange lib e s =
     handleFileChange lib (case target_files e of None \<Rightarrow> [] | Some fs \<Rightarrow> fs) s"
  by (cases "target_files e"; cases "the (target_files e)")
     (simp_all add: onChange_def handleFileChange_def)

lemmas on_event_eqs = onDrop_eq onDragOver_eq onDragLeave_eq onChange_eq

text \<open>Every handler of a drag event cancels the event.\<close>

lemma drag_handlers_cancel:
  "defaultPrevented (fst (onDrop lib e s))"
  "defaultPrevented (fst (onDragOver e s))"
  "defaultPrevented (fst (onDragLeave e s))"
  by (simp_all add: on_event_eqs preventDefault_def)

subsection \<open>The page and the component\<close>

lemma with_downloads_simps [simp]:
  "ui (with_downloads ds s) = ui s"
  "wrapper (with_downloads ds s) = wrapper s"
  "object_urls (dom (with_downloads ds s)) = object_urls (dom s)"
  "next_url (dom (with_downloads ds s)) = next_url (dom s)"
  "fileInput (dom (with_downloads ds s)) = fileInput (dom s)"
  "downloads (dom (with_downloads ds s)) = ds"
  "with_downloads ds (with_downloads ds' s) = with_downloads ds s"
  by (simp_all add: with_downloads_def)

lemma with_downloads_id: "downloads (dom s) = ds \<Longrightarrow> with_downloads ds s = s"
  by (simp add: with_downloads_def)

lemma show_with_downloads [simp]:
  "show_upload (with_downloads ds s) = show_upload s"
  "show_results (with_downloads ds s) = show_results s"
  by (simp_all add: show_upload_def show_results_def)

lemma enabled_with_downloads [simp]: "enabled (with_downloads ds s) ev = enabled s ev"
  by (cases ev) simp_all

lemma render_with_downloads: "render (with_downloads ds s) = with_downloads ds (render s)"
  by (simp add: render_def)

lemma setDragOver_with_downloads:
  "setDragOver b (with_downloads ds s) = with_downloads ds (setDragOver b s)"
  by (simp add: with_downloads_def setDragOver_def)

lemma handleFileSelect_with_downloads:
  "handleFileSelect lib f (with_downloads ds s) = with_downloads ds (handleFileSelect lib f s)"
  by (simp add: handleFileSelect_def with_downloads_def setter_defs isModelReady_def Let_def
      split: prod.splits sum.splits)

lemma handleConfigChange_with_downloads:
  "handleConfigChange lib c (with_downloads ds s) =
     with_downloads ds (handleConfigChange lib c s)"
  by (simp add: handleConfigChange_def with_downloads_def setter_defs Let_def
      split: prod.splits sum.splits)

lemma handler_with_downloads:
  assumes "ev \<noteq> DownloadClick"
  shows "handler lib ev (with_downloads ds s) = with_downloads ds (handler lib ev s)"
proof (cases ev)
  case Mount
  then show ?thesis
    by (simp add: initModel_def with_downloads_def setter_defs Let_def
        split: prod.splits sum.splits)
next
  case (Panel pev)
  then show ?thesis
    by (cases "panel_click (config (ui s)) pev")
       (simp_all add: handleConfigChange_with_downloads,
        simp add: onToggle_def with_downloads_def setter_defs)
next
  case (Drop files)
  then show ?thesis
    by (cases files)
       (simp_all add: handleDrop_def handleFileSelect_with_downloads
          setDragOver_with_downloads Let_def del: setDragOver_simps)
next
  case (FileChange files)
  then show ?thesis
    by (cases files) (simp_all add: handleFileChange_def handleFileSelect_with_downloads)
next
  case ResetClick
  then show ?thesis by (simp add: reset_eq)
qed (use assms in \<open>simp_all add: handleDragOver_def handleDragLeave_def setDragOver_def
      with_downloads_def\<close>)

lemma handle_with_downloads:
  assumes "ev \<noteq> DownloadClick"
  shows "handle lib ev (with_downloads ds s) = with_downloads ds (handle lib ev s)"
  using assms by (simp add: handle_def handler_with_downloads render_with_downloads)

lemma downloadImage_with_downloads:
  "handle lib DownloadClick (with_downloads ds s) =
     with_downloads
       (ds @ (case processedImage (ui s) of
                None \<Rightarrow> []
              | Some i \<Rightarrow> [(processed i, download_name (config (ui s)) (filename i))]))
       (render s)"
  by (cases "processedImage (ui s)")
     (simp_all add: handle_def downloadImage_def render_with_downloads,
      simp add: with_downloads_def render_def show_upload_def)

lemma render_input_inv: "input_inv s \<Longrightarrow> render s = s"
  by (cases "fileInput (dom s)") (auto simp: render_def input_inv_def)

lemma input_inv_handle [simp]: "input_inv (handle lib ev s)"
  by (simp add: handle_def)

lemma input_inv_with_downloads [simp]: "input_inv (with_downloads ds s) = input_inv s"
  by (simp add: input_inv_def)

lemma input_inv_mounted [simp]: "input_inv (mounted lib)"
  by (simp add: mounted_def)

lemma downloads_handle:
  assumes "ev \<noteq> DownloadClick"
  shows "downloads (dom (handle lib ev s)) = downloads (dom s)"
  using handle_with_downloads [OF assms, of lib "downloads (dom s)" s]
  by (simp add: with_downloads_id) (metis with_downloads_simps(6))

lemma downloads_mounted: "downloads (dom (mounted lib :: ('e, 'b) system)) = []"
  unfolding mounted_def
  by (simp add: downloads_handle) (simp add: initial_system_def)

subsection \<open>One event of the page\<close>

lemma dispatch_other:
  assumes "ev \<noteq> DownloadButton"
  shows "app (dispatch lib ev p) = handle lib (app_event_of ev) (app p)"
    and "doc (dispatch lib ev p) = doc p"
    and "uncaught (dispatch lib ev p) = uncaught p"
  using assms by (cases ev; simp add: on_event_eqs handle_def)+

lemma dispatch_download:
  assumes "document_inv (doc p)"
  shows "dispatch lib DownloadButton p =
     p\<lparr>doc := snd (run_state (downloadImage_dom (processedImage (ui (app p)))
                               (config (ui (app p)))) (doc p))\<rparr>"
  using run_downloadImage_dom_props [OF assms, of "processedImage (ui (app p))"
      "config (ui (app p))"]
  by (auto simp: thrown_by_def split: prod.splits)

lemma drop_allowed_dispatch:
  "drop_allowed (dispatch lib ev p) \<longleftrightarrow>
     (case ev of DragOverEvent e \<Rightarrow> True | DragLeaveEvent e \<Rightarrow> False | DropEvent e \<Rightarrow> False
      | _ \<Rightarrow> drop_allowed p)"
  by (cases ev) (simp_all add: on_event_eqs preventDefault_def split: prod.splits)

declare dispatch.simps [simp del]

lemma page_inv_dispatch:
  assumes "page_inv p"
  shows "page_inv (dispatch lib ev p)"
proof (cases "ev = DownloadButton")
  case True
  from assms have d: "document_inv (doc p)" by (simp add: page_inv_def)
  from run_downloadImage_dom_props [OF d] assms show ?thesis
    unfolding True dispatch_download [OF d]
    by (simp add: page_inv_def split: option.splits)
next
  case False
  with assms show ?thesis by (simp add: page_inv_def dispatch_other)
qed

lemma page_inv_initial: "page_inv (initial_page lib b)"
  by (simp add: page_inv_def initial_page_def empty_document_def document_inv_def)

lemma dispatch_simulates:
  assumes "page_inv p"
  shows "abs_page (dispatch lib ev p) = handle lib (app_event_of ev) (abs_page p)"
proof (cases "ev = DownloadButton")
  case True
  from assms have d: "document_inv (doc p)" and r: "render (app p) = app p"
    by (simp_all add: page_inv_def render_input_inv)
  from run_downloadImage_dom_props [OF d] r show ?thesis
    unfolding True dispatch_download [OF d]
    by (simp add: abs_page_def downloadImage_with_downloads)
next
  case False
  then have "app_event_of ev \<noteq> DownloadClick" by (cases ev) simp_all
  with False show ?thesis by (simp add: abs_page_def dispatch_other handle_with_downloads)
qed

lemma page_offers_enabled:
  "page_offers p ev \<Longrightarrow> enabled (abs_page p) (app_event_of ev)"
  by (simp add: page_offers_def view_offers abs_page_def)

lemma abs_initial_page: "abs_page (initial_page lib b) = mounted lib"
  by (simp add: abs_page_def initial_page_def empty_document_def with_downloads_id
      downloads_mounted)

lemma page_reachable_inv: "page_reachable lib p \<Longrightarrow> page_inv p"
  by (induction rule: page_reachable.induct) (simp_all add: page_inv_initial page_inv_dispatch)

lemma page_reachable_abs: "page_reachable lib p \<Longrightarrow> app_reachable lib (abs_page p)"
proof (induction rule: page_reachable.induct)
  case (start b)
  show ?case by (simp add: abs_initial_page app_reachable.mount)
next
  case (step p ev)
  from step.hyps(1) have "page_inv p" by (rule page_reachable_inv)
  with step.IH step.hyps(2) show ?case
    by (simp add: dispatch_simulates app_reachable.event page_offers_enabled)
qed

lemma page_reachable_run:
  assumes "page_reachable lib p" and "offered_run lib evs p"
  shows "page_reachable lib (dispatch_all lib evs p)"
  using assms by (induction evs arbitrary: p) (auto intro: page_reachable.step)

lemma follows_detached_dispatch:
  assumes "page_inv p"
  shows "follows_detached (doc (dispatch lib ev p)) = follows_detached (doc p)"
proof (cases "ev = DownloadButton")
  case True
  from assms have d: "document_inv (doc p)" by (simp add: page_inv_def)
  from run_downloadImage_dom_props(5) [OF d] show ?thesis
    unfolding True dispatch_download [OF d] by simp
qed (simp add: dispatch_other)

subsection \<open>Every event of the component can be raised on the page\<close>

lemma page_offers_iff:
  "page_offers p ev \<longleftrightarrow>
     enabled (app p) (app_event_of ev) \<and> (case ev of DropEvent e \<Rightarrow> drop_allowed p | _ \<Rightarrow> True)"
  by (simp add: page_offers_def view_offers)

lemma dragover_then_drop:
  assumes "input_inv s" and "show_upload s"
  shows "handle lib (Drop files) (handle lib DragOver s) = handle lib (Drop files) s"
proof -
  have "show_upload (setDragOver True s)" using assms(2) by (simp add: show_upload_def)
  moreover have "input_inv (setDragOver True s)"
    using assms by (simp add: input_inv_def show_upload_def)
  ultimately have over: "handle lib DragOver s = setDragOver True s"
    by (simp add: handle_def handleDragOver_def render_input_inv)
  have off: "setDragOver False (setDragOver True s) = setDragOver False s"
    by (simp add: setDragOver_def)
  show ?thesis unfolding over handle_file_list off by (rule refl)
qed

lemma events_offered:
  assumes "enabled (app p) ev"
  shows "offered_run lib (dom_events_of ev) p"
  using assms
  by (cases ev)
     (simp_all add: page_offers_iff drop_allowed_dispatch dispatch_other drag_of_def
        show_upload_def handle_def handleDragOver_def)

lemma events_simulate:
  assumes "page_inv p" and "enabled (app p) ev"
  shows "abs_page (dispatch_all lib (dom_events_of ev) p) = handle lib ev (abs_page p)"
proof (cases ev)
  case (Drop files)
  from assms have "input_inv (abs_page p)" and "show_upload (abs_page p)"
    by (simp_all add: page_inv_def abs_page_def Drop)
  with assms(1) show ?thesis
    by (simp add: Drop dispatch_simulates page_inv_dispatch drag_of_def dragover_then_drop)
qed (use assms in \<open>simp_all add: dispatch_simulates\<close>)

lemma page_of_reachable:
  assumes "app_reachable lib s"
  shows "\<exists>p. page_reachable lib p \<and> abs_page p = s \<and> follows_detached (doc p) = b"
  using assms
proof (induction rule: app_reachable.induct)
  case mount
  have "follows_detached (doc (initial_page lib b)) = b"
    by (simp add: initial_page_def empty_document_def)
  then show ?case using page_reachable.start [of lib b] abs_initial_page [of lib b] by blast
next
  case (event s ev)
  then obtain p where p: "page_reachable lib p" "abs_page p = s" "follows_detached (doc p) = b"
    by blast
  let ?p = "dispatch_all lib (dom_events_of ev) p"
  from p(1) have inv: "page_inv p" by (rule page_reachable_inv)
  from event.hyps(2) have "enabled (abs_page p) ev" by (simp add: p(2))
  then have en: "enabled (app p) ev" by (simp add: abs_page_def)
  have "follows_detached (doc (dispatch_all lib evs q)) = follows_detached (doc q)"
    if "page_inv q" for evs and q :: "('a, 'b) page_state"
    using that
    by (induction evs arbitrary: q) (simp_all add: follows_detached_dispatch page_inv_dispatch)
  with inv p(3) have "follows_detached (doc ?p) = b" by simp
  moreover have "page_reachable lib ?p"
    using p(1) events_offered [OF en] by (rule page_reachable_run)
  moreover have "abs_page ?p = handle lib ev s"
    using events_simulate [OF inv en] p(2) by simp
  ultimately show ?case by blast
qed

subsection \<open>Sample pages\<close>

lemma sample_upload_offered: "enabled (mounted lib_ok) (FileChange [sample_file])"
  by (simp add: mounted_lib_ok show_upload_def initial_app_state_def)

lemma abs_sample_page: "abs_page (sample_page b) = sample_done"
  using sample_upload_offered unfolding sample_page_def
  by (simp add: dispatch_simulates page_inv_initial abs_initial_page sample_done_def)

lemma sample_page_reachable: "page_reachable lib_ok (sample_page b)"
  unfolding sample_page_def
  using sample_upload_offered
  by (intro page_reachable.step page_reachable.start) (simp add: page_offers_iff initial_page_def)

lemma sample_name: "download_name defaultConfig ''cat.png'' = ''no-bg-cat.png''"
  by (simp add: download_name_def outputType_cases extension_cases ext_char_def)

section \<open>Properties\<close>

text \<open>
  \<^bold>\<open>C15\<close> (refinement). The page refines the component. In every state the page reaches
  by events its controls offer, the state of the component with the downloads the document
  has started in place of its download list is a reachable state of \<open>App\<close>; an event of
  the page, offered or not, takes it where \<open>handle\<close> takes that state on the event of the
  component it stands for; the body of the document is empty again after the event and no
  exception has escaped a handler. This holds in a browser that follows a click
  on a detached link and in one that does not.
\<close>

theorem page_refines_component:
  assumes "page_reachable lib p"
  shows "app_reachable lib (abs_page p) \<and>
         abs_page (dispatch lib ev p) = handle lib (app_event_of ev) (abs_page p) \<and>
         body (doc (dispatch lib ev p)) = [] \<and>
         uncaught (dispatch lib ev p) = []"
proof -
  from assms have inv: "page_inv p" by (rule page_reachable_inv)
  then have "page_inv (dispatch lib ev p)" by (rule page_inv_dispatch)
  then show ?thesis
    using page_reachable_abs [OF assms] dispatch_simulates [OF inv]
    by (simp add: page_inv_def)
qed

theorem page_refines_component_witness:
  "page_reachable lib_ok (sample_page False) \<and>
   \<not> follows_detached (doc (sample_page False)) \<and>
   app_event_of DownloadButton = DownloadClick \<and>
   started (doc (dispatch lib_ok DownloadButton (sample_page False))) = [(1, ''no-bg-cat.png'')] \<and>
   body (doc (dispatch lib_ok DownloadButton (sample_page False))) = [] \<and>
   uncaught (dispatch lib_ok DownloadButton (sample_page False)) = []"
proof -
  have d: "follows_detached (doc (sample_page False)) = False"
    using follows_detached_dispatch [OF page_inv_initial, of lib_ok _ lib_ok False]
    by (simp add: sample_page_def initial_page_def empty_document_def)
  have "downloads (dom (abs_page (dispatch lib_ok DownloadButton (sample_page False)))) =
        [(1, ''no-bg-cat.png'')]"
    using page_refines_component [OF sample_page_reachable, of False DownloadButton]
    by (simp add: abs_sample_page)
       (simp add: handle_def downloadImage_def sample_done_eq initial_app_state_def sample_name)
  then show ?thesis
    using page_refines_component [OF sample_page_reachable, of False DownloadButton]
      sample_page_reachable [of False] d
    by (simp add: abs_page_def)
qed

text \<open>
  \<^bold>\<open>C28\<close> (functional). The download link is transient. Run on a well-formed document,
  the statements of \<open>downloadImage\<close> on the document throw nothing, leave the children of
  the body as they were (the link is appended, clicked and removed), and start exactly
  the downloads the handler of \<open>App\<close> records: none without a result, otherwise one of the
  processed blob under the name built from the current configuration, whether or not the
  browser follows clicks on detached links.
\<close>

theorem download_link_is_transient:
  assumes "document_inv d"
  shows "fst (run_state (downloadImage_dom (processedImage (ui s)) (config (ui s))) d) = Inr () \<and>
         body (snd (run_state (downloadImage_dom (processedImage (ui s)) (config (ui s))) d)) =
           body d \<and>
         started (snd (run_state (downloadImage_dom (processedImage (ui s)) (config (ui s))) d)) =
           downloads (dom (downloadImage (with_downloads (started d) s)))"
  using run_downloadImage_dom_props(1-3) [OF assms]
  by (cases "processedImage (ui s)") (simp_all add: downloadImage_def)

theorem download_link_is_transient_witness:
  "document_inv (empty_document False) \<and>
   run_state (downloadImage_dom (processedImage (ui sample_done)) (config (ui sample_done)))
     (empty_document False) =
   (Inr (),
    \<lparr>elements = [(0, \<lparr>href = Some 1, download = Some ''no-bg-cat.png''\<rparr>)], body = [],
      next_node = 1, started = [(1, ''no-bg-cat.png'')], follows_detached = False\<rparr>)"
proof -
  have i: "document_inv (empty_document False)"
    by (simp add: document_inv_def empty_document_def)
  from download_link_is_transient [OF i, of sample_done] i show ?thesis
    by (simp add: sample_done_eq initial_app_state_def run_downloadImage_dom sample_name)
       (simp add: empty_document_def)
qed

text \<open>
  \<^bold>\<open>C29\<close> (liveness). Every event of the component can be raised on the page. In a
  reachable page, an event that \<open>App\<close> admits is raised by events of the document that
  the page offers one after the other, and they take the page where \<open>handle\<close> takes the
  component. For a drop these are a dragover and the drop: the browser delivers a drop only
  where the dragover was cancelled, which \<open>handleDragOver\<close> does, and the dragover leaves
  nothing behind that the drop does not reset.
\<close>

theorem component_events_are_offered:
  assumes "page_reachable lib p" and "enabled (abs_page p) ev"
  shows "offered_run lib (dom_events_of ev) p \<and>
         page_reachable lib (dispatch_all lib (dom_events_of ev) p) \<and>
         abs_page (dispatch_all lib (dom_events_of ev) p) = handle lib ev (abs_page p)"
proof -
  from assms(2) have en: "enabled (app p) ev" by (simp add: abs_page_def)
  from assms(1) have "page_inv p" by (rule page_reachable_inv)
  then show ?thesis
    using events_offered [OF en] events_simulate [OF _ en] page_reachable_run [OF assms(1)]
    by blast
qed

theorem component_events_are_offered_witness:
  "page_reachable lib_ok (initial_page lib_ok False) \<and>
   enabled (abs_page (initial_page lib_ok False)) (Drop [sample_file]) \<and>
   \<not> page_offers (initial_page lib_ok False) (DropEvent (drag_of [sample_file])) \<and>
   dom_events_of (Drop [sample_file]) =
     [DragOverEvent (drag_of [sample_file]), DropEvent (drag_of [sample_file])] \<and>
   offered_run lib_ok (dom_events_of (Drop [sample_file])) (initial_page lib_ok False) \<and>
   abs_page (dispatch_all lib_ok (dom_events_of (Drop [sample_file])) (initial_page lib_ok False)) =
     sample_done"
proof -
  have e: "enabled (abs_page (initial_page lib_ok False)) (Drop [sample_file])"
    by (simp add: abs_initial_page mounted_lib_ok show_upload_def initial_app_state_def)
  have m: "setDragOver False (mounted lib_ok) = mounted lib_ok"
    by (simp add: setDragOver_def mounted_lib_ok initial_app_state_def)
  have h: "handle lib_ok (Drop [sample_file]) (mounted lib_ok) = sample_done"
    using sample_upload_offered by (simp add: sample_done_def handle_file_list m)
  from component_events_are_offered [OF page_reachable.start e] e h
  show ?thesis
    by (simp add: abs_initial_page page_reachable.start)
       (simp add: page_offers_iff initial_page_def)
qed

end
