(* ===== verification/Hooks.thy ===== *)
theory Hooks
  imports App
begin

text \<open>
  The functions of \<^verbatim>\<open>src/src/App.tsx\<close> as React keeps them between renders. Every handler
  is wrapped in \<open>useCallback\<close> with a list of dependencies, and the mount effect in
  \<open>useEffect\<close> with the empty list: a render builds each function anew, reading the
  state of that render, and React hands back the function of an earlier render as long
  as the dependencies are the same. A handler therefore reads the state of the render it
  was made in, not the state of the render in which it is called.

  \<^item> \<open>callback\<close>, \<open>useCallback\<close>, \<open>useEffect\<close>: a memoised function with the dependencies
    and the render it was made with, and the values of the state it reads.
  \<^item> \<open>memo_cells\<close>, \<open>render_memo\<close>: the nine functions of the component and the calls of
    \<open>useEffect\<close> and \<open>useCallback\<close> in one render, with the dependencies of the source.
  \<^item> \<open>closure_handleConfigChange\<close> and the like: the handlers of \<open>App\<close> reading what the
    function has captured in place of the state.
  \<^item> \<open>hooked\<close>, \<open>hooked_handle\<close>, \<open>hooked_reachable\<close>: the component with its memoised
    functions: an event runs the function React kept, which is followed by a render and
    by the effects that are due.

  The lemmas show that no function of the component is ever stale (\<open>hooks_inv\<close>), so that
  the handlers of \<open>App\<close>, which read the current state, are what React runs.
\<close>

section \<open>Definitions\<close>

subsection \<open>Memoised functions\<close>

text \<open>
  A function kept by React: the dependencies it was stored with, the number of the render
  that made it (its identity: two functions are the same object if the same render made
  them), and the values it has captured.
\<close>

record ('d, 'c) callback =
  deps :: 'd
  made_in :: nat
  captured :: 'c

definition useCallback ::
  "('d, 'c) callback option \<Rightarrow> 'd \<Rightarrow> nat \<Rightarrow> 'c \<Rightarrow> ('d, 'c) callback" where
  "useCallback prev ds n env =
     (case prev of
        None \<Rightarrow> \<lparr>deps = ds, made_in = n, captured = env\<rparr>
      | Some cell \<Rightarrow>
          if deps cell = ds then cell else \<lparr>deps = ds, made_in = n, captured = env\<rparr>)"

definition useEffect ::
  "('d, 'c) callback option \<Rightarrow> 'd \<Rightarrow> nat \<Rightarrow> 'c \<Rightarrow> ('d, 'c) callback" where
  "useEffect prev ds n env = useCallback prev ds n env"

definition effect_due :: "nat \<Rightarrow> ('d, 'c) callback \<Rightarrow> bool" where
  "effect_due n cell \<longleftrightarrow> made_in cell = n"

text \<open>
  Dependencies are compared with \<open>Object.is\<close>. The configuration is an object, and every
  call of \<open>setConfig\<close> is given a new one, so its identity is the number of such calls.
  A result is an object built by \<open>handleFileSelect\<close> around the URL that
  \<open>URL.createObjectURL\<close> returned for the upload, or \<open>null\<close>; URLs are not handed out twice,
  so that URL tells results apart.
\<close>

definition image_ident :: "processed_image option \<Rightarrow> url option" where
  "image_ident img = map_option original img"

type_synonym config_callback = "(nat, config) callback"

record memo_cells =
  fx_initModel :: "(unit, config) callback"
  cb_handleConfigChange :: config_callback
  cb_handleFileSelect :: config_callback
  cb_handleDrop :: "(nat, config_callback) callback"
  cb_handleDragOver :: "(unit, unit) callback"
  cb_handleDragLeave :: "(unit, unit) callback"
  cb_handleFileChange :: "(nat, config_callback) callback"
  cb_downloadImage :: "(url option \<times> nat, processed_image option \<times> config) callback"
  cb_reset :: "(url option, processed_image option) callback"

definition render_memo :: "app_state \<Rightarrow> nat \<Rightarrow> nat \<Rightarrow> memo_cells option \<Rightarrow> memo_cells" where
  "render_memo u cid n prev =
     (let fx = useEffect (map_option fx_initModel prev) () n (config u);
          hcc = useCallback (map_option cb_handleConfigChange prev) cid n (config u);
          hfs = useCallback (map_option cb_handleFileSelect prev) cid n (config u);
          hdr = useCallback (map_option cb_handleDrop prev) (made_in hfs) n hfs;
          hdo = useCallback (map_option cb_handleDragOver prev) () n ();
          hdl = useCallback (map_option cb_handleDragLeave prev) () n ();
          hfc = useCallback (map_option cb_handleFileChange prev) (made_in hfs) n hfs;
          dl = useCallback (map_option cb_downloadImage prev)
                 (image_ident (processedImage u), cid) n (processedImage u, config u);
          rs = useCallback (map_option cb_reset prev)
                 (image_ident (processedImage u)) n (processedImage u)
      in \<lparr>fx_initModel = fx, cb_handleConfigChange = hcc, cb_handleFileSelect = hfs,
          cb_handleDrop = hdr, cb_handleDragOver = hdo, cb_handleDragLeave = hdl,
          cb_handleFileChange = hfc, cb_downloadImage = dl, cb_reset = rs\<rparr>)"

subsection \<open>Handlers that read what they captured\<close>

text \<open>
  \<open>initModel\<close> and \<open>handleFileSelect\<close> read \<open>config\<close> and do not set it: they run on the
  state with the captured configuration in its place, and the configuration of the state
  is what it was. \<open>handleConfigChange\<close> and \<open>reset\<close> set what they read.
\<close>

definition closure_initModel ::
  "('e, 'b) library \<Rightarrow> config \<Rightarrow> ('e, 'b) system \<Rightarrow> ('e, 'b) system" where
  "closure_initModel lib c s = setConfig (config (ui s)) (initModel lib (setConfig c s))"

definition closure_handleConfigChange ::
  "('e, 'b) library \<Rightarrow> config_callback \<Rightarrow> config \<Rightarrow> ('e, 'b) system \<Rightarrow> ('e, 'b) system" where
  "closure_handleConfigChange lib cell newConfig s =
     handleConfigChange lib newConfig (setConfig (captured cell) s)"

definition closure_handleFileSelect ::
  "('e, 'b) library \<Rightarrow> config_callback \<Rightarrow> dom_file \<Rightarrow> ('e, 'b) system \<Rightarrow> ('e, 'b) system" where
  "closure_handleFileSelect lib cell file s =
     setConfig (config (ui s)) (handleFileSelect lib file (setConfig (captured cell) s))"

definition closure_handleDrop ::
  "('e, 'b) library \<Rightarrow> (nat, config_callback) callback \<Rightarrow> dom_file list \<Rightarrow>
   ('e, 'b) system \<Rightarrow> ('e, 'b) system" where
  "closure_handleDrop lib cell files s =
     (let s1 = setDragOver False s
      in case files of file # _ \<Rightarrow> closure_handleFileSelect lib (captured cell) file s1 | [] \<Rightarrow> s1)"

definition closure_handleFileChange ::
  "('e, 'b) library \<Rightarrow> (nat, config_callback) callback \<Rightarrow> dom_file list \<Rightarrow>
   ('e, 'b) system \<Rightarrow> ('e, 'b) system" where
  "closure_handleFileChange lib cell files s =
     (case files of file # _ \<Rightarrow> closure_handleFileSelect lib (captured cell) file s | [] \<Rightarrow> s)"

definition closure_downloadImage ::
  "(url option \<times> nat, processed_image option \<times> config) callback \<Rightarrow>
   ('e, 'b) system \<Rightarrow> ('e, 'b) system" where
  "closure_downloadImage cell s =
     (case fst (captured cell) of
        None \<Rightarrow> s
      | Some img \<Rightarrow>
          s\<lparr>dom := (dom s)\<lparr>downloads := downloads (dom s) @
             [(processed img, download_name (snd (captured cell)) (filename img))]\<rparr>\<rparr>)"

definition closure_reset ::
  "(url option, processed_image option) callback \<Rightarrow> ('e, 'b) system \<Rightarrow> ('e, 'b) system" where
  "closure_reset cell s = reset (setProcessedImage (captured cell) s)"

text \<open>
  The function each control is given. The panel is rendered with the configuration of
  the state and \<open>handleConfigChange\<close> as React kept it; \<open>onToggle\<close> is an arrow function
  written in the JSX, which no render keeps.
\<close>

fun closure_handler ::
  "('e, 'b) library \<Rightarrow> memo_cells \<Rightarrow> app_event \<Rightarrow> ('e, 'b) system \<Rightarrow> ('e, 'b) system" where
  "closure_handler lib m Mount s = s"
| "closure_handler lib m (Panel ev) s =
     (case panel_click (config (ui s)) ev of
        OnConfigChange c \<Rightarrow> closure_handleConfigChange lib (cb_handleConfigChange m) c s
      | OnToggle \<Rightarrow> onToggle s)"
| "closure_handler lib m (Drop files) s = closure_handleDrop lib (cb_handleDrop m) files s"
| "closure_handler lib m DragOver s = handleDragOver s"
| "closure_handler lib m DragLeave s = handleDragLeave s"
| "closure_handler lib m (FileChange files) s =
     closure_handleFileChange lib (cb_handleFileChange m) files s"
| "closure_handler lib m DownloadClick s = closure_downloadImage (cb_downloadImage m) s"
| "closure_handler lib m ResetClick s = closure_reset (cb_reset m) s"

text \<open>The identity of the configuration after an event: \<open>setConfig\<close> is called with a new object.\<close>

fun config_id_after :: "app_event \<Rightarrow> ('e, 'b) system \<Rightarrow> nat \<Rightarrow> nat" where
  "config_id_after (Panel ev) s cid =
     (case panel_click (config (ui s)) ev of OnConfigChange c \<Rightarrow> Suc cid | OnToggle \<Rightarrow> cid)"
| "config_id_after ev s cid = cid"

subsection \<open>The component with its memoised functions\<close>

record ('e, 'b) hooked =
  component :: "('e, 'b) system"
  config_id :: nat
  renders :: nat
  cells :: "memo_cells option"

definition hooked_initial :: "('e, 'b) hooked" where
  "hooked_initial = \<lparr>component = initial_system, config_id = 0, renders = 0, cells = None\<rparr>"

definition rerender :: "('e, 'b) hooked \<Rightarrow> ('e, 'b) hooked" where
  "rerender hs =
     (let n = Suc (renders hs);
          s = render (component hs)
      in hs\<lparr>component := s, renders := n,
            cells := Some (render_memo (ui s) (config_id hs) n (cells hs))\<rparr>)"

definition run_effects :: "('e, 'b) library \<Rightarrow> ('e, 'b) hooked \<Rightarrow> ('e, 'b) hooked" where
  "run_effects lib hs =
     (case cells hs of
        None \<Rightarrow> hs
      | Some m \<Rightarrow>
          if effect_due (renders hs) (fx_initModel m)
          then rerender (hs\<lparr>component :=
                  closure_initModel lib (captured (fx_initModel m)) (component hs)\<rparr>)
          else hs)"

definition hooked_mounted :: "('e, 'b) library \<Rightarrow> ('e, 'b) hooked" where
  "hooked_mounted lib = run_effects lib (rerender hooked_initial)"

definition hooked_handle ::
  "('e, 'b) library \<Rightarrow> app_event \<Rightarrow> ('e, 'b) hooked \<Rightarrow> ('e, 'b) hooked" where
  "hooked_handle lib ev hs =
     (case cells hs of
        None \<Rightarrow> hs
      | Some m \<Rightarrow>
          run_effects lib
            (rerender (hs\<lparr>component := closure_handler lib m ev (component hs),
                          config_id := config_id_after ev (component hs) (config_id hs)\<rparr>)))"

inductive hooked_reachable :: "('e, 'b) library \<Rightarrow> ('e, 'b) hooked \<Rightarrow> bool" for lib where
  mount: "hooked_reachable lib (hooked_mounted lib)"
| event: "hooked_reachable lib hs \<Longrightarrow> enabled (component hs) ev \<Longrightarrow>
          hooked_reachable lib (hooked_handle lib ev hs)"

subsection \<open>Invariant\<close>

text \<open>
  A function is up to date if it is stored with the dependencies of the current state
  and has captured the current values. \<open>fresh\<close> says so of the handlers; \<open>hooks_inv\<close> adds
  that no function is younger than the last render and that the effect was made by
  the first.
\<close>

definition up_to_date :: "('d, 'c) callback \<Rightarrow> 'd \<Rightarrow> 'c \<Rightarrow> bool" where
  "up_to_date cell ds env \<longleftrightarrow> deps cell = ds \<and> captured cell = env"

definition fresh_cells :: "memo_cells \<Rightarrow> app_state \<Rightarrow> nat \<Rightarrow> bool" where
  "fresh_cells m u cid \<longleftrightarrow>
     up_to_date (cb_handleConfigChange m) cid (config u) \<and>
     up_to_date (cb_handleFileSelect m) cid (config u) \<and>
     up_to_date (cb_handleDrop m) (made_in (cb_handleFileSelect m)) (cb_handleFileSelect m) \<and>
     up_to_date (cb_handleFileChange m) (made_in (cb_handleFileSelect m)) (cb_handleFileSelect m) \<and>
     up_to_date (cb_downloadImage m) (image_ident (processedImage u), cid)
       (processedImage u, config u) \<and>
     up_to_date (cb_reset m) (image_ident (processedImage u)) (processedImage u)"

definition fresh :: "('e, 'b) hooked \<Rightarrow> bool" where
  "fresh hs \<longleftrightarrow>
     (case cells hs of
        None \<Rightarrow> False
      | Some m \<Rightarrow> fresh_cells m (ui (component hs)) (config_id hs))"

definition hooks_inv :: "('e, 'b) hooked \<Rightarrow> bool" where
  "hooks_inv hs \<longleftrightarrow>
     fresh hs \<and>
     (case cells hs of
        None \<Rightarrow> False
      | Some m \<Rightarrow>
          made_in (cb_handleFileSelect m) \<le> renders hs \<and>
          made_in (fx_initModel m) = 1 \<and> made_in (cb_handleDragOver m) = 1 \<and>
          made_in (cb_handleDragLeave m) = 1 \<and> 1 < renders hs)"

subsection \<open>Sample session\<close>

text \<open>An upload that succeeds, followed by a click on the JPEG button of the panel.\<close>

definition sample_hooked :: "(string, format) hooked" where
  "sample_hooked =
     hooked_handle lib_ok (Panel (FormatButton Image_jpeg))
       (hooked_handle lib_ok (FileChange [sample_file]) (hooked_mounted lib_ok))"

section \<open>Lemmas\<close>

subsection \<open>Memoised functions\<close>

lemma useCallback_None [simp]:
  "useCallback None ds n env = \<lparr>deps = ds, made_in = n, captured = env\<rparr>"
  by (simp add: useCallback_def)

lemma useCallback_Some:
  "useCallback (Some cell) ds n env =
     (if deps cell = ds then cell else \<lparr>deps = ds, made_in = n, captured = env\<rparr>)"
  by (simp add: useCallback_def)

lemma useCallback_unit [simp]: "useCallback (Some cell) () n env = cell"
  by (simp add: useCallback_Some)

lemma useEffect_eq [simp]: "useEffect prev ds n env = useCallback prev ds n env"
  by (simp add: useEffect_def)

text \<open>
  A function that was up to date stays so through a render if the values it reads have
  not changed where its dependencies have not.
\<close>

lemma up_to_date_useCallback:
  assumes "up_to_date cell ds0 env0" and "ds0 = ds \<Longrightarrow> env0 = env"
  shows "up_to_date (useCallback (Some cell) ds n env) ds env"
  using assms by (auto simp: up_to_date_def useCallback_Some)

lemma made_in_useCallback:
  "made_in (useCallback (Some cell) ds n env) = (if deps cell = ds then made_in cell else n)"
  by (simp add: useCallback_Some)

lemma useCallback_same_render:
  assumes "made_in cell < n" and "made_in (useCallback (Some cell) ds n env) = made_in cell"
  shows "useCallback (Some cell) ds n env = cell"
  using assms by (simp add: useCallback_Some split: if_splits)

lemma render_memo_simps [simp]:
  "fx_initModel (render_memo u cid n prev) =
     useEffect (map_option fx_initModel prev) () n (config u)"
  "cb_handleConfigChange (render_memo u cid n prev) =
     useCallback (map_option cb_handleConfigChange prev) cid n (config u)"
  "cb_handleFileSelect (render_memo u cid n prev) =
     useCallback (map_option cb_handleFileSelect prev) cid n (config u)"
  "cb_handleDrop (render_memo u cid n prev) =
     useCallback (map_option cb_handleDrop prev)
       (made_in (cb_handleFileSelect (render_memo u cid n prev))) n
       (cb_handleFileSelect (render_memo u cid n prev))"
  "cb_handleDragOver (render_memo u cid n prev) =
     useCallback (map_option cb_handleDragOver prev) () n ()"
  "cb_handleDragLeave (render_memo u cid n prev) =
     useCallback (map_option cb_handleDragLeave prev) () n ()"
  "cb_handleFileChange (render_memo u cid n prev) =
     useCallback (map_option cb_handleFileChange prev)
       (made_in (cb_handleFileSelect (render_memo u cid n prev))) n
       (cb_handleFileSelect (render_memo u cid n prev))"
  "cb_downloadImage (render_memo u cid n prev) =
     useCallback (map_option cb_downloadImage prev)
       (image_ident (processedImage u), cid) n (processedImage u, config u)"
  "cb_reset (render_memo u cid n prev) =
     useCallback (map_option cb_reset prev) (image_ident (processedImage u)) n (processedImage u)"
  by (simp_all add: render_memo_def Let_def)

subsection \<open>Handlers that read what they captured\<close>

lemma setConfig_same [simp]: "setConfig (config (ui s)) s = s"
  by (simp add: setConfig_def)

lemma config_initModel [simp]: "config (ui (initModel lib s)) = config (ui s)"
  by (simp add: initModel_def setter_defs app_console_error_def Let_def
      split: prod.splits sum.splits)

lemma config_handleFileSelect [simp]: "config (ui (handleFileSelect lib f s)) = config (ui s)"
  by (simp add: handleFileSelect_def setter_defs app_console_error_def createObjectURL_def Let_def
      split: prod.splits sum.splits)

lemma processedImage_handleConfigChange [simp]:
  "processedImage (ui (handleConfigChange lib c s)) = processedImage (ui s)"
  by (simp add: handleConfigChange_def setter_defs app_console_error_def Let_def
      split: prod.splits sum.splits)

lemma closure_initModel_fresh:
  assumes "c = config (ui s)"
  shows "closure_initModel lib c s = initModel lib s"
  using assms setConfig_same [of "initModel lib s"] by (simp add: closure_initModel_def)

lemma closure_handleFileSelect_fresh:
  assumes "captured cell = config (ui s)"
  shows "closure_handleFileSelect lib cell f s = handleFileSelect lib f s"
  using assms setConfig_same [of "handleFileSelect lib f s"]
  by (simp add: closure_handleFileSelect_def)

lemma closure_handler_fresh:
  assumes "fresh_cells m (ui s) cid"
  shows "closure_handler lib m ev s = (if ev = Mount then s else handler lib ev s)"
proof (cases ev)
  case (Drop files)
  from assms have "captured (captured (cb_handleDrop m)) = config (ui (setDragOver False s))"
    by (simp add: fresh_cells_def up_to_date_def)
  then show ?thesis
    by (simp add: Drop closure_handleDrop_def handleDrop_def closure_handleFileSelect_fresh
        Let_def split: list.splits)
next
  case (FileChange files)
  from assms have "captured (captured (cb_handleFileChange m)) = config (ui s)"
    by (simp add: fresh_cells_def up_to_date_def)
  then show ?thesis
    by (simp add: FileChange closure_handleFileChange_def handleFileChange_def
        closure_handleFileSelect_fresh split: list.splits)
next
  case ResetClick
  with assms show ?thesis
    by (simp add: closure_reset_def fresh_cells_def up_to_date_def setProcessedImage_def)
qed (use assms in \<open>auto simp: closure_handleConfigChange_def closure_downloadImage_def
      downloadImage_def fresh_cells_def up_to_date_def
      split: panel_callback.splits option.splits\<close>)

subsection \<open>What an event leaves as it was\<close>

lemma image_ident_simps [simp]:
  "image_ident None = None"
  "image_ident (Some i) = Some (original i)"
  "image_ident img = None \<longleftrightarrow> img = None"
  "None = image_ident img \<longleftrightarrow> img = None"
  by (auto simp: image_ident_def)

lemma config_kept:
  assumes "config_id_after ev s cid = cid"
  shows "config (ui (handler lib ev s)) = config (ui s)"
proof (cases ev)
  case (Panel pev)
  with assms show ?thesis
    by (cases "panel_click (config (ui s)) pev") (simp_all add: onToggle_def setter_defs)
next
  case (Drop files)
  then show ?thesis by (cases files) (simp_all add: handleDrop_def Let_def)
next
  case (FileChange files)
  then show ?thesis by (cases files) (simp_all add: handleFileChange_def)
next
  case DownloadClick
  then show ?thesis by (simp add: downloadImage_def split: option.splits)
qed (simp_all add: handleDragOver_def handleDragLeave_def reset_eq)

lemma image_kept:
  assumes "enabled s ev"
    and "image_ident (processedImage (ui (handler lib ev s))) = image_ident (processedImage (ui s))"
  shows "processedImage (ui (handler lib ev s)) = processedImage (ui s)"
proof (cases ev)
  case (Panel pev)
  then show ?thesis
    by (cases "panel_click (config (ui s)) pev") (simp_all add: onToggle_def setter_defs)
next
  case (Drop files)
  with assms show ?thesis by (simp add: show_upload_def)
next
  case (FileChange files)
  with assms show ?thesis by (simp add: show_upload_def)
next
  case DownloadClick
  then show ?thesis by (simp add: downloadImage_def split: option.splits)
next
  case ResetClick
  with assms show ?thesis by (simp add: show_results_def reset_eq)
qed (use assms in \<open>simp_all add: handleDragOver_def handleDragLeave_def\<close>)

subsection \<open>A render keeps the functions up to date\<close>

lemma fresh_cells_first: "fresh_cells (render_memo u cid n None) u cid"
  by (simp add: fresh_cells_def up_to_date_def)

lemma fresh_cells_render:
  assumes "fresh_cells m u cid" and "made_in (cb_handleFileSelect m) < n"
    and "cid' = cid \<Longrightarrow> config u' = config u"
    and "image_ident (processedImage u') = image_ident (processedImage u) \<Longrightarrow>
         processedImage u' = processedImage u"
  shows "fresh_cells (render_memo u' cid' n (Some m)) u' cid'"
proof -
  let ?m = "render_memo u' cid' n (Some m)"
  from assms(1) have
    a: "up_to_date (cb_handleConfigChange m) cid (config u)" and
    b: "up_to_date (cb_handleFileSelect m) cid (config u)" and
    c: "up_to_date (cb_handleDrop m) (made_in (cb_handleFileSelect m)) (cb_handleFileSelect m)" and
    d: "up_to_date (cb_handleFileChange m) (made_in (cb_handleFileSelect m))
          (cb_handleFileSelect m)" and
    e: "up_to_date (cb_downloadImage m) (image_ident (processedImage u), cid)
          (processedImage u, config u)" and
    f: "up_to_date (cb_reset m) (image_ident (processedImage u)) (processedImage u)"
    by (simp_all add: fresh_cells_def)
  have same: "cb_handleFileSelect m = cb_handleFileSelect ?m"
    if "made_in (cb_handleFileSelect m) = made_in (cb_handleFileSelect ?m)"
    using useCallback_same_render [OF assms(2), of cid' "config u'"] that by simp
  have "up_to_date (cb_handleConfigChange ?m) cid' (config u')"
    and "up_to_date (cb_handleFileSelect ?m) cid' (config u')"
    using assms(3) by (simp_all add: up_to_date_useCallback [OF a] up_to_date_useCallback [OF b])
  moreover have "up_to_date (cb_handleDrop ?m) (made_in (cb_handleFileSelect ?m))
      (cb_handleFileSelect ?m)"
    and "up_to_date (cb_handleFileChange ?m) (made_in (cb_handleFileSelect ?m))
      (cb_handleFileSelect ?m)"
    using same
    by (simp_all only: render_memo_simps(4,7) option.map
        up_to_date_useCallback [OF c] up_to_date_useCallback [OF d])
  moreover have "up_to_date (cb_downloadImage ?m) (image_ident (processedImage u'), cid')
      (processedImage u', config u')"
    unfolding render_memo_simps option.map
    by (rule up_to_date_useCallback [OF e]) (use assms(3,4) in auto)
  moreover have "up_to_date (cb_reset ?m) (image_ident (processedImage u')) (processedImage u')"
    unfolding render_memo_simps option.map
    by (rule up_to_date_useCallback [OF f]) (use assms(4) in auto)
  ultimately show ?thesis by (simp only: fresh_cells_def simp_thms)
qed

lemma made_in_render:
  "made_in (cb_handleFileSelect (render_memo u cid n (Some m))) \<le>
     max n (made_in (cb_handleFileSelect m))"
  by (simp add: useCallback_Some)

lemma rerender_simps [simp]:
  "component (rerender hs) = render (component hs)"
  "config_id (rerender hs) = config_id hs"
  "renders (rerender hs) = Suc (renders hs)"
  "cells (rerender hs) =
     Some (render_memo (ui (component hs)) (config_id hs) (Suc (renders hs)) (cells hs))"
  by (simp_all add: rerender_def Let_def)

text \<open>
  The invariant survives whatever comes between two renders, if the configuration has
  changed only together with its identity and a result has been replaced only by another
  object.
\<close>

lemma hooks_inv_rerender:
  assumes "hooks_inv hs"
    and "cid' = config_id hs \<Longrightarrow> config (ui s') = config (ui (component hs))"
    and "image_ident (processedImage (ui s')) = image_ident (processedImage (ui (component hs))) \<Longrightarrow>
         processedImage (ui s') = processedImage (ui (component hs))"
  shows "hooks_inv (rerender (hs\<lparr>component := s', config_id := cid'\<rparr>))"
proof -
  from assms(1) obtain m where m: "cells hs = Some m"
    and f: "fresh_cells m (ui (component hs)) (config_id hs)"
    and n: "made_in (cb_handleFileSelect m) \<le> renders hs"
    and fx: "made_in (fx_initModel m) = 1" "made_in (cb_handleDragOver m) = 1"
      "made_in (cb_handleDragLeave m) = 1" "1 < renders hs"
    by (auto simp: hooks_inv_def fresh_def split: option.splits)
  have "fresh_cells (render_memo (ui s') cid' (Suc (renders hs)) (Some m)) (ui s') cid'"
    using f n assms(2,3)
    by (intro fresh_cells_render [where u = "ui (component hs)" and cid = "config_id hs"])
       simp_all
  moreover have "made_in (cb_handleFileSelect
      (render_memo (ui s') cid' (Suc (renders hs)) (Some m))) \<le> Suc (renders hs)"
    using made_in_render [of "ui s'" cid' "Suc (renders hs)" m] n by simp
  ultimately show ?thesis
    using fx by (simp add: hooks_inv_def fresh_def m)
qed

lemma effect_idle:
  assumes "hooks_inv hs" and "cells hs = Some m"
  shows "\<not> effect_due (renders hs) (fx_initModel m)"
  using assms by (auto simp: hooks_inv_def effect_due_def)

lemma run_effects_idle:
  assumes "hooks_inv hs"
  shows "run_effects lib hs = hs"
  using assms effect_idle [OF assms]
  by (auto simp: run_effects_def hooks_inv_def split: option.splits)

subsection \<open>One event\<close>

lemma hooks_inv_handler:
  assumes "hooks_inv hs" and "enabled (component hs) ev"
  shows "hooks_inv (rerender (hs\<lparr>component := handler lib ev (component hs),
           config_id := config_id_after ev (component hs) (config_id hs)\<rparr>))"
  using assms(1) config_kept [of ev "component hs" "config_id hs" lib]
    image_kept [OF assms(2), of lib]
  by (rule hooks_inv_rerender)

lemma hooked_handle_eq:
  assumes "hooks_inv hs" and "enabled (component hs) ev"
  shows "hooked_handle lib ev hs =
     rerender (hs\<lparr>component := handler lib ev (component hs),
       config_id := config_id_after ev (component hs) (config_id hs)\<rparr>)"
proof -
  from assms(1) obtain m where m: "cells hs = Some m"
    and f: "fresh_cells m (ui (component hs)) (config_id hs)"
    by (auto simp: hooks_inv_def fresh_def split: option.splits)
  from assms(2) have "ev \<noteq> Mount" by auto
  with f have "closure_handler lib m ev (component hs) = handler lib ev (component hs)"
    by (simp add: closure_handler_fresh)
  then show ?thesis
    by (simp add: hooked_handle_def m run_effects_idle [OF hooks_inv_handler [OF assms]])
qed

lemma component_hooked_handle:
  assumes "hooks_inv hs" and "enabled (component hs) ev"
  shows "component (hooked_handle lib ev hs) = handle lib ev (component hs)"
  by (simp add: hooked_handle_eq [OF assms] handle_def)

lemma hooks_inv_handle:
  assumes "hooks_inv hs" and "enabled (component hs) ev"
  shows "hooks_inv (hooked_handle lib ev hs)"
  unfolding hooked_handle_eq [OF assms] using assms by (rule hooks_inv_handler)

subsection \<open>Mounting\<close>

text \<open>
  The first render stores every function; the effect is due after it and is followed
  by the second render, after which the invariant holds if the effect has left the
  configuration and the result alone.
\<close>

lemma first_render:
  "rerender (hooked_initial :: ('e, 'b) hooked) =
     \<lparr>component = render initial_system, config_id = 0, renders = 1,
      cells = Some (render_memo (ui (initial_system :: ('e, 'b) system)) 0 1 None)\<rparr>"
  by (simp add: rerender_def hooked_initial_def Let_def)

lemma hooks_inv_second_render:
  assumes "config (ui s') = config (ui (initial_system :: ('e, 'b) system))"
    and "processedImage (ui s') = processedImage (ui (initial_system :: ('e, 'b) system))"
  shows "hooks_inv (rerender ((rerender hooked_initial)\<lparr>component := (s' :: ('e, 'b) system)\<rparr>))"
proof -
  let ?m = "render_memo (ui (initial_system :: ('e, 'b) system)) 0 1 None"
  have "fresh_cells (render_memo (ui s') 0 2 (Some ?m)) (ui s') 0"
    using fresh_cells_first [of "ui (initial_system :: ('e, 'b) system)" 0 1] assms
    by (intro fresh_cells_render [where u = "ui (initial_system :: ('e, 'b) system)" and cid = 0])
       simp_all
  then show ?thesis
    by (simp add: first_render hooks_inv_def fresh_def useCallback_Some numeral_2_eq_2)
qed

lemma hooked_mounted_eq:
  "hooked_mounted lib =
     rerender ((rerender hooked_initial)\<lparr>component := initModel lib (render initial_system)\<rparr>)"
  by (simp add: hooked_mounted_def run_effects_def first_render closure_initModel_fresh
      effect_due_def)

lemma component_hooked_mounted [simp]: "component (hooked_mounted lib) = mounted lib"
  by (simp add: hooked_mounted_eq mounted_def handle_def)

lemma hooks_inv_mounted: "hooks_inv (hooked_mounted lib)"
  unfolding hooked_mounted_eq
  by (rule hooks_inv_second_render)
     (simp_all add: initModel_def setter_defs app_console_error_def Let_def
        split: prod.splits sum.splits)

subsection \<open>Reachable states\<close>

lemma hooked_reachable_inv: "hooked_reachable lib hs \<Longrightarrow> hooks_inv hs"
  by (induction rule: hooked_reachable.induct) (simp_all add: hooks_inv_mounted hooks_inv_handle)

lemma hooked_reachable_app: "hooked_reachable lib hs \<Longrightarrow> app_reachable lib (component hs)"
proof (induction rule: hooked_reachable.induct)
  case mount
  show ?case by (simp add: app_reachable.mount)
next
  case (event hs ev)
  from event.hyps(1) have "hooks_inv hs" by (rule hooked_reachable_inv)
  with event show ?case by (simp add: component_hooked_handle app_reachable.event)
qed

lemma app_reachable_hooked:
  assumes "app_reachable lib s"
  shows "\<exists>hs. hooked_reachable lib hs \<and> component hs = s"
  using assms
proof (induction rule: app_reachable.induct)
  case mount
  from hooked_reachable.mount [of lib] component_hooked_mounted [of lib] show ?case by blast
next
  case (event s ev)
  then obtain hs where hs: "hooked_reachable lib hs" "component hs = s" by blast
  from hs(1) have "hooks_inv hs" by (rule hooked_reachable_inv)
  with event.hyps(2) hs(2) have "component (hooked_handle lib ev hs) = handle lib ev s"
    by (simp add: component_hooked_handle)
  moreover from hs event.hyps(2) have "hooked_reachable lib (hooked_handle lib ev hs)"
    by (auto intro: hooked_reachable.event)
  ultimately show ?case by blast
qed

subsection \<open>Sample session\<close>

lemma sample_upload_enabled: "enabled (mounted lib_ok) (FileChange [sample_file])"
  by (simp add: mounted_lib_ok show_upload_def initial_app_state_def)

lemma sample_hooked_reachable: "hooked_reachable lib_ok sample_hooked"
proof -
  have "hooked_reachable lib_ok (hooked_handle lib_ok (FileChange [sample_file])
      (hooked_mounted lib_ok))"
    using sample_upload_enabled
    by (intro hooked_reachable.event hooked_reachable.mount) simp
  then show ?thesis
    unfolding sample_hooked_def by (rule hooked_reachable.event) simp
qed

lemma component_sample_hooked:
  "component sample_hooked = handle lib_ok (Panel (FormatButton Image_jpeg)) sample_done"
proof -
  let ?hs = "hooked_handle lib_ok (FileChange [sample_file]) (hooked_mounted lib_ok)"
  have e: "enabled (component (hooked_mounted lib_ok)) (FileChange [sample_file])"
    using sample_upload_enabled by simp
  have 1: "component ?hs = sample_done"
    using sample_upload_enabled
    by (simp add: component_hooked_handle [OF hooks_inv_mounted e] sample_done_def)
  have "hooks_inv ?hs" using hooks_inv_mounted e by (rule hooks_inv_handle)
  then show ?thesis
    unfolding sample_hooked_def by (subst component_hooked_handle) (simp_all add: 1)
qed

lemma sample_jpeg_name:
  "download_name (defaultConfig\<lparr>output := (output defaultConfig)\<lparr>format := Image_jpeg\<rparr>\<rparr>)
     ''cat.png'' = ''no-bg-cat.jpg''"
  by (simp add: download_name_def outputType_cases extension_cases ext_char_def)

section \<open>Properties\<close>

text \<open>
  \<^bold>\<open>C26\<close> (invariant). No function of the component is ever stale. After the mount
  effect and any events of the user, each handler React keeps is stored with the
  dependencies of the current state and has captured the current values of what it reads:
  \<open>handleConfigChange\<close> and \<open>handleFileSelect\<close> the configuration, \<open>handleDrop\<close> and
  \<open>handleFileChange\<close> the current \<open>handleFileSelect\<close>, \<open>downloadImage\<close> the result and the
  configuration, \<open>reset\<close> the result. The effect and the two handlers with an empty
  dependency list are those of the first render, so \<open>initModel\<close> runs once.
\<close>

theorem handlers_never_stale:
  assumes "hooked_reachable lib hs"
  shows "fresh hs \<and>
         (\<exists>m. cells hs = Some m \<and> made_in (fx_initModel m) = 1 \<and>
              made_in (cb_handleDragOver m) = 1 \<and> made_in (cb_handleDragLeave m) = 1 \<and>
              \<not> effect_due (renders hs) (fx_initModel m))"
  using hooked_reachable_inv [OF assms]
  by (auto simp: hooks_inv_def effect_due_def split: option.splits)

theorem handlers_never_stale_witness:
  "hooked_reachable lib_ok sample_hooked \<and>
   (\<exists>m. cells sample_hooked = Some m \<and>
        captured (cb_downloadImage m) =
          (Some \<lparr>original = 0, processed = 1, filename = ''cat.png''\<rparr>,
           defaultConfig\<lparr>output := (output defaultConfig)\<lparr>format := Image_jpeg\<rparr>\<rparr>) \<and>
        captured (captured (cb_handleDrop m)) =
          defaultConfig\<lparr>output := (output defaultConfig)\<lparr>format := Image_jpeg\<rparr>\<rparr> \<and>
        made_in (fx_initModel m) = 1)"
proof -
  have u: "ui (component sample_hooked) =
      (ui sample_done)\<lparr>config := defaultConfig\<lparr>output := (output defaultConfig)\<lparr>format := Image_jpeg\<rparr>\<rparr>\<rparr>"
    by (simp add: component_sample_hooked handle_format_click setConfig_def)
       (simp add: sample_done_eq initial_app_state_def)
  from handlers_never_stale [OF sample_hooked_reachable] u sample_hooked_reachable
  show ?thesis
    by (auto simp: fresh_def fresh_cells_def up_to_date_def sample_done_eq initial_app_state_def
        split: option.splits)
qed

text \<open>
  \<^bold>\<open>C25\<close> (refinement). The memoised handlers are the handlers of \<open>App\<close>. In every state
  the component reaches with the functions React keeps, the function a control is given
  does what the handler of \<open>App\<close>, which reads the current state, does: the state after
  the event and the render is that of \<open>handle\<close>, and the states reached are states of
  \<open>App\<close>.
\<close>

theorem memoised_handlers_read_current_state:
  assumes "hooked_reachable lib hs" and "enabled (component hs) ev"
  shows "component (hooked_handle lib ev hs) = handle lib ev (component hs) \<and>
         app_reachable lib (component hs) \<and>
         hooked_reachable lib (hooked_handle lib ev hs)"
proof -
  from assms(1) have "hooks_inv hs" by (rule hooked_reachable_inv)
  then show ?thesis
    using assms hooked_reachable_app [OF assms(1)]
    by (simp add: component_hooked_handle hooked_reachable.event)
qed

theorem memoised_handlers_read_current_state_witness:
  "hooked_reachable lib_ok sample_hooked \<and>
   enabled (component sample_hooked) DownloadClick \<and>
   downloads (dom (component (hooked_handle lib_ok DownloadClick sample_hooked))) =
     [(1, ''no-bg-cat.jpg'')]"
proof -
  have e: "enabled (component sample_hooked) DownloadClick"
    by (simp add: component_sample_hooked show_results_def handle_format_click setConfig_def
        sample_done_eq)
  from memoised_handlers_read_current_state [OF sample_hooked_reachable e] e
    sample_hooked_reachable
  show ?thesis
    by (simp add: component_sample_hooked handle_format_click)
       (simp add: handle_def downloadImage_def setConfig_def sample_done_eq
          initial_app_state_def sample_jpeg_name)
qed

end
