(* ===== verification/HooksAsync.thy ===== *)
theory HooksAsync
  imports Hooks AppAsync
begin

text \<open>
  The memoised functions of \<^verbatim>\<open>src/src/App.tsx\<close> when handlers interleave. A handler that
  is suspended at its \<open>await\<close> has returned to React, which renders; the function the next
  event is given is that of this render. What follows the \<open>await\<close> belongs to the
  function that was started and reads what that function captured, which \<open>AppAsync\<close>
  keeps in the pending call.

  \<^item> \<open>closure_begin_initModel\<close>, \<open>closure_begin_handleConfigChange\<close>,
    \<open>closure_begin_handleFileSelect\<close>, \<open>closure_start_handler\<close>: the handlers up to their
    \<open>await\<close>, reading what the function has captured.
  \<^item> \<open>hooked_async\<close>, \<open>hooked_async_exec\<close>, \<open>hooked_async_reachable\<close>: the component
    with its memoised functions and its pending calls; a step is followed by a render
    and by the effects that are due.
  \<^item> \<open>async_of\<close>: the state of \<open>AppAsync\<close> it stands for.

  The lemmas show that under every schedule the functions are up to date after every
  step, and that the steps are those of \<open>AppAsync\<close>.
\<close>

section \<open>Definitions\<close>

subsection \<open>Handlers up to their await\<close>

definition closure_begin_initModel :: "config \<Rightarrow> ('e, 'b) system \<Rightarrow> ('e, 'b) system \<times> task list" where
  "closure_begin_initModel c s =
     (let (s', ts) = begin_initModel (setConfig c s) in (setConfig (config (ui s)) s', ts))"

definition closure_begin_handleConfigChange ::
  "config_callback \<Rightarrow> config \<Rightarrow> ('e, 'b) system \<Rightarrow> ('e, 'b) system \<times> task list" where
  "closure_begin_handleConfigChange cell newConfig s =
     begin_handleConfigChange newConfig (setConfig (captured cell) s)"

definition closure_begin_handleFileSelect ::
  "config_callback \<Rightarrow> dom_file \<Rightarrow> ('e, 'b) system \<Rightarrow> ('e, 'b) system \<times> task list" where
  "closure_begin_handleFileSelect cell file s =
     (let (s', ts) = begin_handleFileSelect file (setConfig (captured cell) s)
      in (setConfig (config (ui s)) s', ts))"

fun closure_start_handler ::
  "memo_cells \<Rightarrow> app_event \<Rightarrow> ('e, 'b) system \<Rightarrow> ('e, 'b) system \<times> task list" where
  "closure_start_handler m Mount s = (s, [])"
| "closure_start_handler m (Panel ev) s =
     (case panel_click (config (ui s)) ev of
        OnConfigChange c \<Rightarrow> closure_begin_handleConfigChange (cb_handleConfigChange m) c s
      | OnToggle \<Rightarrow> (onToggle s, []))"
| "closure_start_handler m (Drop files) s =
     (let s1 = setDragOver False s
      in case files of
           file # _ \<Rightarrow> closure_begin_handleFileSelect (captured (cb_handleDrop m)) file s1
         | [] \<Rightarrow> (s1, []))"
| "closure_start_handler m DragOver s = (handleDragOver s, [])"
| "closure_start_handler m DragLeave s = (handleDragLeave s, [])"
| "closure_start_handler m (FileChange files) s =
     (case files of
        file # _ \<Rightarrow> closure_begin_handleFileSelect (captured (cb_handleFileChange m)) file s
      | [] \<Rightarrow> (s, []))"
| "closure_start_handler m DownloadClick s = (closure_downloadImage (cb_downloadImage m) s, [])"
| "closure_start_handler m ResetClick s = (closure_reset (cb_reset m) s, [])"

subsection \<open>Steps\<close>

record ('e, 'b) hooked_async =
  hooks :: "('e, 'b) hooked"
  waiting :: "task list"

definition async_of :: "('e, 'b) hooked_async \<Rightarrow> ('e, 'b) async_state" where
  "async_of h = \<lparr>sys = component (hooks h), pending = waiting h\<rparr>"

definition async_run_effects :: "('e, 'b) hooked_async \<Rightarrow> ('e, 'b) hooked_async" where
  "async_run_effects h =
     (case cells (hooks h) of
        None \<Rightarrow> h
      | Some m \<Rightarrow>
          if effect_due (renders (hooks h)) (fx_initModel m)
          then (let (s', ts) = closure_begin_initModel (captured (fx_initModel m))
                                 (component (hooks h))
                in \<lparr>hooks = rerender ((hooks h)\<lparr>component := s'\<rparr>), waiting = waiting h @ ts\<rparr>)
          else h)"

definition hooked_async_mounted :: "('e, 'b) hooked_async" where
  "hooked_async_mounted = async_run_effects \<lparr>hooks = rerender hooked_initial, waiting = []\<rparr>"

fun hooked_async_exec ::
  "('e, 'b) async_event \<Rightarrow> ('e, 'b) hooked_async \<Rightarrow> ('e, 'b) hooked_async option" where
  "hooked_async_exec (User ev) h =
     (case cells (hooks h) of
        None \<Rightarrow> None
      | Some m \<Rightarrow>
          if enabled (component (hooks h)) ev
          then (let (s', ts) = closure_start_handler m ev (component (hooks h))
                in Some (async_run_effects
                     \<lparr>hooks = rerender ((hooks h)\<lparr>component := s',
                          config_id := config_id_after ev (component (hooks h))
                            (config_id (hooks h))\<rparr>),
                      waiting = waiting h @ ts\<rparr>))
          else None)"
| "hooked_async_exec (Settle i r) h =
     (if i < length (waiting h)
      then map_option
             (\<lambda>s'. async_run_effects
                \<lparr>hooks = rerender ((hooks h)\<lparr>component := s'\<rparr>),
                 waiting = take i (waiting h) @ drop (Suc i) (waiting h)\<rparr>)
             (finish_handler (waiting h ! i) r (component (hooks h)))
      else None)"

inductive hooked_async_reachable :: "('e, 'b) hooked_async \<Rightarrow> bool" where
  start: "hooked_async_reachable hooked_async_mounted"
| step: "hooked_async_reachable h \<Longrightarrow> hooked_async_exec e h = Some h' \<Longrightarrow>
         hooked_async_reachable h'"

fun hooked_async_run ::
  "('e, 'b) async_event list \<Rightarrow> ('e, 'b) hooked_async \<Rightarrow> ('e, 'b) hooked_async option" where
  "hooked_async_run [] h = Some h"
| "hooked_async_run (e # es) h =
     (case hooked_async_exec e h of None \<Rightarrow> None | Some h' \<Rightarrow> hooked_async_run es h')"

text \<open>
  A schedule for the theorems: the model loads, a file is selected, and the JPEG button of
  the panel is clicked while the inference is pending.
\<close>

definition sample_change_while_processing :: "(string, format) async_event list" where
  "sample_change_while_processing = sample_processing @ [User (Panel (FormatButton Image_jpeg))]"

definition hooked_async_inv :: "('e, 'b) hooked_async \<Rightarrow> bool" where
  "hooked_async_inv h \<longleftrightarrow> hooks_inv (hooks h) \<and> async_reachable (async_of h)"

section \<open>Lemmas\<close>

subsection \<open>Handlers up to their await\<close>

lemma config_begin_initModel [simp]: "config (ui (fst (begin_initModel s))) = config (ui s)"
  by (simp add: begin_initModel_def setter_defs Let_def)

lemma config_begin_handleFileSelect [simp]:
  "config (ui (fst (begin_handleFileSelect f s))) = config (ui s)"
  by (simp add: begin_handleFileSelect_def setter_defs createObjectURL_def Let_def
      split: prod.splits)

lemma closure_begin_initModel_fresh:
  assumes "c = config (ui s)"
  shows "closure_begin_initModel c s = begin_initModel s"
  using assms setConfig_same [of "fst (begin_initModel s)"]
  by (simp add: closure_begin_initModel_def case_prod_beta)

lemma closure_begin_handleFileSelect_fresh:
  assumes "captured cell = config (ui s)"
  shows "closure_begin_handleFileSelect cell f s = begin_handleFileSelect f s"
  using assms setConfig_same [of "fst (begin_handleFileSelect f s)"]
  by (simp add: closure_begin_handleFileSelect_def case_prod_beta)

lemma closure_start_handler_fresh:
  assumes "fresh_cells m (ui s) cid" and "ev \<noteq> Mount"
  shows "closure_start_handler m ev s = start_handler ev s"
proof (cases ev)
  case (Drop files)
  from assms have "captured (captured (cb_handleDrop m)) = config (ui (setDragOver False s))"
    by (simp add: fresh_cells_def up_to_date_def)
  then show ?thesis
    by (simp add: Drop closure_begin_handleFileSelect_fresh Let_def split: list.splits)
next
  case (FileChange files)
  from assms have "captured (captured (cb_handleFileChange m)) = config (ui s)"
    by (simp add: fresh_cells_def up_to_date_def)
  then show ?thesis
    by (simp add: FileChange closure_begin_handleFileSelect_fresh split: list.splits)
next
  case ResetClick
  with assms show ?thesis
    by (simp add: closure_reset_def fresh_cells_def up_to_date_def setProcessedImage_def)
qed (use assms in \<open>auto simp: closure_begin_handleConfigChange_def closure_downloadImage_def
      downloadImage_def fresh_cells_def up_to_date_def
      split: panel_callback.splits option.splits\<close>)

subsection \<open>What a step leaves as it was\<close>

lemma config_kept_start:
  assumes "config_id_after ev s cid = cid"
  shows "config (ui (fst (start_handler ev s))) = config (ui s)"
proof (cases ev)
  case (Panel pev)
  with assms show ?thesis
    by (cases "panel_click (config (ui s)) pev") (simp_all add: onToggle_def setter_defs)
next
  case (Drop files)
  then show ?thesis by (cases files) (simp_all add: Let_def)
next
  case (FileChange files)
  then show ?thesis by (cases files) simp_all
next
  case DownloadClick
  then show ?thesis by (simp add: downloadImage_def split: option.splits)
qed (simp_all add: handleDragOver_def handleDragLeave_def reset_eq)

lemma processedImage_begin [simp]:
  "processedImage (ui (fst (begin_initModel s))) = processedImage (ui s)"
  "processedImage (ui (fst (begin_handleConfigChange c s))) = processedImage (ui s)"
  "processedImage (ui (fst (begin_handleFileSelect f s))) = processedImage (ui s)"
  by (simp_all add: begin_initModel_def begin_handleConfigChange_def begin_handleFileSelect_def
      setter_defs createObjectURL_def Let_def split: prod.splits)

lemma image_kept_start:
  assumes "enabled s ev"
    and "image_ident (processedImage (ui (fst (start_handler ev s)))) =
         image_ident (processedImage (ui s))"
  shows "processedImage (ui (fst (start_handler ev s))) = processedImage (ui s)"
proof (cases ev)
  case (Panel pev)
  then show ?thesis
    by (cases "panel_click (config (ui s)) pev") (simp_all add: onToggle_def setter_defs)
next
  case (Drop files)
  then show ?thesis by (cases files) (simp_all add: Let_def)
next
  case (FileChange files)
  then show ?thesis by (cases files) simp_all
next
  case DownloadClick
  then show ?thesis by (simp add: downloadImage_def split: option.splits)
next
  case ResetClick
  with assms show ?thesis by (simp add: show_results_def reset_eq)
qed (use assms in \<open>simp_all add: handleDragOver_def handleDragLeave_def\<close>)

lemma config_finish:
  assumes "finish_handler t r s = Some s'"
  shows "config (ui s') = config (ui s)"
  using assms
  by (cases t; cases r)
     (auto simp: finish_initModel_def finish_handleConfigChange_def finish_handleFileSelect_def
        setter_defs app_console_error_def createObjectURL_def Let_def
        split: prod.splits sum.splits)

lemma image_kept_finish:
  assumes "finish_handler t r s = Some s'"
    and "is_removal t \<Longrightarrow> processedImage (ui s) = None"
    and "image_ident (processedImage (ui s')) = image_ident (processedImage (ui s))"
  shows "processedImage (ui s') = processedImage (ui s)"
  using assms
  by (cases t; cases r)
     (auto simp: finish_initModel_def finish_handleConfigChange_def finish_handleFileSelect_def
        setter_defs app_console_error_def createObjectURL_def Let_def
        split: prod.splits sum.splits)

lemma removal_pending:
  assumes "i < length ts" and "is_removal (ts ! i)"
  shows "uploads ts \<noteq> []"
proof -
  from assms obtain f c u where "Removal f c u \<in> set ts"
    by (cases "ts ! i") (auto simp: in_set_conv_nth)
  then show ?thesis by (induction ts) (auto simp: uploads_def)
qed

subsection \<open>One step\<close>

lemma async_of_simps [simp]:
  "sys (async_of h) = component (hooks h)" "pending (async_of h) = waiting h"
  by (simp_all add: async_of_def)

lemma async_run_effects_idle:
  assumes "hooks_inv (hooks h)"
  shows "async_run_effects h = h"
  using assms effect_idle [OF assms]
  by (auto simp: async_run_effects_def hooks_inv_def split: option.splits)

lemma hooked_user_step:
  assumes "hooked_async_inv h" and "enabled (component (hooks h)) ev"
  defines "h' \<equiv> \<lparr>hooks = rerender ((hooks h)\<lparr>component := fst (start_handler ev (component (hooks h))),
               config_id := config_id_after ev (component (hooks h)) (config_id (hooks h))\<rparr>),
             waiting = waiting h @ snd (start_handler ev (component (hooks h)))\<rparr>"
  shows "hooked_async_exec (User ev) h = Some h'" and "hooks_inv (hooks h')"
proof -
  from assms(1) have inv: "hooks_inv (hooks h)" by (simp add: hooked_async_inv_def)
  then obtain m where m: "cells (hooks h) = Some m"
    and f: "fresh_cells m (ui (component (hooks h))) (config_id (hooks h))"
    by (auto simp: hooks_inv_def fresh_def split: option.splits)
  from assms(2) have "ev \<noteq> Mount" by auto
  with f have c: "closure_start_handler m ev (component (hooks h)) =
      start_handler ev (component (hooks h))"
    by (rule closure_start_handler_fresh)
  show 2: "hooks_inv (hooks h')"
    unfolding h'_def hooked_async.simps
    using inv config_kept_start [of ev "component (hooks h)" "config_id (hooks h)"]
      image_kept_start [OF assms(2)]
    by (rule hooks_inv_rerender)
  show "hooked_async_exec (User ev) h = Some h'"
    using assms(2) async_run_effects_idle [OF 2]
    by (simp add: m c case_prod_beta h'_def)
qed

lemma hooked_settle_step:
  assumes "hooked_async_inv h" and "i < length (waiting h)"
    and "finish_handler (waiting h ! i) r (component (hooks h)) = Some s'"
  defines "h' \<equiv> \<lparr>hooks = rerender ((hooks h)\<lparr>component := s'\<rparr>),
             waiting = take i (waiting h) @ drop (Suc i) (waiting h)\<rparr>"
  shows "hooked_async_exec (Settle i r) h = Some h'" and "hooks_inv (hooks h')"
proof -
  from assms(1) have inv: "hooks_inv (hooks h)" and "async_urls_inv (async_of h)"
    by (simp_all add: hooked_async_inv_def async_reachable_urls_inv)
  then have none: "processedImage (ui (component (hooks h))) = None" if "is_removal (waiting h ! i)"
    using removal_pending [OF assms(2) that] by (simp add: async_urls_inv_def)
  have "hooks_inv (rerender ((hooks h)\<lparr>component := s', config_id := config_id (hooks h)\<rparr>))"
    using inv config_finish [OF assms(3)] image_kept_finish [OF assms(3) none]
    by (rule hooks_inv_rerender)
  then show 2: "hooks_inv (hooks h')" by (simp add: h'_def)
  show "hooked_async_exec (Settle i r) h = Some h'"
    using assms(2,3) async_run_effects_idle [OF 2] by (simp add: h'_def)
qed

lemma hooked_exec_None:
  "\<not> enabled (component (hooks h)) ev \<Longrightarrow> hooked_async_exec (User ev) h = None"
  "\<not> i < length (waiting h) \<Longrightarrow> hooked_async_exec (Settle i r) h = None"
  "finish_handler (waiting h ! i) r (component (hooks h)) = None \<Longrightarrow>
   hooked_async_exec (Settle i r) h = None"
  by (simp_all split: option.splits)

declare hooked_async_exec.simps [simp del]

text \<open>A step with memoised functions is the step of \<open>AppAsync\<close>.\<close>

lemma hooked_exec_simulates:
  assumes "hooked_async_inv h"
  shows "map_option async_of (hooked_async_exec e h) = async_exec e (async_of h)"
proof (cases e)
  case (User ev)
  show ?thesis
  proof (cases "enabled (component (hooks h)) ev")
    case True
    then show ?thesis
      by (simp add: User hooked_user_step(1) [OF assms True] async_of_def case_prod_beta)
  next
    case False
    then show ?thesis by (simp add: User hooked_exec_None)
  qed
next
  case (Settle i r)
  show ?thesis
  proof (cases "i < length (waiting h)")
    case True
    show ?thesis
    proof (cases "finish_handler (waiting h ! i) r (component (hooks h))")
      case None
      with True show ?thesis by (simp add: Settle hooked_exec_None)
    next
      case (Some s')
      from True Some show ?thesis
        by (simp add: Settle hooked_settle_step(1) [OF assms True Some] async_of_def)
    qed
  next
    case False
    then show ?thesis by (simp add: Settle hooked_exec_None)
  qed
qed

lemma hooked_exec_inv:
  assumes "hooked_async_inv h" and "hooked_async_exec e h = Some h'"
  shows "hooked_async_inv h'"
proof -
  from hooked_exec_simulates [OF assms(1), of e] assms(2)
  have "async_exec e (async_of h) = Some (async_of h')" by simp
  with assms(1) have r: "async_reachable (async_of h')"
    by (auto simp: hooked_async_inv_def intro: async_reachable.step)
  have "hooks_inv (hooks h')"
  proof (cases e)
    case (User ev)
    with assms(2) have en: "enabled (component (hooks h)) ev"
      using hooked_exec_None(1) [where h = h and ev = ev] by auto
    from hooked_user_step(1) [OF assms(1) en] assms(2) have "h' = \<lparr>hooks = rerender ((hooks h)
          \<lparr>component := fst (start_handler ev (component (hooks h))),
           config_id := config_id_after ev (component (hooks h)) (config_id (hooks h))\<rparr>),
        waiting = waiting h @ snd (start_handler ev (component (hooks h)))\<rparr>"
      by (simp add: User)
    with hooked_user_step(2) [OF assms(1) en] show ?thesis by simp
  next
    case (Settle i r)
    with assms(2) obtain s' where i: "i < length (waiting h)"
      and s': "finish_handler (waiting h ! i) r (component (hooks h)) = Some s'"
      using hooked_exec_None(2,3) [where i = i and h = h and r = r]
      by (cases "i < length (waiting h)") auto
    from hooked_settle_step(1) [OF assms(1) i s'] assms(2)
    have "h' = \<lparr>hooks = rerender ((hooks h)\<lparr>component := s'\<rparr>),
        waiting = take i (waiting h) @ drop (Suc i) (waiting h)\<rparr>"
      by (simp add: Settle)
    with hooked_settle_step(2) [OF assms(1) i s'] show ?thesis by simp
  qed
  with r show ?thesis by (simp add: hooked_async_inv_def)
qed

subsection \<open>Mounting and reachable states\<close>

lemma hooked_async_mounted_eq:
  "(hooked_async_mounted :: ('e, 'b) hooked_async) =
     \<lparr>hooks = rerender ((rerender hooked_initial)
                \<lparr>component := fst (begin_initModel (render initial_system))\<rparr>),
      waiting = snd (begin_initModel (render (initial_system :: ('e, 'b) system)))\<rparr>"
  by (simp add: hooked_async_mounted_def async_run_effects_def first_render
      closure_begin_initModel_fresh case_prod_beta effect_due_def)

lemma async_of_mounted:
  "async_of (hooked_async_mounted :: ('e, 'b) hooked_async) = async_mounted"
  by (simp add: hooked_async_mounted_eq async_of_def async_mounted_def case_prod_beta)

lemma hooked_async_inv_mounted:
  "hooked_async_inv (hooked_async_mounted :: ('e, 'b) hooked_async)"
proof -
  have "hooks_inv (hooks (hooked_async_mounted :: ('e, 'b) hooked_async))"
    unfolding hooked_async_mounted_eq hooked_async.simps
    by (rule hooks_inv_second_render) simp_all
  then show ?thesis
    by (simp add: hooked_async_inv_def async_of_mounted async_reachable.start)
qed

lemma hooked_async_reachable_inv: "hooked_async_reachable h \<Longrightarrow> hooked_async_inv h"
  by (induction rule: hooked_async_reachable.induct)
     (auto intro: hooked_async_inv_mounted hooked_exec_inv)

lemma async_reachable_hooked:
  assumes "async_reachable a"
  shows "\<exists>h. hooked_async_reachable h \<and> async_of h = a"
  using assms
proof (induction rule: async_reachable.induct)
  case start
  from hooked_async_reachable.start async_of_mounted show ?case by blast
next
  case (step a e a')
  then obtain h where h: "hooked_async_reachable h" "async_of h = a" by blast
  from h(1) have "hooked_async_inv h" by (rule hooked_async_reachable_inv)
  from hooked_exec_simulates [OF this, of e] step.hyps(2) h(2)
  obtain h' where "hooked_async_exec e h = Some h'" "async_of h' = a'" by auto
  with h(1) show ?case by (blast intro: hooked_async_reachable.step)
qed

lemma hooked_run_simulates:
  assumes "hooked_async_inv h"
  shows "map_option async_of (hooked_async_run es h) = async_run es (async_of h)"
  using assms
proof (induction es arbitrary: h)
  case (Cons e es)
  show ?case
  proof (cases "hooked_async_exec e h")
    case None
    with hooked_exec_simulates [OF Cons.prems, of e, symmetric] show ?thesis by simp
  next
    case (Some h')
    with hooked_exec_simulates [OF Cons.prems, of e, symmetric]
      Cons.IH [OF hooked_exec_inv [OF Cons.prems Some]]
    show ?thesis by simp
  qed
qed simp

lemma hooked_run_reachable:
  assumes "hooked_async_reachable h" and "hooked_async_run es h = Some h'"
  shows "hooked_async_reachable h'"
  using assms
  by (induction es arbitrary: h)
     (auto split: option.splits intro: hooked_async_reachable.step)

subsection \<open>Sample schedule\<close>

lemma sample_change_eq:
  "async_run sample_change_while_processing async_mounted =
     Some \<lparr>sys = \<lparr>ui = initial_app_state\<lparr>isProcessing := True, modelLoaded := True,
                      loadingProgress := 100,
                      config := defaultConfig\<lparr>output := (output defaultConfig)\<lparr>format := Image_jpeg\<rparr>\<rparr>\<rparr>,
                 wrapper = \<lparr>isModelLoaded = True,
                   trace = [PreloadCall (preload_options_of defaultConfig) (Resolved ())]\<rparr>,
                 dom = \<lparr>object_urls = [(0, File_object sample_file)], next_url = 1,
                         downloads = [], fileInput = None\<rparr>\<rparr>,
           pending = [Removal sample_file defaultConfig 0]\<rparr>"
proof -
  have app: "async_run (es @ es') a =
      (case async_run es a of None \<Rightarrow> None | Some a' \<Rightarrow> async_run es' a')"
    for es es' and a :: "('e, 'b) async_state"
    by (induction es arbitrary: a) (simp_all split: option.splits)
  show ?thesis
    unfolding sample_change_while_processing_def app sample_processing_eq
    by (simp add: panel_click_simps begin_handleConfigChange_def model_options_changed_def
        setter_defs render_def show_upload_def initial_app_state_def defaultConfig_def
        del: panel_click.simps)
qed

section \<open>Properties\<close>

text \<open>
  \<^bold>\<open>C27\<close> (safety). No function is stale under interleaving. Under every schedule of events
  and settlements, after each step every handler React keeps has captured the current
  values of what it reads, so the function the next event is given starts as the handler
  of \<open>AppAsync\<close> does on the current state: a step with memoised functions is the step of
  \<open>AppAsync\<close>, it is possible exactly when that one is, and the states reached are those
  of \<open>AppAsync\<close>. What a handler reads after its \<open>await\<close> is what it captured when it
  was started, which the pending call holds.
\<close>

theorem handlers_fresh_under_interleaving:
  assumes "hooked_async_reachable h"
  shows "fresh (hooks h) \<and> async_reachable (async_of h) \<and>
         map_option async_of (hooked_async_exec e h) = async_exec e (async_of h)"
proof -
  from assms have "hooked_async_inv h" by (rule hooked_async_reachable_inv)
  then show ?thesis
    using hooked_exec_simulates [of h e] by (simp add: hooked_async_inv_def hooks_inv_def)
qed

theorem handlers_fresh_under_interleaving_witness:
  "\<exists>h m. hooked_async_run sample_change_while_processing hooked_async_mounted = Some h \<and>
     hooked_async_reachable h \<and>
     waiting h = [Removal sample_file defaultConfig 0] \<and>
     cells (hooks h) = Some m \<and>
     captured (cb_handleFileSelect m) =
       defaultConfig\<lparr>output := (output defaultConfig)\<lparr>format := Image_jpeg\<rparr>\<rparr> \<and>
     captured (cb_handleFileSelect m) \<noteq> defaultConfig"
proof -
  from hooked_run_simulates [OF hooked_async_inv_mounted, of sample_change_while_processing]
  obtain h :: "(string, format) hooked_async"
    where h: "hooked_async_run sample_change_while_processing hooked_async_mounted = Some h"
      and a: "async_of h = the (async_run sample_change_while_processing async_mounted)"
    by (auto simp: async_of_mounted sample_change_eq)
  from hooked_run_reachable [OF hooked_async_reachable.start h]
  have r: "hooked_async_reachable h" .
  from handlers_fresh_under_interleaving [OF r] a
  have "fresh (hooks h)" and "waiting h = [Removal sample_file defaultConfig 0]"
    and "config (ui (component (hooks h))) =
      defaultConfig\<lparr>output := (output defaultConfig)\<lparr>format := Image_jpeg\<rparr>\<rparr>"
    by (simp_all add: sample_change_eq async_of_def)
  with h r show ?thesis
    by (auto simp: fresh_def fresh_cells_def up_to_date_def defaultConfig_def
        split: option.splits)
qed

end
