(* ===== verification/Spec2Isabelle.thy ===== *)
theory Spec2Isabelle
  imports BR_Prelude Config Environment BackgroundRemoval ConfigPanel RawConfig Download Regex App AppAsync
    Schedules Outstanding View Dom Hooks HooksAsync
begin

text \<open>
  \<^bold>\<open>Verification of the background-removal front end.\<close>

  \<^bold>\<open>The program.\<close> A browser application of three source files:
  \<^item> \<^verbatim>\<open>src/src/utils/backgroundRemoval.ts\<close>, the model lifecycle wrapper: a module-wide
    flag \<open>isModelLoaded\<close>, the operations \<open>loadModel\<close>, \<open>isModelReady\<close>, \<open>resetModel\<close>, and
    the inference call \<open>processImageBackgroundRemoval\<close>, around the two functions
    \<open>preload\<close> and \<open>removeBackground\<close> of an external library;
  \<^item> \<^verbatim>\<open>src/src/components/ConfigPanel.tsx\<close>, the settings panel: it keeps no state and
    turns a click into a new configuration object handed to \<open>onConfigChange\<close>, or into a
    call of \<open>onToggle\<close>;
  \<^item> \<^verbatim>\<open>src/src/App.tsx\<close>, the application component: eight \<open>useState\<close> hooks, the mount
    effect \<open>initModel\<close>, the handlers \<open>handleConfigChange\<close>, \<open>handleFileSelect\<close>,
    \<open>handleDrop\<close>, \<open>handleDragOver\<close>, \<open>handleDragLeave\<close>, \<open>handleFileChange\<close>,
    \<open>downloadImage\<close>, \<open>reset\<close>, and the conditions under which each section is rendered.

  The application calls the wrapper (\<open>loadModel\<close>, \<open>resetModel\<close>, \<open>isModelReady\<close>,
  \<open>processImageBackgroundRemoval\<close>), hands the panel its configuration and two
  callbacks, and talks to the browser (\<open>URL.createObjectURL\<close>, \<open>URL.revokeObjectURL\<close>, a
  download link, the file input).

  \<^bold>\<open>Theories.\<close>
  \<^item> \<open>BR_Prelude\<close>: promise outcomes as a sum type (\<open>Rejected\<close> is \<open>Inl\<close>, \<open>Resolved\<close> is
    \<open>Inr\<close>), caught values (\<open>LibThrown\<close> for what the library throws, \<open>ErrorObj\<close> for an
    \<open>Error\<close> the program constructs), and lemmas on association lists with distinct keys.
  \<^item> \<open>Config\<close>: the interfaces \<open>Config\<close> and \<open>Config['output']\<close> as records, their string
    unions as datatypes with the literal each constructor stands for (\<open>device_value\<close>,
    \<open>model_value\<close>, \<open>format_value\<close>, \<open>type_value\<close>), \<open>defaultConfig\<close>, and \<open>valid_config\<close>
    (the quality is in \<open>[0, 1]\<close>).
  \<^item> \<open>Environment\<close>: what is outside the program. The library is a record \<open>library\<close> of
    two functions that are given the effects so far and answer with an outcome; a
    theorem that holds for every \<open>library\<close> holds whatever the real one does, a library
    that fails at random included. \<open>effect\<close> is a call of the library with its answer, or
    a line on the console; a list of effects is the trace of a run. \<open>dom_file\<close> is what
    the program reads of a \<open>File\<close>.
  \<^item> \<open>BackgroundRemoval\<close>: the wrapper. \<open>world\<close> is the module flag with the trace;
    \<open>loadModel\<close>, \<open>processImageBackgroundRemoval\<close> (its \<open>try\<close> block \<open>removal_try\<close> and its
    \<open>catch\<close> clause \<open>removal_catch\<close>), \<open>isModelReady\<close> and \<open>resetModel\<close> are functions on
    it that return the outcome of the promise and the new world. \<open>op\<close>, \<open>exec_op\<close>, \<open>run\<close>
    and \<open>reachable\<close> are the wrapper under an arbitrary client; \<open>world_inv\<close> is its
    invariant; \<open>lifecycle\<close>, \<open>spec_step\<close> and \<open>abs_state\<close> are the two-state contract of the
    specification and the abstraction to it.
  \<^item> \<open>ConfigPanel\<close>: the panel. \<open>config_partial\<close> and \<open>spread_config\<close> are
    \<open>Partial<Config>\<close> and the object spread; \<open>updateConfig\<close> and \<open>updateOutputConfig\<close> are
    the two functions of the component; \<open>panel_event\<close> and \<open>panel_click\<close> are its controls
    and their handlers; \<open>device_buttons\<close> and the like are what it highlights;
    \<open>ConfigPanel\<close> is the component as a function of its props and \<open>offered\<close> the events
    the rendered panel can raise; \<open>panel_session\<close> is the panel under a parent that stores
    what it is handed.
  \<^item> \<open>RawConfig\<close>: the configuration as the object of strings it is at run time
    (\<open>raw_config\<close>), the literals the buttons of the panel carry and write through
    \<open>as any\<close> (\<open>model_literals\<close> and the like, \<open>raw_click\<close>), membership in the unions of
    \<open>Config\<close> (\<open>decode\<close>, \<open>well_typed\<close>) and the way back (\<open>encode\<close>).
  \<^item> \<open>Download\<close>: the pure part of \<open>downloadImage\<close> and of the result view: \<open>extension\<close>,
    \<open>outputType\<close>, the regular expression \<open>/\.[^/.]+$/\<close> as the scan \<open>replace_extension\<close>,
    \<open>download_name\<close>, \<open>getOutputTypeLabel\<close> and the labels of the configuration summary.
  \<^item> \<open>Regex\<close>: the regular expression of \<open>downloadImage\<close> as a value (\<open>extension_rx\<close>) of a
    small syntax \<open>rx\<close>, with what a pattern matches (\<open>rx_match\<close>), the backtracking
    matcher (\<open>ends\<close>), the search loop of \<open>exec\<close> (\<open>exec_from\<close>) and \<open>replace\<close> with a pattern
    that is not global (\<open>replace_first\<close>).
  \<^item> \<open>App\<close>: the component. \<open>app_state\<close> is the values of the hooks, \<open>browser\<close> the
    object URLs, downloads and file input, \<open>system\<close> both with the wrapper's \<open>world\<close>. Each
    handler is a function on \<open>system\<close>. \<open>app_event\<close>, \<open>enabled\<close>, \<open>handler\<close>, \<open>render\<close> and
    \<open>handle\<close> are the events of the user, the condition under which the control of
    each is rendered, and the state after the handler and the next render;
    \<open>app_reachable\<close> are the states after the mount effect and any enabled events.
  \<^item> \<open>AppAsync\<close>: the component when handlers interleave. \<open>task\<close> is a handler suspended
    at its \<open>await\<close>; \<open>begin_initModel\<close>, \<open>begin_handleConfigChange\<close> and
    \<open>begin_handleFileSelect\<close> are the handlers up to the \<open>await\<close>, the \<open>finish_\<dots>\<close> functions
    what follows it; \<open>async_exec\<close> is one step (an event of the user, or a pending call
    settled with any answer), \<open>async_reachable\<close> the states after any steps;
    \<open>async_inv\<close>, \<open>async_model_inv\<close> and \<open>async_urls_inv\<close> are what holds of them.
  \<^item> \<open>Schedules\<close>: the schedules of \<open>AppAsync\<close> every step of which satisfies a condition
    (\<open>async_reachable_under\<close>, \<open>guarded_run\<close>), the condition \<open>panel_waits\<close> that no
    settings change reloads the model while a load is pending (\<open>reloads\<close>, \<open>loads\<close>), and
    the invariant \<open>load_inv\<close> it gives.
  \<^item> \<open>Outstanding\<close>: the calls that are outstanding together under that condition: every
    inference has its model preloaded (\<open>served_after\<close>, \<open>served_inv\<close>), at most an
    inference and a reload are pending (\<open>pending_shape\<close>), and the two orders in which
    they can settle (\<open>removal_then_load\<close>, \<open>load_then_removal\<close>, \<open>same_up_to_order\<close>).
  \<^item> \<open>View\<close>: what the component returns. \<open>view\<close> is the page as a function of the state:
    the sections that are rendered and the values the JSX puts into them (\<open>loading_view\<close>,
    \<open>upload_view\<close>, \<open>processing_view\<close>, \<open>results_view\<close>); \<open>offers\<close> reads off a page the
    events it can raise; \<open>shown_inv\<close> says what the images on display are.
  \<^item> \<open>Dom\<close>: the document under the component. \<open>document\<close> holds the anchors created, the
    children of the body and the downloads begun; \<open>createElement\<close>, \<open>set_href\<close>,
    \<open>set_download\<close>, \<open>appendChild\<close>, \<open>click\<close> and \<open>removeChild\<close> are the calls
    \<open>downloadImage\<close> makes on it, as computations in the state monad, and
    \<open>downloadImage_dom\<close> is their sequence. \<open>onDrop\<close>, \<open>onDragOver\<close>, \<open>onDragLeave\<close> and
    \<open>onChange\<close> are the four handlers of the upload area on the event object they are
    passed (\<open>drag_event\<close>, \<open>change_event\<close>); \<open>dispatch\<close> delivers an event of the document
    (\<open>dom_event\<close>) to the handler the JSX attaches, and \<open>abs_page\<close> is the state of \<open>App\<close>
    a page stands for.
  \<^item> \<open>Hooks\<close>: the functions of the component as React keeps them between renders.
    \<open>callback\<close> is a function stored by \<open>useCallback\<close> or \<open>useEffect\<close> with its
    dependencies, the render that made it and the values it captured; \<open>render_memo\<close> is
    the nine calls of \<open>useEffect\<close> and \<open>useCallback\<close> in one render, with the dependency
    lists of the source; \<open>closure_handler\<close> runs the function a control was given, which
    reads what it captured; \<open>hooked_handle\<close> is an event followed by the render and the
    effects that are due.
  \<^item> \<open>HooksAsync\<close>: the same when handlers interleave. \<open>closure_start_handler\<close> is the
    function a control is given, up to its \<open>await\<close>; \<open>hooked_async_exec\<close> is a step of
    \<open>AppAsync\<close> with the functions React keeps, followed by a render; \<open>async_of\<close> is the
    state of \<open>AppAsync\<close> it stands for.
  \<^item> \<open>Spec2Isabelle\<close> (this theory): the component as a client of the wrapper
    (\<open>client_step\<close>, \<open>client_run\<close>, \<open>wrapper_calls\<close>: the exported operations each handler
    calls, over the wrapper's datatype \<open>op\<close>), and the properties that span components.

  \<^bold>\<open>What the lemmas show.\<close>
  \<^item> Wrapper (\<open>BackgroundRemoval\<close>): the behaviour of \<open>loadModel\<close> and
    \<open>processImageBackgroundRemoval\<close> on every branch, as case rules
    (\<open>loadModel_cases\<close>, \<open>processImage_cases\<close>) with one equation per branch; the
    testable properties of the specification (load is idempotent, a failed preload
    leaves the flag and is rethrown unchanged, a failed inference is replaced by the
    fixed message and logged, at most one load before an inference, reset forces a
    reload); the invariant \<open>world_inv\<close> of all reachable worlds; refinement of the
    two-state contract. Two divergences from the specification are theorems: a load
    failure inside \<open>processImageBackgroundRemoval\<close> is translated like an inference
    failure, and \<open>loadModel\<close> on a loaded module ignores the configuration it is given.
  \<^item> Panel (\<open>ConfigPanel\<close>): a click changes the field of its control and no other, the
    new configuration highlights the clicked button, the quality stays in \<open>[0, 1]\<close> over
    any session, the slider label is a multiple of ten; every value of the four unions
    has a button, so the rendered panel offers the events of \<open>panel_enabled\<close>
    (\<open>ConfigPanel_offers\<close>).
  \<^item> Types (\<open>RawConfig\<close>): every configuration the panel can produce from the default is
    well typed, so the three casts of the panel are harmless; \<open>decode\<close> and \<open>encode\<close> are
    inverse on well-typed objects (the round trip of the literals, in both directions); every button is one control of \<open>ConfigPanel\<close> and its
    handler on strings is \<open>panel_click\<close> on the datatypes (\<open>raw_click_simulated\<close>).
  \<^item> Download (\<open>Download\<close>): the regular-expression scan equals "drop what follows the
    last dot, if that is not empty and has no slash"; download names end in exactly one
    extension of the chosen format; the defaults of the label switches are unreachable.
  \<^item> Regular expression (\<open>Regex\<close>): the matcher terminates (a measure on the size of the
    pattern and the length of the input), it is sound and complete for \<open>rx_match\<close>, the
    search loop returns for every pattern and input, and \<open>replace\<close> with the pattern of the
    source is the scan of \<open>Download\<close>.
  \<^item> Application (\<open>App\<close>): one equation per branch of each handler
    (\<open>handleFileSelect_cases\<close>, \<open>handleConfigChange_cases\<close>); the invariant \<open>app_inv\<close> with
    its three parts \<open>model_inv\<close>, \<open>urls_inv\<close>, \<open>input_inv\<close> and its preservation by
    every handler; and from it: the loaded model is that of the configuration, object
    URLs leak exactly on failed removals, two messages and one branch of \<open>reset\<close> are
    dead, files never cause a model load, reloads happen exactly on model option changes,
    and a failed reload followed by \<open>reset\<close> leaves the loading indicator without a
    message and without a load under way.
  \<^item> Interleaving (\<open>AppAsync\<close>): each handler of \<open>App\<close> is its part before the \<open>await\<close>
    followed by its part after it (\<open>initModel_split\<close>, \<open>handleConfigChange_split\<close>,
    \<open>handleFileSelect_split\<close>, \<open>start_handler_cases\<close>), so the schedule in which every call
    settles before the next event is the behaviour of \<open>App\<close>; under every schedule at most
    one inference is pending, no inference is requested before a preload has resolved,
    the upload area is rendered only while the wrapper is ready, and the live object
    URLs are those of the result, of the failed removals and of the pending upload
    (\<open>async_reachable_inv\<close>, \<open>async_reachable_model_inv\<close>, \<open>async_reachable_urls_inv\<close>, each
    by rule induction from one lemma per handler part); and two schedules, both starting
    with a settings click during the initial load, lead to states that \<open>App\<close> excludes: an
    inference with a
    configuration whose model has not been loaded, and a loaded model behind a loading
    bar that never goes away.
  \<^item> Restricted schedules (\<open>Schedules\<close>, \<open>Outstanding\<close>): if no settings change reloads
    the model while a load is pending, the invariant of \<open>App\<close> on the model holds under
    interleaving (\<open>reachable_under_load_inv\<close>), every inference is given a configuration
    whose model has been preloaded (\<open>reachable_under_served_inv\<close>) and the two schedules
    above are excluded (\<open>guard_rejects_races\<close>); every state of \<open>App\<close> is the state of such
    a schedule with nothing pending; from every state of every schedule the pending calls can be
    settled, after which nothing is pending and nothing is processed
    (\<open>settle_all_quiescent\<close>), and if the library resolves every \<open>preload\<close> the model is
    then loaded (\<open>settle_all_invariant\<close>, \<open>settle_keeps_loading\<close>); at most an inference and a reload are pending together
    (\<open>reachable_under_pending_shape\<close>), and they settle in either order with the same
    result if the inference resolves, and with a different message on display if it is
    rejected and the reload resolves.
  \<^item> Composition (this theory): what a handler does to the module is a run of the
    exported operations it calls (\<open>wrapper_handler\<close>), so the module inside the component
    is the module under one particular client; the configuration the component holds
    follows the panel's session model; a file selected and then downloaded gives one
    download of the library's blob; every page the document reaches is a state the
    component reaches with the functions React keeps, none of them stale
    (\<open>page_runs_with_fresh_handlers\<close>).
  \<^item> Page (\<open>View\<close>): under every schedule at most one main section is rendered and the
    page is never empty; the images of the results section are live object URLs of the
    uploaded file and of the blob the library returned for it; with one handler at a
    time the loading bar is only ever drawn at 20 per cent; the events \<open>enabled\<close> admits
    are those the rendered page can raise (\<open>view_offers\<close>); the formats the feature list
    names for the output are those the panel has a button for, and the check on uploads
    lets through more than the three formats the hint of the upload area names.

  \<^item> Document (\<open>Dom\<close>): what each call on the document does (the collection
    \<open>dom_simps\<close>) and, composed by the sequencing rule \<open>run_seq\<close>, what \<open>downloadImage\<close>
    does to it (\<open>run_downloadImage_dom\<close>): the link is fresh, so it is removed from where
    it was appended, \<open>removeChild\<close> does not throw, and one download is begun whether or
    not the browser follows a click on a detached link; the handlers of the upload area
    are those of \<open>App\<close> on the files of the event (\<open>on_event_eqs\<close>) and cancel every drag
    event they are passed (\<open>drag_handlers_cancel\<close>); \<open>dispatch\<close> commutes with \<open>handle\<close>
    of \<open>App\<close> under \<open>abs_page\<close> (\<open>dispatch_simulates\<close>) and keeps \<open>page_inv\<close>, so every
    page reached is a state of \<open>App\<close> (\<open>page_reachable_abs\<close>); and every state of \<open>App\<close>
    is a page reached (\<open>page_of_reachable\<close>), a drop by the dragover that precedes it.
  \<^item> Hooks (\<open>Hooks\<close>): a render keeps every function up to date (\<open>fresh_cells_render\<close>):
    where the dependencies of a function are those it was stored with, the values it
    reads have not changed, because \<open>config\<close> changes only by \<open>setConfig\<close>
    (\<open>config_kept\<close>) and a result is replaced only by another object (\<open>image_kept\<close>). So
    no function a control is given is stale (\<open>hooks_inv\<close>, \<open>hooked_reachable_inv\<close>), the
    function does what the handler of \<open>App\<close> does on the current state
    (\<open>closure_handler_fresh\<close>, \<open>hooked_handle_eq\<close>), the states reached with memoised
    functions are the states of \<open>App\<close> (\<open>hooked_reachable_app\<close>, \<open>app_reachable_hooked\<close>),
    and the mount effect runs once. The same holds under interleaving (\<open>HooksAsync\<close>): a
    step with memoised functions is the step of \<open>AppAsync\<close> (\<open>hooked_exec_simulates\<close>) and
    keeps every function up to date (\<open>hooked_exec_inv\<close>), because a settlement leaves the
    configuration alone and sets a result only where none is on display
    (\<open>config_finish\<close>, \<open>image_kept_finish\<close>); what a handler reads after its \<open>await\<close> is in
    the pending call.

  \<^bold>\<open>Modelling decisions.\<close>
  \<^item> \<^emph>\<open>Two semantics of handlers.\<close> In \<open>App\<close> a handler runs to its end before the next
    event arrives: an \<open>await\<close> is the call it waits for. This is the behaviour the
    specification describes (one operation at a time), and the invariants are proved
    for it. In \<open>AppAsync\<close> a handler returns at its \<open>await\<close> and is resumed when the call
    settles, in any order with other events and other calls; an \<open>await\<close> of a promise
    that is already resolved is not a point of interleaving, since no event of the user
    can run before its continuation.
  \<^item> \<^emph>\<open>The library is a parameter.\<close> Nothing is assumed of \<open>preload\<close> and
    \<open>removeBackground\<close> but that they settle. The blob type \<open>'b\<close> and the type \<open>'e\<close> of what
    the library throws are type variables; the sample libraries (\<open>lib_ok\<close>,
    \<open>lib_offline\<close>, \<open>lib_bad_image\<close>, \<open>lib_flaky\<close>) instantiate them for the worked
    examples.
  \<^item> \<^emph>\<open>Texts.\<close> The messages shown to the user and written to the console are
    constructors (\<open>app_message\<close>, \<open>removal_message\<close>, \<open>wrapper_log\<close>, \<open>app_log\<close>), one per
    string literal of the sources. File names, media types and the literals of the
    configuration are strings.
  \<^item> \<^emph>\<open>Numbers.\<close> File sizes and object URLs are natural numbers (URLs are numbered in
    the order they are created); the quality is a real number, so the rounding of the
    slider label is exact where JavaScript rounds a double.
  \<^item> \<^emph>\<open>Recursion and loops.\<close> The functions of the components are total by structural
    recursion. The matcher \<open>ends\<close> recurses on the pattern and, under a star, on a shorter
    input; its termination is proved with that measure, and an iteration of a star that
    consumes nothing is cut off, as the language does. The search loop \<open>exec_from\<close> is a
    loop that is not structurally bounded: it is a partial function with values in
    \<open>option\<close>, where \<open>None\<close> is "does not return", and that it returns is a theorem
    of \<open>Regex\<close>. A schedule is a finite
    list of steps, and a step that cannot be taken (an event whose control is not
    rendered, a call that is not pending) makes \<open>async_run\<close> return \<open>None\<close>. The one
    function with fuel is \<open>settle_all\<close>, which settles the oldest pending call until
    none is left: settling starts no call, so the number of pending calls is enough
    fuel, and that it then returns with nothing pending is a theorem of \<open>Schedules\<close>.
  \<^item> \<^emph>\<open>Restrictions on schedules.\<close> The program has no control that is disabled while
    a load is pending. \<open>panel_waits\<close> is not a condition the code checks; it is the
    condition on the user under which the interleaving model keeps the invariant of
    the atomic one, and the theorems of \<open>Schedules\<close> that assume it say what a guard in
    the panel would establish. The effect trace orders the calls of the library by
    their settlement; two states that differ only in that order are compared through
    the multiset of their traces.
  \<^item> \<^emph>\<open>Regular expressions.\<close> \<open>rx\<close> has the constructs the pattern of the source uses
    (character, negated class, concatenation, \<open>+\<close>, end of input) and alternation and
    star beside them. A match is the list of remainders in the order backtracking tries
    them; \<open>exec\<close> takes the first remainder at the leftmost start that has one.
  \<^item> \<^emph>\<open>Strings and datatypes.\<close> The components work on the datatypes of \<open>Config\<close>;
    \<open>RawConfig\<close> relates them to the strings of the running program, so that a theorem
    about \<open>panel_click\<close> is a theorem about what the buttons do.

  \<^item> \<^emph>\<open>The document.\<close> \<open>App\<close> records a download as an entry of a list; \<open>Dom\<close> runs the
    six calls of \<open>downloadImage\<close> on a document and relates the two. The calls are
    computations in the state monad of \<open>HOL-Library.State_Monad\<close>, so the definition
    reads as the statements of the source; an exception is the value \<open>Inl\<close> of the
    result. What the browser does is taken from the DOM and HTML standards and is not
    code of the repository: \<open>appendChild\<close> moves a node to the end of the body,
    \<open>removeChild\<close> throws \<open>NotFoundError\<close> for a node that is not a child, a click on an
    anchor with \<open>href\<close> and \<open>download\<close> begins a download, and a drop is delivered only
    where the preceding dragover was cancelled. Whether a click on a detached anchor
    begins a download differs between browsers, so it is a field of the document
    (\<open>follows_detached\<close>) and the theorems hold for both values.

  \<^item> \<^emph>\<open>Closures.\<close> The handlers of \<open>App\<close> read the state they are run in. In the program a
    handler is a closure over the state of the render that made it, kept by
    \<open>useCallback\<close> while its dependencies are unchanged. \<open>Hooks\<close> models this: a captured
    value is put in place of the state before the handler of \<open>App\<close> runs, and the state
    gets back what the handler does not set. Dependencies are compared as \<open>Object.is\<close>
    does: the configuration by the number of calls of \<open>setConfig\<close>, each of which is
    given a new object; a result by the object URL of its upload, which no other result
    has; a function by the render that made it. A render follows every event; where
    React skips one because no state has changed, every dependency is unchanged and the
    render of the model keeps every function.

  \<^bold>\<open>Not modelled.\<close>
  \<^item> \<^emph>\<open>The external library\<close> (\<^verbatim>\<open>@imgly/background-removal\<close>): the neural network and the
    library's internals are not code of the repository. The model has the two
    functions the sources call, with any answer; answers that depend on what else is
    pending are covered in \<open>AppAsync\<close>, where a call settles with any answer.
  \<^item> \<^emph>\<open>Rendering\<close>: class names, icons and the static texts of the JSX that say nothing
    of the program (header, headings, descriptions); layout and style have no
    behaviour to state a theorem about. \<open>View\<close> has every expression of the JSX that
    reads the state, and the two texts that name formats.
  \<^item> \<^emph>\<open>The browser\<close> beyond object URLs, the download link, the file input and the
    events of the upload area: the file picker dialogue, the network stack that
    fetches the model, the decoding of images for display, and the console beyond the
    lines the program writes.
  \<^item> \<^emph>\<open>React\<close>: batching of state updates inside one handler (the model applies the
    setters in program order, which gives the same state after the handler), the
    reconciliation of the element tree, and the second run of effects in development
    builds under \<open>StrictMode\<close>, which is set up outside the three source files.
\<close>

section \<open>The component as a client of the wrapper\<close>

text \<open>
  The calls the component makes to the module of \<^verbatim>\<open>backgroundRemoval.ts\<close>, as steps over
  the wrapper's own datatype of operations \<open>op\<close>: a step is a call of an exported
  operation or a line the component writes to the console. \<open>wrapper_calls\<close> lists, for an
  event and the state it arrives in, the steps its handler takes: \<open>initModel\<close> calls
  \<open>loadModel(config)\<close>; \<open>handleConfigChange\<close> calls \<open>resetModel()\<close> and \<open>loadModel(newConfig)\<close>
  when a model option has changed; \<open>handleFileSelect\<close> calls \<open>isModelReady()\<close> for a file
  that has passed the checks and \<open>processImageBackgroundRemoval(file, config)\<close> when the
  answer is yes; each logs what it catches.
\<close>

datatype 'e client_step = Call op | Log app_log "'e caught"

fun client_exec :: "('e, 'b) library \<Rightarrow> 'e client_step \<Rightarrow> ('e, 'b) world \<Rightarrow> ('e, 'b) world" where
  "client_exec lib (Call x) w = exec_op lib x w"
| "client_exec lib (Log label v) w = w\<lparr>trace := trace w @ [AppLog label v]\<rparr>"

fun client_run :: "('e, 'b) library \<Rightarrow> 'e client_step list \<Rightarrow> ('e, 'b) world \<Rightarrow> ('e, 'b) world" where
  "client_run lib [] w = w"
| "client_run lib (x # xs) w = client_run lib xs (client_exec lib x w)"

definition logged :: "app_log \<Rightarrow> ('e caught, 'a) outcome \<Rightarrow> 'e client_step list" where
  "logged label r = (case r of Inl err \<Rightarrow> [Log label err] | Inr _ \<Rightarrow> [])"

definition calls_of_initModel :: "('e, 'b) library \<Rightarrow> ('e, 'b) system \<Rightarrow> 'e client_step list" where
  "calls_of_initModel lib s =
     Call (LoadModel (Some (config (ui s)))) #
     logged Model_load_failed (fst (loadModel lib (Some (config (ui s))) (wrapper s)))"

definition calls_of_handleConfigChange ::
  "('e, 'b) library \<Rightarrow> config \<Rightarrow> ('e, 'b) system \<Rightarrow> 'e client_step list" where
  "calls_of_handleConfigChange lib newConfig s =
     (if model_options_changed newConfig (config (ui s))
      then [Call ResetModel, Call (LoadModel (Some newConfig))] @
           logged Model_reload_failed (fst (loadModel lib (Some newConfig) (resetModel (wrapper s))))
      else [])"

definition calls_of_handleFileSelect ::
  "('e, 'b) library \<Rightarrow> dom_file \<Rightarrow> ('e, 'b) system \<Rightarrow> 'e client_step list" where
  "calls_of_handleFileSelect lib f s =
     (if \<not> accepted f then []
      else Call IsModelReady #
        (if \<not> isModelReady (wrapper s) then []
         else Call (ProcessImage f (Some (config (ui s)))) #
              logged Background_removal_error
                (fst (processImageBackgroundRemoval lib f (Some (config (ui s))) (wrapper s)))))"

fun wrapper_calls :: "('e, 'b) library \<Rightarrow> app_event \<Rightarrow> ('e, 'b) system \<Rightarrow> 'e client_step list" where
  "wrapper_calls lib Mount s = calls_of_initModel lib s"
| "wrapper_calls lib (Panel ev) s =
     (case panel_click (config (ui s)) ev of
        OnConfigChange c \<Rightarrow> calls_of_handleConfigChange lib c s
      | OnToggle \<Rightarrow> [])"
| "wrapper_calls lib (Drop files) s =
     (case files of f # _ \<Rightarrow> calls_of_handleFileSelect lib f s | [] \<Rightarrow> [])"
| "wrapper_calls lib (FileChange files) s =
     (case files of f # _ \<Rightarrow> calls_of_handleFileSelect lib f s | [] \<Rightarrow> [])"
| "wrapper_calls lib _ s = []"

section \<open>Properties that span components\<close>

lemma client_run_append [simp]:
  "client_run lib (xs @ ys) w = client_run lib ys (client_run lib xs w)"
  by (induction xs arbitrary: w) simp_all

lemma wrapper_initModel:
  "wrapper (initModel lib s) = client_run lib (calls_of_initModel lib s) (wrapper s)"
  by (simp add: initModel_def calls_of_initModel_def logged_def setter_defs app_console_error_def
      Let_def split: prod.splits sum.splits)

lemma wrapper_handleConfigChange:
  "wrapper (handleConfigChange lib c s) =
     client_run lib (calls_of_handleConfigChange lib c s) (wrapper s)"
  by (simp add: handleConfigChange_def calls_of_handleConfigChange_def logged_def setter_defs
      app_console_error_def Let_def split: prod.splits sum.splits)

lemma wrapper_handleFileSelect:
  "wrapper (handleFileSelect lib f s) =
     client_run lib (calls_of_handleFileSelect lib f s) (wrapper s)"
  by (simp add: handleFileSelect_def calls_of_handleFileSelect_def logged_def setter_defs
      app_console_error_def createObjectURL_def accepted_def Let_def
      split: prod.splits sum.splits)

lemma wrapper_handler:
  "wrapper (handler lib ev s) = client_run lib (wrapper_calls lib ev s) (wrapper s)"
proof (cases ev)
  case (Panel pev)
  then show ?thesis
    by (cases "panel_click (config (ui s)) pev")
       (simp_all add: wrapper_handleConfigChange onToggle_def setter_defs)
next
  case (Drop files)
  with wrapper_handleFileSelect [of lib _ "setDragOver False s"] show ?thesis
    by (cases files)
       (simp_all add: handleDrop_def Let_def setDragOver_def calls_of_handleFileSelect_def)
next
  case (FileChange files)
  then show ?thesis
    by (cases files) (simp_all add: handleFileChange_def wrapper_handleFileSelect)
qed (simp_all add: wrapper_initModel handleDragOver_def handleDragLeave_def setDragOver_def
      downloadImage_def reset_eq split: option.splits)

lemma wrapper_mounted:
  "wrapper (mounted lib) = client_run lib (wrapper_calls lib Mount (render initial_system)) initial_world"
  using wrapper_handler [of lib Mount "render initial_system"]
  by (simp add: mounted_def handle_def initial_system_def)

lemma reachable_client_run:
  assumes "app_reachable lib s"
  shows "\<exists>steps. wrapper s = client_run lib steps initial_world"
  using assms
proof (induction rule: app_reachable.induct)
  case mount
  show ?case by (rule exI) (rule wrapper_mounted)
next
  case (event s ev)
  then obtain steps where "wrapper s = client_run lib steps initial_world" by blast
  then have "wrapper (handle lib ev s) =
      client_run lib (steps @ wrapper_calls lib ev s) initial_world"
    by (simp add: handle_def wrapper_handler)
  then show ?case by blast
qed

text \<open>
  \<^bold>\<open>C14\<close> (refinement). The component and the wrapper meet at the wrapper's exported
  operations: what an event does to the module is to run the operations \<open>wrapper_calls\<close>
  lists for it, in that order, and to write the component's console lines. So the module
  state in every reachable state of the component is the result of a run of exported
  operations and console lines from the initial module state, and what is proved of the
  wrapper under an arbitrary client holds inside the component.
\<close>

theorem component_drives_wrapper_by_ops:
  assumes "app_reachable lib s"
  shows "(\<exists>steps. wrapper s = client_run lib steps initial_world) \<and>
         wrapper (handle lib ev s) = client_run lib (wrapper_calls lib ev s) (wrapper s)"
  using reachable_client_run [OF assms] by (simp add: handle_def wrapper_handler)

theorem component_drives_wrapper_by_ops_witness:
  "app_reachable lib_ok (mounted lib_ok) \<and>
   wrapper_calls lib_ok (FileChange [sample_file]) (mounted lib_ok) =
     [Call IsModelReady, Call (ProcessImage sample_file (Some defaultConfig))] \<and>
   wrapper_calls lib_ok (Panel (DeviceButton Gpu)) (mounted lib_ok) =
     [Call ResetModel, Call (LoadModel (Some (defaultConfig\<lparr>device := Gpu\<rparr>)))] \<and>
   wrapper (handle lib_ok (FileChange [sample_file]) (mounted lib_ok)) =
     client_run lib_ok [Call IsModelReady, Call (ProcessImage sample_file (Some defaultConfig))]
       (wrapper (mounted lib_ok))"
proof -
  have c: "wrapper_calls lib_ok (FileChange [sample_file]) (mounted lib_ok) =
     [Call IsModelReady, Call (ProcessImage sample_file (Some defaultConfig))]"
    by (simp add: calls_of_handleFileSelect_def logged_def mounted_lib_ok sample_file_accepted
        initial_app_state_def isModelReady_def processImage_ready)
  have d: "wrapper_calls lib_ok (Panel (DeviceButton Gpu)) (mounted lib_ok) =
     [Call ResetModel, Call (LoadModel (Some (defaultConfig\<lparr>device := Gpu\<rparr>)))]"
    by (simp add: calls_of_handleConfigChange_def logged_def mounted_lib_ok
        initial_app_state_def panel_click_simps model_options_changed_def resetModel_def
        loadModel_preload_ok del: panel_click.simps)
  from component_drives_wrapper_by_ops [OF sample_reachable(1), of "FileChange [sample_file]"]
    sample_reachable(1) c d
  show ?thesis by simp
qed

text \<open>
  The application and the settings panel agree on the panel's
  contract: after any sequence of panel events, the configuration and the open flag the
  application holds are those of the panel's own session model, whatever the library
  answers to the reloads the clicks cause. \<open>handleConfigChange\<close> stores every
  configuration it is handed, also when the reload fails, and \<open>onToggle\<close> flips the flag.
\<close>

theorem panel_events_follow_session:
  "(config (ui (handle_all lib (map Panel evs) s)),
    configPanelOpen (ui (handle_all lib (map Panel evs) s))) =
     panel_session (config (ui s), configPanelOpen (ui s)) evs"
proof (induction evs arbitrary: s)
  case (Cons ev evs)
  show ?case
    by (cases "panel_click (config (ui s)) ev") (simp_all add: Cons.IH handle_panel_step)
qed simp

theorem panel_events_follow_session_witness:
  "config (ui (handle_all lib_ok
      (map Panel [ToggleButton, QualitySlider 0.3, QualitySlider 7, Overlay, Overlay,
                  FormatButton Image_jpeg]) sample_done)) =
     defaultConfig\<lparr>output := \<lparr>format = Image_jpeg, quality = 0.3, type = Foreground\<rparr>\<rparr> \<and>
   \<not> configPanelOpen (ui (handle_all lib_ok
      (map Panel [ToggleButton, QualitySlider 0.3, QualitySlider 7, Overlay, Overlay,
                  FormatButton Image_jpeg]) sample_done))"
proof -
  have "panel_session (config (ui sample_done), configPanelOpen (ui sample_done))
      [ToggleButton, QualitySlider 0.3, QualitySlider 7, Overlay, Overlay,
       FormatButton Image_jpeg] =
     (defaultConfig\<lparr>output := \<lparr>format = Image_jpeg, quality = 0.3, type = Foreground\<rparr>\<rparr>,
      False)"
    by (simp add: sample_done_eq initial_app_state_def panel_defs slider_values_eq
        overlay_shown_def defaultConfig_def)
  with panel_events_follow_session [of lib_ok
      "[ToggleButton, QualitySlider 0.3, QualitySlider 7, Overlay, Overlay,
        FormatButton Image_jpeg]" sample_done]
  show ?thesis by (simp del: handle_all.simps panel_session.simps)
qed

text \<open>
  From upload to download: in a reachable state that renders the
  upload area, selecting an accepted file for which the library returns a blob and then
  pressing download starts one download, of the URL that points to that blob, named by
  \<open>download_name\<close> from the configuration the image was processed with and the name of the
  upload.
\<close>

theorem select_then_download:
  assumes "app_reachable lib s" and "enabled s (FileChange (f # fs))" and "accepted f"
    and "removeBackground lib (trace (wrapper s)) f (config (ui s)) = Resolved blob"
  shows "downloads (dom (handle_all lib [FileChange (f # fs), DownloadClick] s)) =
           downloads (dom s) @
             [(Suc (next_url (dom s)), download_name (config (ui s)) (file_name f))] \<and>
         map_of (object_urls (dom (handle_all lib [FileChange (f # fs), DownloadClick] s)))
           (Suc (next_url (dom s))) = Some (Blob_object blob)"
proof -
  from assms(2) have up: "show_upload s" by simp
  from app_reachable_inv [OF assms(1)]
  have "\<forall>u \<in> fst ` set (object_urls (dom s)). u < next_url (dom s)"
    by (simp add: app_inv_def urls_inv_def)
  note fresh = map_of_two_fresh [OF this]
  from handleFileSelect_ok [OF assms(3) reachable_ready(1) [OF assms(1) up] assms(4)] assms(2)
  show ?thesis
    by (simp add: handle_file_list fresh show_results_def del: map_of_append)
       (simp add: handle_def downloadImage_def fresh del: map_of_append)
qed

theorem select_then_download_witness:
  "app_reachable lib_ok (mounted lib_ok) \<and>
   enabled (mounted lib_ok) (FileChange [sample_file]) \<and> accepted sample_file \<and>
   downloads (dom (handle_all lib_ok [FileChange [sample_file], DownloadClick] (mounted lib_ok))) =
     [(1, ''no-bg-cat.png'')]"
proof -
  have e: "enabled (mounted lib_ok) (FileChange [sample_file])"
    by (simp add: mounted_lib_ok show_upload_def initial_app_state_def)
  have r: "removeBackground lib_ok (trace (wrapper (mounted lib_ok))) sample_file
     (config (ui (mounted lib_ok))) = Resolved Image_png"
    by (simp add: mounted_lib_ok initial_app_state_def)
  have n: "download_name (config (ui (mounted lib_ok))) (file_name sample_file) = ''no-bg-cat.png''"
    by (simp add: mounted_lib_ok initial_app_state_def sample_file_def download_name_def
        outputType_cases extension_cases ext_char_def)
  from select_then_download [OF sample_reachable(1) e sample_file_accepted r]
    sample_reachable(1) e sample_file_accepted n
  show ?thesis by (simp add: mounted_lib_ok del: handle_all.simps)
qed

text \<open>
  The three models of the component agree: a page reached by events of the document
  stands for a state that is reached with the functions React keeps between renders, and
  in that state every handler has captured the current values.
\<close>

lemma page_runs_with_fresh_handlers:
  assumes "page_reachable lib p"
  shows "\<exists>hs. hooked_reachable lib hs \<and> component hs = abs_page p \<and> fresh hs"
proof -
  from assms have "app_reachable lib (abs_page p)" by (rule page_reachable_abs)
  then obtain hs where hs: "hooked_reachable lib hs" "component hs = abs_page p"
    using app_reachable_hooked by blast
  from hs(1) have "fresh hs" using hooked_reachable_inv by (auto simp: hooks_inv_def)
  with hs show ?thesis by blast
qed

end
